theory Spec2Isabelle
  imports Main "HOL-Library.AList"
begin

section \<open>JavaScript values and strings\<close>

text \<open>
  The schedule viewer is a browser script (\<^verbatim>\<open>gtfsscheduleviewer/files/index.js\<close>)
  together with a labelled-marker overlay class. Strings are byte strings (UTF-8). The
  numbers the script computes with (seconds since midnight, year, month, day) are
  integers and are modelled by \<open>int\<close>; a value that may be a number or a string at run
  time is a \<open>jsval\<close>. Coordinates are never computed with by the script, only handed to
  the map library or concatenated into texts, so a coordinate is represented by its
  decimal rendering.
\<close>

datatype jsval = JNum int | JStr string

text \<open>
  The errors a call can end with. \<open>UnexpectedResponse\<close> stands for a response with code
  200 whose text does not evaluate to rows of the shape the callback indexes into; what the
  script does with such a text is outside the model, which stops there.
\<close>

datatype js_error = ReferenceError | TypeError | UnexpectedResponse

definition digit_char :: "nat \<Rightarrow> char" where
  "digit_char n = ''0123456789'' ! n"

fun nat_to_str :: "nat \<Rightarrow> string" where
  "nat_to_str n =
     (if n < 10 then [digit_char n] else nat_to_str (n div 10) @ [digit_char (n mod 10)])"

declare nat_to_str.simps [simp del]

text \<open>ToString of an integral number.\<close>

definition num_to_str :: "int \<Rightarrow> string" where
  "num_to_str i = (if i < 0 then CHR ''-'' # nat_to_str (nat (- i)) else nat_to_str (nat i))"

definition to_str :: "jsval \<Rightarrow> string" where
  "to_str v = (case v of JNum n \<Rightarrow> num_to_str n | JStr s \<Rightarrow> s)"

text \<open>The operator \<^verbatim>\<open>+\<close>: numeric addition of two numbers, concatenation otherwise.\<close>

definition js_add :: "jsval \<Rightarrow> jsval \<Rightarrow> jsval" where
  "js_add a b =
     (case (a, b) of
        (JNum x, JNum y) \<Rightarrow> JNum (x + y)
      | _ \<Rightarrow> JStr (to_str a @ to_str b))"

text \<open>Truthiness of an optional string argument: \<^verbatim>\<open>undefined\<close> and \<^verbatim>\<open>""\<close> are falsy.\<close>

definition truthy_text :: "string option \<Rightarrow> bool" where
  "truthy_text t = (case t of None \<Rightarrow> False | Some x \<Rightarrow> x \<noteq> [])"

definition is_digit :: "char \<Rightarrow> bool" where
  "is_digit c = (c \<in> set ''0123456789'')"

definition digit_val :: "char \<Rightarrow> int" where
  "digit_val c = int (of_char c) - 48"

text \<open>\<^verbatim>\<open>parseInt(s, 10)\<close> on a non-empty string of decimal digits, the only kind of
  argument the script passes (the regular expression groups consist of digits).\<close>

definition parseInt10 :: "string \<Rightarrow> int" where
  "parseInt10 s = foldl (\<lambda>a c. 10 * a + digit_val c) 0 s"

text \<open>
  \<^verbatim>\<open>encodeURIComponent\<close>: the unreserved characters stay, every other byte becomes
  \<^verbatim>\<open>%XX\<close>.
\<close>

definition uri_unreserved :: "char \<Rightarrow> bool" where
  "uri_unreserved c =
     (c \<in> set ''ABCDEFGHIJKLMNOPQRSTUVWXYZabcdefghijklmnopqrstuvwxyz0123456789-_.!~*'()'')"

definition hex_char :: "nat \<Rightarrow> char" where
  "hex_char n = ''0123456789ABCDEF'' ! n"

definition encodeURIComponent :: "string \<Rightarrow> string" where
  "encodeURIComponent s =
     concat (map (\<lambda>c. if uri_unreserved c then [c]
                       else [CHR ''%'', hex_char (of_char c div 16), hex_char (of_char c mod 16)]) s)"

section \<open>The regular expressions of the time and date inputs\<close>

text \<open>
  \<^verbatim>\<open>[cls]?\d\<close>: the alternatives the backtracking matcher tries, in its order, each
  with the text matched and the rest of the input. The optional class is greedy, so the
  two-character alternative comes first.
\<close>

definition opt_digit_alts :: "string \<Rightarrow> string \<Rightarrow> (string \<times> string) list" where
  "opt_digit_alts cls s =
     (case s of
        [] \<Rightarrow> []
      | [c1] \<Rightarrow> (if is_digit c1 then [([c1], [])] else [])
      | c1 # c2 # r \<Rightarrow>
          (if c1 \<in> set cls \<and> is_digit c2 then [([c1, c2], r)] else []) @
          (if is_digit c1 then [([c1], c2 # r)] else []))"

text \<open>\<^verbatim>\<open>(:([012345]?\d))?\<close>: the group if it matches, the empty match after it.\<close>

definition seconds_alts :: "string \<Rightarrow> string option list" where
  "seconds_alts s =
     (case s of
        c # r \<Rightarrow> (if c = CHR '':'' then map (\<lambda>(m, _). Some m) (opt_digit_alts ''012345'' r) else [])
      | [] \<Rightarrow> []) @ [None]"

text \<open>
  \<^verbatim>\<open>/([012]?\d):([012345]?\d)(:([012345]?\d))?/\<close> matched at the start of \<open>s\<close>: the
  groups 1, 2 and 4 of every way to match, in the matcher's order.
\<close>

definition time_match_here :: "string \<Rightarrow> (string \<times> string \<times> string option) list" where
  "time_match_here s =
     concat (map (\<lambda>(m1, r1).
        (case r1 of
           [] \<Rightarrow> []
         | c # r \<Rightarrow>
             if c = CHR '':''
             then concat (map (\<lambda>(m2, r2). map (\<lambda>m4. (m1, m2, m4)) (seconds_alts r2))
                            (opt_digit_alts ''012345'' r))
             else []))
       (opt_digit_alts ''012'' s))"

text \<open>\<^verbatim>\<open>text.match(...)\<close>: the first way to match at the leftmost position that has one.\<close>

fun time_match :: "string \<Rightarrow> (string \<times> string \<times> string option) option" where
  "time_match s =
     (case time_match_here s of
        x # _ \<Rightarrow> Some x
      | [] \<Rightarrow> (case s of [] \<Rightarrow> None | _ # t \<Rightarrow> time_match t))"

declare time_match.simps [simp del]

text \<open>
  \<^verbatim>\<open>/(19|20\d\d)(0[1-9]|1[012])(0[1-9]|[12][0-9]|3[01])/\<close>: for each group the rests
  of the input after its alternatives.
\<close>

definition date_year :: "string \<Rightarrow> string list" where
  "date_year s =
     (case s of
        c1 # c2 # r \<Rightarrow>
          (if c1 = CHR ''1'' \<and> c2 = CHR ''9'' then [r] else []) @
          (if c1 = CHR ''2'' \<and> c2 = CHR ''0''
           then (case r of d1 # d2 # r' \<Rightarrow> (if is_digit d1 \<and> is_digit d2 then [r'] else [])
                 | _ \<Rightarrow> [])
           else [])
      | _ \<Rightarrow> [])"

definition date_month :: "string \<Rightarrow> string list" where
  "date_month s =
     (case s of
        c1 # c2 # r \<Rightarrow>
          (if c1 = CHR ''0'' \<and> c2 \<in> set ''123456789'' then [r] else []) @
          (if c1 = CHR ''1'' \<and> c2 \<in> set ''012'' then [r] else [])
      | _ \<Rightarrow> [])"

definition date_day :: "string \<Rightarrow> string list" where
  "date_day s =
     (case s of
        c1 # c2 # r \<Rightarrow>
          (if c1 = CHR ''0'' \<and> c2 \<in> set ''123456789'' then [r] else []) @
          (if c1 \<in> set ''12'' \<and> is_digit c2 then [r] else []) @
          (if c1 = CHR ''3'' \<and> c2 \<in> set ''01'' then [r] else [])
      | _ \<Rightarrow> [])"

definition date_match_here :: "string \<Rightarrow> bool" where
  "date_match_here s = (concat (map date_day (concat (map date_month (date_year s)))) \<noteq> [])"

fun date_match :: "string \<Rightarrow> bool" where
  "date_match s = (date_match_here s \<or> (case s of [] \<Rightarrow> False | _ # t \<Rightarrow> date_match t))"

declare date_match.simps [simp del]

section \<open>Date and time formatting\<close>

definition leadingZero :: "int \<Rightarrow> string" where
  "leadingZero digit = (if digit < 10 then ''0'' @ num_to_str digit else '''' @ num_to_str digit)"

text \<open>The operator \<^verbatim>\<open>%\<close> on integers with a positive divisor: the remainder has the
  sign of the dividend.\<close>

definition js_rem :: "int \<Rightarrow> int \<Rightarrow> int" where
  "js_rem a b = (if a < 0 then - ((- a) mod b) else a mod b)"

text \<open>\<open>formatTime\<close> on a whole number of seconds since midnight; \<^verbatim>\<open>Math.floor\<close> of a
  quotient is \<open>div\<close>.\<close>

definition formatTime :: "bool \<Rightarrow> int \<Rightarrow> string" where
  "formatTime twelveHourTime secSinceMidnight =
     (let hours = secSinceMidnight div 3600;
          suffix = (if twelveHourTime
                    then (if hours \<ge> 12 then ''p'' else ''a'') @
                         (if hours \<ge> 24 then '' next day'' else [])
                    else []);
          hours = (if twelveHourTime
                   then (if js_rem hours 12 = 0 then 12 else js_rem hours 12)
                   else hours);
          minutes = js_rem (secSinceMidnight div 60) 60;
          seconds = js_rem secSinceMidnight 60
      in if seconds = 0
         then num_to_str hours @ '':'' @ leadingZero minutes @ suffix
         else num_to_str hours @ '':'' @ leadingZero minutes @ '':'' @ leadingZero seconds @ suffix)"

definition maybeAddLeadingZero :: "int \<Rightarrow> jsval" where
  "maybeAddLeadingZero number =
     (if number > 10 then JNum number else js_add (JStr ''0'') (JNum number))"

text \<open>The text \<open>setStartDate\<close> stores in the start-date input.\<close>

definition startDateValue :: "jsval \<Rightarrow> int \<Rightarrow> int \<Rightarrow> string" where
  "startDateValue y m d =
     to_str (js_add (js_add y (maybeAddLeadingZero m)) (maybeAddLeadingZero d))"

section \<open>The route list of the document\<close>

text \<open>
  The script creates elements only below the \<^verbatim>\<open>routeList\<close> element, so that subtree is
  a tree of nodes; the other elements it touches are static and appear as fields of the
  state. Texts that contain \<^verbatim>\<open>countToRepeatedDots(count)\<close> keep that call symbolic
  (its length is computed in floating point). A click listener is the closure
  \<^verbatim>\<open>makeClosure(selectRoute, routeId)\<close> or \<^verbatim>\<open>makeClosure(selectTrip, tripId)\<close>.
  The static part of the page and the markup assigned to \<^verbatim>\<open>innerHTML\<close> are taken to
  hold no element whose id is \<^verbatim>\<open>tripInfo\<close> or starts with \<^verbatim>\<open>route_\<close> or
  \<^verbatim>\<open>trip_\<close>, so \<^verbatim>\<open>document.getElementById\<close> on these ids searches the route list,
  in document order.
\<close>

datatype handler = SelectRoute string | SelectTrip string

datatype part = Lit string | RepeatedDots int

datatype node =
    TextNode "part list"
  | Element (tag: string) (el_id: string) (className: string) (title: string)
            (listeners: "handler list") (children: "node list")

fun has_id :: "string \<Rightarrow> node \<Rightarrow> bool" where
  "has_id i (TextNode t) = False"
| "has_id i (Element tg idd cls ttl hs cs) = (idd = i)"

text \<open>An assignment through the reference \<^verbatim>\<open>document.getElementById(i)\<close> returned:
  the first element with the id, in document order, is replaced by its image; \<open>None\<close>
  when there is none and the reference is null.\<close>

fun update_by_id :: "string \<Rightarrow> (node \<Rightarrow> node) \<Rightarrow> node \<Rightarrow> node option"
  and update_by_id_list :: "string \<Rightarrow> (node \<Rightarrow> node) \<Rightarrow> node list \<Rightarrow> node list option" where
  "update_by_id i f (TextNode t) = None"
| "update_by_id i f (Element tg idd cls ttl hs cs) =
     (if idd = i then Some (f (Element tg idd cls ttl hs cs))
      else map_option (Element tg idd cls ttl hs) (update_by_id_list i f cs))"
| "update_by_id_list i f [] = None"
| "update_by_id_list i f (n # ns) =
     (case update_by_id i f n of
        Some n' \<Rightarrow> Some (n' # ns)
      | None \<Rightarrow> map_option ((#) n) (update_by_id_list i f ns))"

text \<open>\<^verbatim>\<open>x.parentNode.removeChild(x)\<close> for the first element \<open>x\<close> with the id.\<close>

fun remove_by_id :: "string \<Rightarrow> node \<Rightarrow> node option"
  and remove_by_id_list :: "string \<Rightarrow> node list \<Rightarrow> node list option" where
  "remove_by_id i (TextNode t) = None"
| "remove_by_id i (Element tg idd cls ttl hs cs) =
     map_option (Element tg idd cls ttl hs) (remove_by_id_list i cs)"
| "remove_by_id_list i [] = None"
| "remove_by_id_list i (n # ns) =
     (if has_id i n then Some ns
      else (case remove_by_id i n of
              Some n' \<Rightarrow> Some (n' # ns)
            | None \<Rightarrow> map_option ((#) n) (remove_by_id_list i ns)))"

text \<open>
  A loop over \<^verbatim>\<open>x.getElementsByTagName(t)\<close> that assigns \<^verbatim>\<open>className\<close>: every
  descendant element with the tag that passes the test gets the new class name.
\<close>

fun set_class_below :: "string \<Rightarrow> (string \<Rightarrow> bool) \<Rightarrow> string \<Rightarrow> node \<Rightarrow> node" where
  "set_class_below tg P c (TextNode t) = TextNode t"
| "set_class_below tg P c (Element tg' idd cls ttl hs cs) =
     Element tg' idd (if tg' = tg \<and> P cls then c else cls) ttl hs
       (map (set_class_below tg P c) cs)"

fun set_class_descendants :: "string \<Rightarrow> (string \<Rightarrow> bool) \<Rightarrow> string \<Rightarrow> node \<Rightarrow> node" where
  "set_class_descendants tg P c (TextNode t) = TextNode t"
| "set_class_descendants tg P c (Element tg' idd cls ttl hs cs) =
     Element tg' idd cls ttl hs (map (set_class_below tg P c) cs)"

fun set_className :: "string \<Rightarrow> node \<Rightarrow> node" where
  "set_className c (TextNode t) = TextNode t"
| "set_className c (Element tg idd cls ttl hs cs) = Element tg idd c ttl hs cs"

fun appendChild :: "node \<Rightarrow> node \<Rightarrow> node" where
  "appendChild x (TextNode t) = TextNode t"
| "appendChild x (Element tg idd cls ttl hs cs) = Element tg idd cls ttl hs (cs @ [x])"

section \<open>The state of the page\<close>

type_synonym latlng = "string \<times> string"

record bounds =
  northEast :: latlng
  southWest :: latlng

text \<open>The argument of \<^verbatim>\<open>map.fitBounds\<close>: the configured box, or \<^verbatim>\<open>boundsOfPolyLine\<close>,
  a \<^verbatim>\<open>LatLngBounds\<close> given by the points it was made of and extended with, or null.\<close>

datatype fit_arg = FitBox bounds | FitPoints "latlng list option"

text \<open>
  A stop marker: a \<^verbatim>\<open>MarkerWithLabel\<close> when it has a label, a plain marker otherwise.
  \<open>mk_onMap\<close> tells whether the marker is on the map; \<^verbatim>\<open>setMap(null)\<close> clears it.
  \<^verbatim>\<open>getText\<close> and \<^verbatim>\<open>setText\<close> of the marker library are taken to read and write the
  label of a labelled marker; a plain marker has neither.
\<close>

record marker =
  mk_stopId :: string
  mk_stopName :: string
  mk_position :: latlng
  mk_icon :: "string option"
  mk_draggable :: bool
  mk_label :: "string option"
  mk_onMap :: bool

record polyline =
  pl_path :: "latlng list"
  pl_strokeColor :: string
  pl_onMap :: bool

text \<open>The callback handed to \<open>downloadUrl\<close>; a closure carries what it captured.\<close>

datatype callback =
    CallbackDisplayStops
  | CallbackDisplayStopsBackground
  | CallbackStopLocationChanged
  | CallbackDataSaved
  | CallbackDisplayStopInfoWindow nat
  | CallbackDisplayRoutes
  | CallbackDisplayPatterns
  | CallbackDisplayTripStopTimes
  | CallbackDisplayTripPolyLine
  | CallbackDisplayTripRows string

text \<open>
  An \<^verbatim>\<open>XMLHttpRequest\<close>. \<open>xhr_timeout\<close> is its \<^verbatim>\<open>timeout\<close> property, 0 (no timeout)
  unless assigned; \<open>xhr_aborted\<close> tells whether \<^verbatim>\<open>abort()\<close> was called on it.
\<close>

record xhr =
  xhr_method :: string
  xhr_url :: string
  xhr_async :: bool
  xhr_callback :: callback
  xhr_sent :: bool
  xhr_timeout :: nat
  xhr_aborted :: bool

text \<open>
  A response text, given by what the callbacks obtain from it: the rows it evaluates to,
  or the text itself. The rows are indexed by position:
  a stop is \<^verbatim>\<open>[stopId, stopName, lat, lon, locationType]\<close>;
  a departure is \<^verbatim>\<open>[time, [tripid, tripname, service_id], timepoint]\<close>;
  a route is \<^verbatim>\<open>[routeId, shortName, routeName]\<close>;
  a pattern is \<^verbatim>\<open>[patName, patId, early, [[time, tripId], ...], later, unusual]\<close>;
  the stop times of a trip are \<^verbatim>\<open>[stops, arrivalTimes, departureTimes]\<close> or null, the
  time lists may be null and hold null for a missing time; the shape of a trip is an object
  with \<^verbatim>\<open>points\<close> and an optional \<^verbatim>\<open>color\<close>, or null; the rows of a trip are
  \<^verbatim>\<open>[filename, row]\<close> with \<^verbatim>\<open>row\<close> a dictionary, or null. Ids are given by
  their string form, the form in which the script uses them as keys, in element ids and in
  URLs; a null trip id is the text \<^verbatim>\<open>null\<close>.
\<close>

type_synonym stop_row = "string \<times> string \<times> string \<times> string \<times> int"

datatype response_data =
    Text string
  | Stops "stop_row list"
  | TimeTrips "(int \<times> (string \<times> string \<times> string) \<times> bool) list"
  | Routes "(string \<times> string \<times> string) list"
  | Patterns "(string \<times> string \<times> int \<times> (int \<times> string) list \<times> int \<times> bool) list"
  | StopsTimes "(stop_row list \<times> int option list option \<times> int option list option) option"
  | PolyData "(latlng list \<times> string option) option"
  | TripRows "(string \<times> (string \<times> string) list) list option"

text \<open>What \<^verbatim>\<open>innerHTML\<close> of the status element was last assigned.\<close>

datatype status_html = StatusLit string | StatusData response_data | StatusUnescaped response_data

datatype console_entry = ConsoleLog string | ConsoleError int

record state =
  map_obj :: "fit_arg option"
  infoWindow_content :: string
  infoWindow_anchor :: "nat option"
  log_flag :: bool
  twelveHourTime :: bool
  selectedRoute :: "string option"
  forbid_editing :: bool
  iconSelected :: "string option"
  iconBackground :: "string option"
  iconBackgroundStation :: "string option"
  stopMarkersSelected :: "(string \<times> nat) list"
  stopMarkersBackground :: "(string \<times> nat) list"
  existingPolylines :: "nat list"
  boundsOfPolyLine :: "latlng list option"
  markers :: "marker list"
  polylines :: "polyline list"
  stopTextSearchInput :: string
  tripTextSearchInput :: string
  timeInput :: string
  startDateInput :: string
  edit_visibility :: string
  edit_status :: status_html
  routeList :: "node list"
  bottombar_display :: string
  bottombar_height :: string
  bottombar_innerHTML :: string
  content_resized :: nat
  xhrs :: "xhr list"
  console :: "console_entry list"
  userAgent :: string
  svgControlInstalled :: bool

text \<open>
  The fields of the state: the global variables of the script in the order of their
  declarations (\<open>map_obj\<close> is \<^verbatim>\<open>map\<close>, \<open>None\<close> until \<open>load\<close> has created it, with the
  last argument of \<^verbatim>\<open>fitBounds\<close>; \<open>log_flag\<close> is \<^verbatim>\<open>log\<close>); the objects the script has
  created, \<open>markers\<close> and \<open>polylines\<close>; the elements of the page it reads and writes;
  the requests it has sent and the console; and what it reads of the browser. A marker, a
  polyline or a request is referred to by its index, which stands for the reference to the
  object. The marker tables are JavaScript objects used as dictionaries, kept as
  association lists in insertion order; stop ids are taken not to be names of members of
  \<^verbatim>\<open>Object.prototype\<close>. \<open>content_resized\<close> counts the runs of \<open>sizeRouteList\<close>, which
  assigns the height of the content element from layout measurements. The undeclared
  variables \<^verbatim>\<open>url\<close>, \<^verbatim>\<open>i\<close>, \<^verbatim>\<open>j\<close>, \<^verbatim>\<open>oldText\<close>, \<^verbatim>\<open>label\<close>, \<^verbatim>\<open>route\<close>, \<^verbatim>\<open>routeSpans\<close>
  and \<^verbatim>\<open>tripSpans\<close> are assigned before every use inside one call and are left out, and
  so is \<^verbatim>\<open>patternDiv\<close>, which is read only in the statement of
  \<open>callbackDisplayRoutes\<close> that fails. The script declares no variable \<^verbatim>\<open>second\<close> or
  \<^verbatim>\<open>div\<close> in global scope, so reading either raises a ReferenceError.
\<close>

type_synonym 'a outcome = "(js_error + 'a) \<times> state"

section \<open>The script\<close>

record config =
  cfg_forbid_editing :: bool
  cfg_bounds :: bounds

definition sizeRouteList :: "state \<Rightarrow> state" where
  "sizeRouteList s = s\<lparr>content_resized := Suc (content_resized s)\<rparr>"

definition downloadUrl :: "string \<Rightarrow> callback \<Rightarrow> state \<Rightarrow> state" where
  "downloadUrl url callback s =
     (let s1 = (if log_flag s then s\<lparr>console := console s @ [ConsoleLog url]\<rparr> else s)
      in s1\<lparr>xhrs := xhrs s1 @
           [\<lparr>xhr_method = ''GET'', xhr_url = url, xhr_async = True, xhr_callback = callback,
             xhr_sent = True, xhr_timeout = 0, xhr_aborted = False\<rparr>]\<rparr>)"

text \<open>The \<^verbatim>\<open>onerror\<close> handler \<open>downloadUrl\<close> installs on request \<open>i\<close>.\<close>

definition xhr_onerror :: "nat \<Rightarrow> int \<Rightarrow> state \<Rightarrow> state" where
  "xhr_onerror i status s = s\<lparr>console := console s @ [ConsoleError status]\<rparr>"

definition fetchStopsInBounds :: "bounds \<Rightarrow> state \<Rightarrow> state" where
  "fetchStopsInBounds b s =
     downloadUrl (''/json/boundboxstops?n='' @ fst (northEast b)
                  @ ''&e='' @ snd (northEast b)
                  @ ''&s='' @ fst (southWest b)
                  @ ''&w='' @ snd (southWest b)
                  @ ''&limit=50'') CallbackDisplayStopsBackground s"

definition callbackZoomEnd :: "state \<Rightarrow> state" where
  "callbackZoomEnd s = s"

text \<open>\<open>callbackMoveEnd\<close>, with what \<^verbatim>\<open>map.getBounds()\<close> returns.\<close>

definition callbackMoveEnd :: "bounds \<Rightarrow> state \<Rightarrow> state" where
  "callbackMoveEnd mapBounds s = fetchStopsInBounds mapBounds s"

definition hide_markers :: "nat list \<Rightarrow> marker list \<Rightarrow> marker list" where
  "hide_markers rs ms = foldl (\<lambda>ms r. ms[r := (ms ! r)\<lparr>mk_onMap := False\<rparr>]) ms rs"

definition hide_polylines :: "nat list \<Rightarrow> polyline list \<Rightarrow> polyline list" where
  "hide_polylines rs ps = foldl (\<lambda>ps r. ps[r := (ps ! r)\<lparr>pl_onMap := False\<rparr>]) ps rs"

definition clearMap :: "state \<Rightarrow> state" where
  "clearMap s =
     (let s1 = s\<lparr>boundsOfPolyLine := None\<rparr>;
          s2 = s1\<lparr>markers := hide_markers (map snd (stopMarkersSelected s1)) (markers s1)\<rparr>;
          s3 = s2\<lparr>markers := hide_markers (map snd (stopMarkersBackground s2)) (markers s2)\<rparr>;
          s4 = s3\<lparr>polylines := hide_polylines (existingPolylines s3) (polylines s3)\<rparr>
      in s4\<lparr>stopMarkersSelected := [], stopMarkersBackground := [], existingPolylines := []\<rparr>)"

text \<open>An icon is given by its image; size and anchor are the same for all.\<close>

definition makeStopIcon :: "string \<Rightarrow> string" where
  "makeStopIcon imgUrl = imgUrl"

definition initIcons :: "state \<Rightarrow> state" where
  "initIcons s =
     s\<lparr>iconSelected := Some (makeStopIcon ''/file/mm_20_yellow.png''),
       iconBackground := Some (makeStopIcon ''/file/mm_20_blue_trans.png''),
       iconBackgroundStation := Some (makeStopIcon ''/file/mm_20_red_trans.png'')\<rparr>"

text \<open>
  The second half of \<open>addStopMarker\<close>, from \<^verbatim>\<open>var icon\<close> on: a new marker is created
  on the map and recorded in one of the two tables.
\<close>

definition addStopMarker_new ::
  "string \<Rightarrow> string \<Rightarrow> string \<Rightarrow> string \<Rightarrow> int \<Rightarrow> bool \<Rightarrow> string option \<Rightarrow> state \<Rightarrow> nat \<times> state" where
  "addStopMarker_new stopId stopName stopLat stopLon locationType selected text s =
     (let icon = (if selected then iconSelected s
                  else if locationType = 1 then iconBackgroundStation s
                  else iconBackground s);
          marker = \<lparr>mk_stopId = stopId, mk_stopName = stopName,
                    mk_position = (stopLat, stopLon), mk_icon = icon,
                    mk_draggable = (\<not> forbid_editing s),
                    mk_label = (if selected \<or> truthy_text text
                                then Some (if truthy_text text then the text else [])
                                else None),
                    mk_onMap = (map_obj s \<noteq> None)\<rparr>;
          r = length (markers s);
          s1 = s\<lparr>markers := markers s @ [marker]\<rparr>;
          s2 = (if selected
                then s1\<lparr>stopMarkersSelected := AList.update stopId r (stopMarkersSelected s1)\<rparr>
                else s1\<lparr>stopMarkersBackground := AList.update stopId r (stopMarkersBackground s1)\<rparr>)
      in (r, s2))"

definition addStopMarker ::
  "string \<Rightarrow> string \<Rightarrow> string \<Rightarrow> string \<Rightarrow> int \<Rightarrow> bool \<Rightarrow> string option \<Rightarrow> state \<Rightarrow> nat outcome" where
  "addStopMarker stopId stopName stopLat stopLon locationType selected text s =
     (case map_of (stopMarkersSelected s) stopId of
        Some marker \<Rightarrow>
          (if truthy_text text
           then (case mk_label (markers s ! marker) of
                   None \<Rightarrow> (Inl TypeError, s)
                 | Some oldText \<Rightarrow>
                     (let oldText = (if oldText \<noteq> [] then oldText @ ''<br>'' else oldText)
                      in (Inr marker,
                          s\<lparr>markers := (markers s)
                               [marker := (markers s ! marker)\<lparr>mk_label := Some (oldText @ the text)\<rparr>]\<rparr>)))
           else (Inr marker, s))
      | None \<Rightarrow>
          (case map_of (stopMarkersBackground s) stopId of
             Some bg \<Rightarrow>
               (if selected
                then (let s1 = s\<lparr>markers := (markers s)[bg := (markers s ! bg)\<lparr>mk_onMap := False\<rparr>]\<rparr>;
                          s2 = s1\<lparr>stopMarkersBackground := AList.delete stopId (stopMarkersBackground s1)\<rparr>;
                          (r, s3) = addStopMarker_new stopId stopName stopLat stopLon locationType selected text s2
                      in (Inr r, s3))
                else (Inr bg, s))
           | None \<Rightarrow>
               (let (r, s1) = addStopMarker_new stopId stopName stopLat stopLon locationType selected text s
                in (Inr r, s1))))"

definition addStopMarkerFromList :: "stop_row \<Rightarrow> bool \<Rightarrow> string option \<Rightarrow> state \<Rightarrow> nat outcome" where
  "addStopMarkerFromList list selected text s =
     (case list of (l0, l1, l2, l3, l4) \<Rightarrow> addStopMarker l0 l1 l2 l3 l4 selected text s)"

definition changeStopLocation :: "nat \<Rightarrow> state \<Rightarrow> state" where
  "changeStopLocation marker s =
     downloadUrl (''/json/setstoplocation?id='' @
                  encodeURIComponent (mk_stopId (markers s ! marker)) @
                  ''&lat='' @ encodeURIComponent (fst (mk_position (markers s ! marker))) @
                  ''&lng='' @ encodeURIComponent (snd (mk_position (markers s ! marker))))
       CallbackStopLocationChanged s"

text \<open>The function \<open>changeStopLocation\<close> hands to \<open>downloadUrl\<close>.\<close>

definition callbackStopLocationChanged :: "response_data \<Rightarrow> int \<Rightarrow> state \<Rightarrow> state" where
  "callbackStopLocationChanged data responseCode s = s\<lparr>edit_status := StatusUnescaped data\<rparr>"

definition saveData :: "state \<Rightarrow> state" where
  "saveData s = downloadUrl ''/json/savedata'' CallbackDataSaved s"

text \<open>The function \<open>saveData\<close> hands to \<open>downloadUrl\<close>.\<close>

definition callbackDataSaved :: "response_data \<Rightarrow> int \<Rightarrow> state \<Rightarrow> state" where
  "callbackDataSaved data responseCode s = s\<lparr>edit_status := StatusData data\<rparr>"

definition parseTimeInput :: "state \<Rightarrow> jsval outcome" where
  "parseTimeInput s =
     (let text = timeInput s
      in case time_match text of
           Some (m1, m2, m4) \<Rightarrow>
             (let seconds = parseInt10 m1 * 3600;
                  seconds = seconds + parseInt10 m2 * 60
              in if (case m4 of None \<Rightarrow> False | Some x \<Rightarrow> x \<noteq> [])
                 then (Inl ReferenceError, s)
                 else (Inr (JNum seconds), s))
         | None \<Rightarrow>
             (Inr (JStr []),
              if log_flag s
              then s\<lparr>console := console s @ [ConsoleLog (''Couldn't match '' @ text @ '' to time'')]\<rparr>
              else s))"

definition parseDateInput :: "state \<Rightarrow> string \<times> state" where
  "parseDateInput s =
     (let text = startDateInput s
      in if date_match text then (text, s)
         else ([],
               if log_flag s
               then s\<lparr>console := console s @ [ConsoleLog (''Couldn't match '' @ text @ '' to date'')]\<rparr>
               else s))"

definition fetchStopInfoWindow :: "nat \<Rightarrow> state \<Rightarrow> unit outcome" where
  "fetchStopInfoWindow marker s =
     (case parseTimeInput s of
        (Inl e, s1) \<Rightarrow> (Inl e, s1)
      | (Inr t, s1) \<Rightarrow>
          (let (d, s2) = parseDateInput s1;
               url = ''/json/stoptrips?stop='' @ encodeURIComponent (mk_stopId (markers s ! marker)) @
                     ''&time='' @ to_str t @ ''&date='' @ d
           in (Inr (), downloadUrl url (CallbackDisplayStopInfoWindow marker) s2)))"

text \<open>The loop of \<open>callbackDisplayStops\<close> over more or fewer than one stop.\<close>

fun addStopMarkers_selected :: "stop_row list \<Rightarrow> state \<Rightarrow> unit outcome" where
  "addStopMarkers_selected [] s = (Inr (), s)"
| "addStopMarkers_selected (stop # stops) s =
     (case addStopMarkerFromList stop True None s of
        (Inl e, s1) \<Rightarrow> (Inl e, s1)
      | (Inr marker, s1) \<Rightarrow> addStopMarkers_selected stops s1)"

definition callbackDisplayStops :: "response_data \<Rightarrow> int \<Rightarrow> state \<Rightarrow> unit outcome" where
  "callbackDisplayStops data responseCode s =
     (if responseCode \<noteq> 200 then (Inr (), s)
      else (let s1 = clearMap s
            in case data of
                 Stops stops \<Rightarrow>
                   (if length stops = 1
                    then (case addStopMarkerFromList (stops ! 0) True None s1 of
                            (Inl e, s2) \<Rightarrow> (Inl e, s2)
                          | (Inr marker, s2) \<Rightarrow> fetchStopInfoWindow marker s2)
                    else addStopMarkers_selected stops s1)
               | _ \<Rightarrow> (Inl UnexpectedResponse, s1)))"

definition stopTextSearchSubmit :: "state \<Rightarrow> state" where
  "stopTextSearchSubmit s =
     (let text = stopTextSearchInput s;
          url = ''/json/stopsearch?q='' @ text
      in downloadUrl url CallbackDisplayStops s)"

text \<open>
  The second loop of \<open>callbackDisplayStopsBackground\<close>: each stop of the response is
  added as a background stop and its entry leaves \<^verbatim>\<open>oldStopMarkers\<close>.
\<close>

fun addStopMarkers_background ::
  "stop_row list \<Rightarrow> (string \<times> nat) list \<Rightarrow> state \<Rightarrow> (string \<times> nat) list outcome" where
  "addStopMarkers_background [] oldStopMarkers s = (Inr oldStopMarkers, s)"
| "addStopMarkers_background (stop # stops) oldStopMarkers s =
     (case addStopMarkerFromList stop False None s of
        (Inl e, s1) \<Rightarrow> (Inl e, s1)
      | (Inr marker, s1) \<Rightarrow>
          addStopMarkers_background stops
            (if map_of oldStopMarkers (mk_stopId (markers s1 ! marker)) \<noteq> None
             then AList.delete (mk_stopId (markers s1 ! marker)) oldStopMarkers
             else oldStopMarkers) s1)"

definition callbackDisplayStopsBackground :: "response_data \<Rightarrow> int \<Rightarrow> state \<Rightarrow> unit outcome" where
  "callbackDisplayStopsBackground data responseCode s =
     (if responseCode \<noteq> 200 then (Inr (), s)
      else (case data of
              Stops stops \<Rightarrow>
                (case addStopMarkers_background stops (stopMarkersBackground s) s of
                   (Inl e, s1) \<Rightarrow> (Inl e, s1)
                 | (Inr oldStopMarkers, s1) \<Rightarrow>
                     (Inr (), s1\<lparr>markers := hide_markers (map snd oldStopMarkers) (markers s1)\<rparr>))
            | _ \<Rightarrow> (Inl UnexpectedResponse, s)))"

definition sq :: string where "sq = [CHR 0x27]"

definition dq :: string where "dq = [CHR 0x22]"

definition callbackDisplayStopInfoWindow ::
  "nat \<Rightarrow> response_data \<Rightarrow> int \<Rightarrow> state \<Rightarrow> unit outcome" where
  "callbackDisplayStopInfoWindow marker data responseCode s =
     (if responseCode \<noteq> 200 then (Inr (), s)
      else (case data of
              TimeTrips timeTrips \<Rightarrow>
                (let m = markers s ! marker;
                     html = ''<b>'' @ mk_stopName m @ ''</b> ('' @ mk_stopId m @ '')<br>'';
                     html = html @ ''('' @ fst (mk_position m) @ '', '' @ snd (mk_position m) @ '')<br>'';
                     html = html @ ''<table><tr><th>service_id<th>time<th>name</tr>'';
                     html = foldl (\<lambda>html (time, (tripid, tripname, service_id), timepoint).
                              html @ ''<tr onClick='' @ sq @ ''map.closeInfoWindow();selectTrip('' @ dq @
                              tripid @ dq @ '')'' @ sq @ ''>'' @
                              ''<td>'' @ service_id @
                              ''<td align='' @ sq @ ''right'' @ sq @ ''>'' @ (if timepoint then [] else ''~'') @
                              formatTime (twelveHourTime s) time @ ''<td>'' @ tripname @ ''</tr>'')
                            html timeTrips;
                     html = html @ ''</table>''
                 in (Inr (), s\<lparr>infoWindow_content := html, infoWindow_anchor := Some marker\<rparr>))
            | _ \<Rightarrow> (Inl UnexpectedResponse, s)))"

definition fetchRoutes :: "state \<Rightarrow> state" where
  "fetchRoutes s = downloadUrl ''/json/routes'' CallbackDisplayRoutes s"

definition routeContainer :: "string \<times> string \<times> string \<Rightarrow> node" where
  "routeContainer route =
     (case route of (routeId, shortNameText, routeName) \<Rightarrow>
        (let shortName = Element ''span'' [] ''shortName'' [] [] [TextNode [Lit (shortNameText @ '' '')]];
             elem = Element ''div'' (''route_'' @ routeId) ''routeChoice'' routeName
                      [SelectRoute routeId] [shortName, TextNode [Lit routeName]]
         in Element ''div'' (''route_container_'' @ routeId) ''routeContainer'' [] [] [elem]))"

text \<open>
  With a response code other than 200 \<open>callbackDisplayRoutes\<close> evaluates
  \<^verbatim>\<open>patternDiv.appendChild(div)\<close>, where \<^verbatim>\<open>div\<close> is not declared.
\<close>

definition callbackDisplayRoutes :: "response_data \<Rightarrow> int \<Rightarrow> state \<Rightarrow> unit outcome" where
  "callbackDisplayRoutes data responseCode s =
     (if responseCode \<noteq> 200 then (Inl ReferenceError, s)
      else (case data of
              Routes routes \<Rightarrow> (Inr (), s\<lparr>routeList := [] @ map routeContainer routes\<rparr>)
            | _ \<Rightarrow> (Inl UnexpectedResponse, s)))"

definition fetchPatterns :: "string \<Rightarrow> state \<Rightarrow> unit outcome" where
  "fetchPatterns routeId s =
     (case parseTimeInput s of
        (Inl e, s1) \<Rightarrow> (Inl e, s1)
      | (Inr t, s1) \<Rightarrow>
          (let (d, s2) = parseDateInput s1;
               url = ''/json/routepatterns?route='' @ encodeURIComponent routeId @
                     ''&time='' @ to_str t @ ''&date='' @ d
           in (Inr (), downloadUrl url CallbackDisplayPatterns s2)))"

definition selectRoute :: "string \<Rightarrow> state \<Rightarrow> unit outcome" where
  "selectRoute routeId s =
     (let s1 = s\<lparr>routeList :=
                  map (set_class_below ''div'' (\<lambda>c. c = ''routeChoiceSelected'') ''routeChoice'')
                    (routeList s)\<rparr>;
          s2 = (case remove_by_id_list ''tripInfo'' (routeList s1) of
                  Some ns \<Rightarrow> s1\<lparr>routeList := ns\<rparr>
                | None \<Rightarrow> s1);
          s3 = s2\<lparr>selectedRoute := Some routeId\<rparr>
      in case update_by_id_list (''route_'' @ routeId) (set_className ''routeChoiceSelected'')
                (routeList s3) of
           None \<Rightarrow> (Inl TypeError, s3)
         | Some ns \<Rightarrow> fetchPatterns routeId (s3\<lparr>routeList := ns\<rparr>))"

definition fetchTripPolyLine :: "string \<Rightarrow> state \<Rightarrow> state" where
  "fetchTripPolyLine tripId s =
     downloadUrl (''/json/tripshape?trip='' @ encodeURIComponent tripId) CallbackDisplayTripPolyLine s"

definition fetchTripRows :: "string \<Rightarrow> state \<Rightarrow> state" where
  "fetchTripRows tripId s =
     downloadUrl (''/json/triprows?trip='' @ encodeURIComponent tripId) (CallbackDisplayTripRows tripId) s"

text \<open>A trip id that is null reaches \<open>selectTrip\<close> as ''null'', the text every use of
  the id there turns it into.\<close>

definition selectTrip :: "string \<Rightarrow> state \<Rightarrow> state" where
  "selectTrip tripId s =
     (let s1 = (case update_by_id_list ''tripInfo''
                       (set_class_descendants ''span'' (\<lambda>c. True) ''tripChoice'') (routeList s) of
                  Some ns \<Rightarrow> s\<lparr>routeList := ns\<rparr>
                | None \<Rightarrow> s);
          s2 = (case update_by_id_list (''trip_'' @ tripId) (set_className ''tripChoiceSelected'')
                       (routeList s1) of
                  Some ns \<Rightarrow> s1\<lparr>routeList := ns\<rparr>
                | None \<Rightarrow> s1);
          s3 = clearMap s2;
          s4 = downloadUrl (''/json/tripstoptimes?trip='' @ encodeURIComponent tripId)
                 CallbackDisplayTripStopTimes s3;
          s5 = fetchTripPolyLine tripId s4
      in fetchTripRows tripId s5)"

definition tripTextSearchSubmit :: "state \<Rightarrow> state" where
  "tripTextSearchSubmit s = (let text = tripTextSearchInput s in selectTrip text s)"

definition patternSection ::
  "bool \<Rightarrow> string \<times> string \<times> int \<times> (int \<times> string) list \<times> int \<times> bool \<Rightarrow> node" where
  "patternSection twelve pat =
     (case pat of (patName, patId, early, trips, later, unusual) \<Rightarrow>
        Element ''div'' []
          (if unusual then ''patternSection'' @ '' unusualPattern'' else ''patternSection'') [] []
          ([TextNode [Lit patName],
            TextNode [Lit ('', '' @ num_to_str (early + int (length trips) + later) @ '' trips: '')]] @
           (if early > 0 then [TextNode [RepeatedDots early, Lit '' '']] else []) @
           concat (map (\<lambda>(time, tripId).
                      [TextNode [Lit '' ''],
                       Element ''span'' (''trip_'' @ tripId) ''tripChoice'' [] [SelectTrip tripId]
                         [TextNode [Lit (formatTime twelve time)]]]) trips) @
           (if later > 0 then [TextNode [Lit '' '', RepeatedDots later]] else []) @
           [Element ''br'' [] [] [] [] []]))"

definition callbackDisplayPatterns :: "response_data \<Rightarrow> int \<Rightarrow> state \<Rightarrow> unit outcome" where
  "callbackDisplayPatterns data responseCode s =
     (if responseCode \<noteq> 200 then (Inr (), s)
      else (case data of
              Patterns patterns \<Rightarrow>
                (let s1 = clearMap s;
                     tripInfoDiv = Element ''div'' ''tripInfo'' ''tripSection'' [] []
                             (map (patternSection (twelveHourTime s1)) patterns);
                     firstTrip = (case patterns of
                                    (_, _, _, (_, tripId) # _, _, _) # _ \<Rightarrow> tripId
                                  | _ \<Rightarrow> ''null'');
                     tripIdAssigned = list_ex (\<lambda>pat. fst (snd (snd (snd pat))) \<noteq> []) patterns
                 in case update_by_id_list
                           (''route_container_'' @ (case selectedRoute s1 of None \<Rightarrow> ''null'' | Some r \<Rightarrow> r))
                           (appendChild tripInfoDiv) (routeList s1) of
                      None \<Rightarrow> (Inl TypeError, s1)
                    | Some ns \<Rightarrow>
                        (if tripIdAssigned then (Inr (), selectTrip firstTrip (s1\<lparr>routeList := ns\<rparr>))
                         else (Inr (), s1\<lparr>routeList := ns\<rparr>)))
            | _ \<Rightarrow> (Inl UnexpectedResponse, s)))"

definition expandBoundingBox :: "latlng \<Rightarrow> state \<Rightarrow> state" where
  "expandBoundingBox latLng s =
     (case boundsOfPolyLine s of
        None \<Rightarrow> s\<lparr>boundsOfPolyLine := Some [latLng]\<rparr>
      | Some pts \<Rightarrow> s\<lparr>boundsOfPolyLine := Some (pts @ [latLng])\<rparr>)"

text \<open>\<^verbatim>\<open>map.fitBounds(boundsOfPolyLine)\<close>; there is no map before \<open>load\<close>.\<close>

definition fitBoundsOfPolyLine :: "state \<Rightarrow> unit outcome" where
  "fitBoundsOfPolyLine s =
     (case map_obj s of
        None \<Rightarrow> (Inl TypeError, s)
      | Some _ \<Rightarrow> (Inr (), s\<lparr>map_obj := Some (FitPoints (boundsOfPolyLine s))\<rparr>))"

definition displayPolyLine :: "latlng list \<times> string option \<Rightarrow> state \<Rightarrow> unit outcome" where
  "displayPolyLine polyData s =
     (case polyData of (points, colorOpt) \<Rightarrow>
        (let s1 = foldl (\<lambda>s ll. expandBoundingBox ll s) s points;
             linePoints = points;
             color = (if truthy_text colorOpt then the colorOpt else ''#003399'');
             polyline = \<lparr>pl_path = linePoints, pl_strokeColor = color, pl_onMap = (map_obj s1 \<noteq> None)\<rparr>;
             r = length (polylines s1);
             s2 = s1\<lparr>polylines := polylines s1 @ [polyline]\<rparr>
         in case fitBoundsOfPolyLine s2 of
              (Inl e, s3) \<Rightarrow> (Inl e, s3)
            | (Inr _, s3) \<Rightarrow> (Inr (), s3\<lparr>existingPolylines := existingPolylines s3 @ [r]\<rparr>)))"

definition callbackDisplayTripPolyLine :: "response_data \<Rightarrow> int \<Rightarrow> state \<Rightarrow> unit outcome" where
  "callbackDisplayTripPolyLine data responseCode s =
     (if responseCode \<noteq> 200 then (Inr (), s)
      else (case data of
              PolyData None \<Rightarrow> (Inr (), s)
            | PolyData (Some polyData) \<Rightarrow> displayPolyLine polyData s
            | _ \<Rightarrow> (Inl UnexpectedResponse, s)))"

text \<open>\<^verbatim>\<open>times && times[i] != null\<close>, with the time when it holds.\<close>

definition time_at :: "int option list option \<Rightarrow> nat \<Rightarrow> int option" where
  "time_at timesOpt i =
     (case timesOpt of None \<Rightarrow> None | Some ts \<Rightarrow> if i < length ts then ts ! i else None)"

fun displayTripStopTimes_loop ::
  "stop_row list \<Rightarrow> nat \<Rightarrow> int option list option \<Rightarrow> int option list option \<Rightarrow> state \<Rightarrow> unit outcome" where
  "displayTripStopTimes_loop [] i arrivalTimes departureTimes s = (Inr (), s)"
| "displayTripStopTimes_loop (stop # stops) i arrivalTimes departureTimes s =
     (let text =
        (case time_at arrivalTimes i of
           Some a \<Rightarrow>
             Some (formatTime (twelveHourTime s) a @
                   (case time_at departureTimes i of
                      Some d \<Rightarrow> if a \<noteq> d then ''-'' @ formatTime (twelveHourTime s) d else []
                    | None \<Rightarrow> []))
         | None \<Rightarrow> None)
      in case addStopMarkerFromList stop True text s of
           (Inl e, s1) \<Rightarrow> (Inl e, s1)
         | (Inr marker, s1) \<Rightarrow>
             displayTripStopTimes_loop stops (Suc i) arrivalTimes departureTimes
               (expandBoundingBox (mk_position (markers s1 ! marker)) s1))"

definition displayTripStopTimes ::
  "stop_row list \<Rightarrow> int option list option \<Rightarrow> int option list option \<Rightarrow> state \<Rightarrow> unit outcome" where
  "displayTripStopTimes stops arrivalTimes departureTimes s =
     (case displayTripStopTimes_loop stops 0 arrivalTimes departureTimes s of
        (Inl e, s1) \<Rightarrow> (Inl e, s1)
      | (Inr _, s1) \<Rightarrow> fitBoundsOfPolyLine s1)"

definition callbackDisplayTripStopTimes :: "response_data \<Rightarrow> int \<Rightarrow> state \<Rightarrow> unit outcome" where
  "callbackDisplayTripStopTimes data responseCode s =
     (if responseCode \<noteq> 200 then (Inr (), s)
      else (case data of
              StopsTimes None \<Rightarrow> (Inr (), s)
            | StopsTimes (Some (stops, arrivalTimes, departureTimes)) \<Rightarrow>
                displayTripStopTimes stops arrivalTimes departureTimes s
            | _ \<Rightarrow> (Inl UnexpectedResponse, s)))"

definition formatDictionary :: "(string \<times> string) list \<Rightarrow> string" where
  "formatDictionary d =
     fst (foldl (\<lambda>(output, first) (k, v).
                   ((if first then output else output @ ''&nbsp;&nbsp; '') @ ''<b>'' @ k @ ''</b>='' @ v,
                    False))
            ([], True) d)"

text \<open>\<^verbatim>\<open>toLowerCase\<close> on the letters that matter for the search of \<^verbatim>\<open>msie\<close>.\<close>

definition toLowerCase :: "string \<Rightarrow> string" where
  "toLowerCase s =
     map (\<lambda>c. if c \<in> set ''ABCDEFGHIJKLMNOPQRSTUVWXYZ'' then char_of (of_char c + (32::nat)) else c) s"

text \<open>\<^verbatim>\<open>s.indexOf(p) != -1\<close>\<close>

fun has_substring :: "string \<Rightarrow> string \<Rightarrow> bool" where
  "has_substring p [] = (p = [])"
| "has_substring p (c # cs) = (take (length p) (c # cs) = p \<or> has_substring p cs)"

text \<open>\<open>svgTag\<close>; the function \<^verbatim>\<open>isSVGControlInstalled\<close> it calls is not part of the
  script and its result is a field of the state.\<close>

definition svgTag :: "string \<Rightarrow> string \<Rightarrow> state \<Rightarrow> string" where
  "svgTag src attributes s =
     (if has_substring ''msie'' (toLowerCase (userAgent s))
      then (if svgControlInstalled s
            then ''<embed pluginspage='' @ sq @ ''http://www.adobe.com/svg/viewer/install/'' @ sq @
                 '' src='' @ sq @ src @ sq @ '' '' @ attributes @ ''></embed>''
            else ''<p>Please install the <a href='' @ sq @ ''http://www.adobe.com/svg/viewer/install/'' @
                 sq @ ''>Adobe SVG Viewer</a> to get SVG support in IE</p>'')
      else ''<object data='' @ sq @ src @ sq @ '' type='' @ sq @ ''image/svg+xml'' @ sq @ '' '' @
           attributes @
           ''><p>No SVG support in your browser. Try Firefox 1.5 or newer or install the <a href='' @
           sq @ ''http://www.adobe.com/svg/viewer/install/'' @ sq @
           ''>Adobe SVG Viewer</a></p></object>'')"

definition callbackDisplayTripRows :: "response_data \<Rightarrow> int \<Rightarrow> string \<Rightarrow> state \<Rightarrow> unit outcome" where
  "callbackDisplayTripRows data responseCode tripId s =
     (if responseCode \<noteq> 200 then (Inr (), s)
      else (case data of
              TripRows None \<Rightarrow> (Inr (), s)
            | TripRows (Some rows) \<Rightarrow>
                (let html = foldl (\<lambda>html (filename, row).
                                     html @ ''<b>'' @ filename @ ''</b>: '' @ formatDictionary row @ ''<br>'')
                              [] rows;
                     html = html @ svgTag (''/ttablegraph?height=100&trip='' @ encodeURIComponent tripId)
                                     (''height='' @ sq @ ''115'' @ sq @ '' width='' @ sq @ ''100%'' @ sq) s;
                     s1 = s\<lparr>bottombar_display := ''block'', bottombar_height := ''175px'',
                            bottombar_innerHTML := html\<rparr>
                 in (Inr (), sizeRouteList s1))
            | _ \<Rightarrow> (Inl UnexpectedResponse, s)))"

definition setStartDate :: "jsval \<Rightarrow> int \<Rightarrow> int \<Rightarrow> state \<Rightarrow> state" where
  "setStartDate y m d s = s\<lparr>startDateInput := startDateValue y m d\<rparr>"

definition load :: "config \<Rightarrow> state \<Rightarrow> state" where
  "load config s =
     (let s1 = s\<lparr>forbid_editing := cfg_forbid_editing config\<rparr>;
          s2 = sizeRouteList s1;
          s3 = s2\<lparr>map_obj := Some (FitBox (cfg_bounds config))\<rparr>;
          s4 = initIcons s3;
          s5 = fetchStopsInBounds (cfg_bounds config) s4
      in fetchRoutes s5)"

text \<open>The listeners \<open>addStopMarker\<close> puts on a new marker.\<close>

definition marker_click :: "nat \<Rightarrow> state \<Rightarrow> unit outcome" where
  "marker_click marker s = fetchStopInfoWindow marker s"

definition marker_dragend :: "nat \<Rightarrow> state \<Rightarrow> state" where
  "marker_dragend marker s =
     changeStopLocation marker
       (s\<lparr>edit_visibility := ''visible'', edit_status := StatusLit ''updating...''\<rparr>)"

text \<open>The call of the callback of a request, as \<^verbatim>\<open>xhr.onload\<close> makes it.\<close>

definition run_callback :: "callback \<Rightarrow> response_data \<Rightarrow> int \<Rightarrow> state \<Rightarrow> unit outcome" where
  "run_callback cb data responseCode s =
     (case cb of
        CallbackDisplayStops \<Rightarrow> callbackDisplayStops data responseCode s
      | CallbackDisplayStopsBackground \<Rightarrow> callbackDisplayStopsBackground data responseCode s
      | CallbackStopLocationChanged \<Rightarrow> (Inr (), callbackStopLocationChanged data responseCode s)
      | CallbackDataSaved \<Rightarrow> (Inr (), callbackDataSaved data responseCode s)
      | CallbackDisplayStopInfoWindow marker \<Rightarrow> callbackDisplayStopInfoWindow marker data responseCode s
      | CallbackDisplayRoutes \<Rightarrow> callbackDisplayRoutes data responseCode s
      | CallbackDisplayPatterns \<Rightarrow> callbackDisplayPatterns data responseCode s
      | CallbackDisplayTripStopTimes \<Rightarrow> callbackDisplayTripStopTimes data responseCode s
      | CallbackDisplayTripPolyLine \<Rightarrow> callbackDisplayTripPolyLine data responseCode s
      | CallbackDisplayTripRows tripId \<Rightarrow> callbackDisplayTripRows data responseCode tripId s)"

definition xhr_onload :: "nat \<Rightarrow> response_data \<Rightarrow> int \<Rightarrow> state \<Rightarrow> unit outcome" where
  "xhr_onload i responseText status s = run_callback (xhr_callback (xhrs s ! i)) responseText status s"

text \<open>
  What can happen to the page: the page is loaded, the user acts, the calendar widget
  returns a date, a request is answered or fails. A click is on an element of the route
  list, given by the listener it carries; a dragged marker has its new position when
  \<^verbatim>\<open>dragend\<close> fires.
\<close>

datatype event =
    Load config
  | MoveEnd bounds
  | ZoomEnd
  | StopTextSearchSubmit
  | TripTextSearchSubmit
  | Click handler
  | MarkerClick nat
  | MarkerDragEnd nat latlng
  | SaveData
  | SetStartDate jsval int int
  | TypeStopText string
  | TypeTripText string
  | TypeTime string
  | TypeDate string
  | XhrLoad nat response_data int
  | XhrError nat int

definition step :: "event \<Rightarrow> state \<Rightarrow> unit outcome" where
  "step e s =
     (case e of
        Load config \<Rightarrow> (Inr (), load config s)
      | MoveEnd mapBounds \<Rightarrow> (Inr (), callbackMoveEnd mapBounds s)
      | ZoomEnd \<Rightarrow> (Inr (), callbackZoomEnd s)
      | StopTextSearchSubmit \<Rightarrow> (Inr (), stopTextSearchSubmit s)
      | TripTextSearchSubmit \<Rightarrow> (Inr (), tripTextSearchSubmit s)
      | Click (SelectRoute routeId) \<Rightarrow> selectRoute routeId s
      | Click (SelectTrip tripId) \<Rightarrow> (Inr (), selectTrip tripId s)
      | MarkerClick marker \<Rightarrow> marker_click marker s
      | MarkerDragEnd marker pos \<Rightarrow>
          (Inr (), marker_dragend marker
                     (s\<lparr>markers := (markers s)[marker := (markers s ! marker)\<lparr>mk_position := pos\<rparr>]\<rparr>))
      | SaveData \<Rightarrow> (Inr (), saveData s)
      | SetStartDate y m d \<Rightarrow> (Inr (), setStartDate y m d s)
      | TypeStopText t \<Rightarrow> (Inr (), s\<lparr>stopTextSearchInput := t\<rparr>)
      | TypeTripText t \<Rightarrow> (Inr (), s\<lparr>tripTextSearchInput := t\<rparr>)
      | TypeTime t \<Rightarrow> (Inr (), s\<lparr>timeInput := t\<rparr>)
      | TypeDate t \<Rightarrow> (Inr (), s\<lparr>startDateInput := t\<rparr>)
      | XhrLoad i responseText status \<Rightarrow> xhr_onload i responseText status s
      | XhrError i status \<Rightarrow> (Inr (), xhr_onerror i status s))"

text \<open>A run of events; an error ends a handler, not the page.\<close>

fun run :: "event list \<Rightarrow> state \<Rightarrow> state" where
  "run [] s = s"
| "run (e # es) s = run es (snd (step e s))"

text \<open>The state when the script has been evaluated and nothing has happened yet.\<close>

definition initial :: state where
  "initial =
     \<lparr>map_obj = None, infoWindow_content = [], infoWindow_anchor = None,
      log_flag = False, twelveHourTime = False, selectedRoute = None, forbid_editing = False,
      iconSelected = None, iconBackground = None, iconBackgroundStation = None,
      stopMarkersSelected = [], stopMarkersBackground = [], existingPolylines = [],
      boundsOfPolyLine = None, markers = [], polylines = [],
      stopTextSearchInput = [], tripTextSearchInput = [], timeInput = [], startDateInput = [],
      edit_visibility = ''hidden'', edit_status = StatusLit [], routeList = [],
      bottombar_display = ''none'', bottombar_height = [], bottombar_innerHTML = [],
      content_resized = 0, xhrs = [], console = [],
      userAgent = [], svgControlInstalled = False\<rparr>"

section \<open>The labelled marker\<close>

text \<open>
  The options of a marker as \<open>LabeledMarker\<close> reads them; an absent option is \<open>None\<close>.
  \<^verbatim>\<open>clickable\<close> and \<^verbatim>\<open>draggable\<close> are booleans in the marker options of the map
  library. \<open>lm_gmarker_opts\<close> are the options the constructor of the library's marker
  received: the library makes a marker draggable when the option is true there. The
  field \<^verbatim>\<open>x_\<close> of the marker is \<open>this_x\<close>.
\<close>

record marker_opts =
  labelText :: "string option"
  labelClass :: "string option"
  labelOffset :: "(int \<times> int) option"
  clickable :: "bool option"
  draggable :: "bool option"

record label_div =
  div_className :: string
  div_innerHTML :: string
  div_position :: string
  div_cursor :: string
  div_listeners :: "string list"

record labeled_marker =
  this_latlng :: latlng
  this_opts :: marker_opts
  this_labelText :: string
  this_labelClass :: string
  this_labelOffset :: "int \<times> int"
  this_clickable :: bool
  lm_gmarker_opts :: marker_opts
  this_map :: "nat option"
  this_div :: "label_div option"

text \<open>\<^verbatim>\<open>a || b\<close> on an optional string and on an optional boolean.\<close>

definition or_text :: "string option \<Rightarrow> string \<Rightarrow> string" where
  "or_text a b = (if truthy_text a then the a else b)"

definition or_bool :: "bool option \<Rightarrow> bool \<Rightarrow> bool" where
  "or_bool a b = (if a = Some True then the a else b)"

text \<open>
  The constructor: the new marker and the options object, which the constructor writes
  to. Without an options object the first read of an option fails.
\<close>

definition LabeledMarker :: "latlng \<Rightarrow> marker_opts option \<Rightarrow> js_error + (labeled_marker \<times> marker_opts)" where
  "LabeledMarker latlng opt_opts =
     (case opt_opts of
        None \<Rightarrow> Inl TypeError
      | Some opts \<Rightarrow>
          (let opts' = (if draggable opts = Some True then opts\<lparr>draggable := Some False\<rparr> else opts)
           in Inr (\<lparr>this_latlng = latlng, this_opts = opts',
                    this_labelText = or_text (labelText opts) [],
                    this_labelClass = or_text (labelClass opts) ''markerLabel'',
                    this_labelOffset = (case labelOffset opts of Some off \<Rightarrow> off | None \<Rightarrow> (0, 0)),
                    this_clickable = or_bool (clickable opts) True,
                    lm_gmarker_opts = opts',
                    this_map = None, this_div = None\<rparr>, opts')))"

text \<open>\<open>initialize\<close>: the marker with its label element, which is also appended to the
  marker pane of the map.\<close>

definition initialize :: "nat \<Rightarrow> labeled_marker \<Rightarrow> label_div list \<Rightarrow> labeled_marker \<times> label_div list" where
  "initialize mp this pane =
     (let d = \<lparr>div_className = this_labelClass this, div_innerHTML = this_labelText this,
               div_position = ''absolute'', div_cursor = ''pointer'', div_listeners = []\<rparr>;
          eventPassthrus = [''click'', ''dblclick'', ''mousedown'', ''mouseup'', ''mouseover'', ''mouseout''];
          d = (if this_clickable this
               then foldl (\<lambda>d name. d\<lparr>div_listeners := div_listeners d @ [name]\<rparr>) d eventPassthrus
               else d)
      in (this\<lparr>this_map := Some mp, this_div := Some d\<rparr>, pane @ [d]))"

section \<open>Notions used in the statements\<close>

text \<open>A number below 100 written with two digits, as in \<^verbatim>\<open>HH:MM\<close>.\<close>

definition two_digits :: "nat \<Rightarrow> string" where
  "two_digits n = [digit_char (n div 10), digit_char (n mod 10)]"

text \<open>The text after \<^verbatim>\<open>HH:MM\<close> starts a seconds field: a colon and a digit.\<close>

definition seconds_follow :: "string \<Rightarrow> bool" where
  "seconds_follow rest = (case rest of c # d # _ \<Rightarrow> c = CHR '':'' \<and> is_digit d | _ \<Rightarrow> False)"

text \<open>The path of a request: the URL up to its query.\<close>

definition url_path :: "string \<Rightarrow> string" where
  "url_path u = takeWhile (\<lambda>c. c \<noteq> CHR ''?'') u"

text \<open>The endpoints the interface description lists.\<close>

definition listed_endpoints :: "string list" where
  "listed_endpoints =
     [''/json/boundboxstops'', ''/json/stopsearch'', ''/json/routes'', ''/json/routepatterns'',
      ''/json/tripstoptimes'', ''/json/tripshape'', ''/json/triprows'', ''/json/setstoplocation'',
      ''/json/savedata'']"

text \<open>A request as \<open>downloadUrl\<close> leaves it: a GET to one of the endpoints, sent, with
  no timeout and not aborted.\<close>

definition request_ok :: "xhr \<Rightarrow> bool" where
  "request_ok x =
     (xhr_method x = ''GET'' \<and> url_path (xhr_url x) \<in> set (listed_endpoints @ [''/json/stoptrips'']) \<and>
      xhr_sent x \<and> xhr_timeout x = 0 \<and> \<not> xhr_aborted x)"

text \<open>The handlers the user triggers, and those among them that select a trip.\<close>

definition user_action :: "event \<Rightarrow> bool" where
  "user_action e =
     (case e of
        StopTextSearchSubmit \<Rightarrow> True
      | TripTextSearchSubmit \<Rightarrow> True
      | Click h \<Rightarrow> True
      | MarkerClick marker \<Rightarrow> True
      | MarkerDragEnd marker pos \<Rightarrow> True
      | MoveEnd mapBounds \<Rightarrow> True
      | SaveData \<Rightarrow> True
      | _ \<Rightarrow> False)"

definition selects_trip :: "event \<Rightarrow> bool" where
  "selects_trip e =
     (case e of
        TripTextSearchSubmit \<Rightarrow> True
      | Click (SelectTrip tripId) \<Rightarrow> True
      | _ \<Rightarrow> False)"

text \<open>The request \<open>downloadUrl\<close> sends for a URL and a callback.\<close>

definition get_request :: "string \<Rightarrow> callback \<Rightarrow> xhr" where
  "get_request url cb =
     \<lparr>xhr_method = ''GET'', xhr_url = url, xhr_async = True, xhr_callback = cb,
      xhr_sent = True, xhr_timeout = 0, xhr_aborted = False\<rparr>"

text \<open>From \<open>s\<close> to \<open>s'\<close> the requests sent before are kept as they are and every new
  request is as \<open>downloadUrl\<close> leaves it.\<close>

definition sends_ok :: "state \<Rightarrow> state \<Rightarrow> bool" where
  "sends_ok s s' = (\<exists>new. xhrs s' = xhrs s @ new \<and> list_all request_ok new)"

section \<open>Inputs of the examples\<close>

definition example_config :: config where
  "example_config =
     \<lparr>cfg_forbid_editing = False,
      cfg_bounds = \<lparr>northEast = (''38.1'', ''-122.1''), southWest = (''37.2'', ''-122.9'')\<rparr>\<rparr>"

definition stop_A :: stop_row where
  "stop_A = (''A'', ''Main St'', ''37.5'', ''-122.5'', 0)"

definition stop_B :: stop_row where
  "stop_B = (''B'', ''Central Station'', ''37.6'', ''-122.4'', 1)"

text \<open>The callbacks that start with \<^verbatim>\<open>if (responseCode != 200) { return; }\<close>.\<close>

definition checks_responseCode :: "callback \<Rightarrow> bool" where
  "checks_responseCode cb =
     (case cb of
        CallbackDisplayStops \<Rightarrow> True
      | CallbackDisplayStopsBackground \<Rightarrow> True
      | CallbackDisplayStopInfoWindow marker \<Rightarrow> True
      | CallbackDisplayPatterns \<Rightarrow> True
      | CallbackDisplayTripStopTimes \<Rightarrow> True
      | CallbackDisplayTripPolyLine \<Rightarrow> True
      | CallbackDisplayTripRows tripId \<Rightarrow> True
      | _ \<Rightarrow> False)"

section \<open>Markers and polylines on the map\<close>

text \<open>
  The condition on the two marker tables and the markers: no stop id is listed twice in a
  table or in both tables, a table lists a marker under the stop id of that marker, and
  every marker on the map is listed.
\<close>

definition tables_inv :: "(string \<times> nat) list \<Rightarrow> (string \<times> nat) list \<Rightarrow> marker list \<Rightarrow> bool" where
  "tables_inv sel bg ms =
     (distinct (map fst sel) \<and> distinct (map fst bg) \<and>
      list_all (\<lambda>(k, r). map_of bg k = None \<and> r < length ms \<and> mk_stopId (ms ! r) = k) sel \<and>
      list_all (\<lambda>(k, r). r < length ms \<and> mk_stopId (ms ! r) = k) bg \<and>
      list_all (\<lambda>r. if mk_onMap (ms ! r)
                     then map_of sel (mk_stopId (ms ! r)) = Some r \<or>
                          map_of bg (mk_stopId (ms ! r)) = Some r
                     else True) [0..<length ms])"

definition tables_ok :: "state \<Rightarrow> bool" where
  "tables_ok s = tables_inv (stopMarkersSelected s) (stopMarkersBackground s) (markers s)"

text \<open>Every polyline on the map is in the list of polylines, which lists polylines that
  exist.\<close>

definition polylines_ok :: "state \<Rightarrow> bool" where
  "polylines_ok s =
     (list_all (\<lambda>r. r < length (polylines s)) (existingPolylines s) \<and>
      list_all (\<lambda>r. if pl_onMap (polylines s ! r) then r \<in> set (existingPolylines s) else True)
        [0..<length (polylines s)])"

text \<open>The markers and the polylines on the map.\<close>

definition displayed_markers :: "state \<Rightarrow> nat list" where
  "displayed_markers s = filter (\<lambda>r. mk_onMap (markers s ! r)) [0..<length (markers s)]"

definition displayed_polylines :: "state \<Rightarrow> nat list" where
  "displayed_polylines s = filter (\<lambda>r. pl_onMap (polylines s ! r)) [0..<length (polylines s)]"

text \<open>The condition of \<open>tables_inv\<close> on the tables as maps.\<close>

definition tables_abs :: "(string \<rightharpoonup> nat) \<Rightarrow> (string \<rightharpoonup> nat) \<Rightarrow> marker list \<Rightarrow> bool" where
  "tables_abs sm bm ms =
     ((\<forall>k r. sm k = Some r \<longrightarrow> bm k = None \<and> r < length ms \<and> mk_stopId (ms ! r) = k) \<and>
      (\<forall>k r. bm k = Some r \<longrightarrow> r < length ms \<and> mk_stopId (ms ! r) = k) \<and>
      (\<forall>r < length ms. mk_onMap (ms ! r) \<longrightarrow>
         sm (mk_stopId (ms ! r)) = Some r \<or> bm (mk_stopId (ms ! r)) = Some r))"

definition page_ok :: "state \<Rightarrow> bool" where
  "page_ok s = (tables_ok s \<and> polylines_ok s)"

text \<open>The operations on the marker tables, and a sequence of them run on a state; an
  operation that ends with an error leaves the state it had reached.\<close>

datatype marker_op =
    OpAddStopMarker string string string string int bool "string option"
  | OpAddStopMarkerFromList stop_row bool "string option"
  | OpCallbackDisplayStopsBackground response_data int
  | OpClearMap

definition apply_op :: "marker_op \<Rightarrow> state \<Rightarrow> state" where
  "apply_op op s =
     (case op of
        OpAddStopMarker stopId stopName stopLat stopLon locationType selected text \<Rightarrow>
          snd (addStopMarker stopId stopName stopLat stopLon locationType selected text s)
      | OpAddStopMarkerFromList list selected text \<Rightarrow> snd (addStopMarkerFromList list selected text s)
      | OpCallbackDisplayStopsBackground data responseCode \<Rightarrow>
          snd (callbackDisplayStopsBackground data responseCode s)
      | OpClearMap \<Rightarrow> clearMap s)"

fun apply_ops :: "marker_op list \<Rightarrow> state \<Rightarrow> state" where
  "apply_ops [] s = s"
| "apply_ops (op # ops) s = apply_ops ops (apply_op op s)"

text \<open>Two states with the same markers, polylines, tables and list of polylines.\<close>

definition same_overlays :: "state \<Rightarrow> state \<Rightarrow> bool" where
  "same_overlays s s' =
     (markers s' = markers s \<and> polylines s' = polylines s \<and>
      stopMarkersSelected s' = stopMarkersSelected s \<and>
      stopMarkersBackground s' = stopMarkersBackground s \<and>
      existingPolylines s' = existingPolylines s)"

section \<open>Digits and the time pattern\<close>

lemma lt10_cases: "n < 10 \<Longrightarrow> n \<in> {0, 1, 2, 3, 4, 5, 6, 7, 8, 9::nat}"
  by auto

lemma digit_char_is_digit: "n < 10 \<Longrightarrow> is_digit (digit_char n)"
  by (drule lt10_cases) (auto simp: is_digit_def digit_char_def)

lemma digit_char_012: "n < 3 \<Longrightarrow> digit_char n \<in> set ''012''"
proof -
  assume "n < 3"
  then have "n \<in> {0, 1, 2}" by auto
  then show ?thesis by (auto simp: digit_char_def)
qed

lemma digit_char_012345: "n < 6 \<Longrightarrow> digit_char n \<in> set ''012345''"
proof -
  assume "n < 6"
  then have "n \<in> {0, 1, 2, 3, 4, 5}" by auto
  then show ?thesis by (auto simp: digit_char_def)
qed

lemma digit_val_digit_char: "n < 10 \<Longrightarrow> digit_val (digit_char n) = int n"
  by (drule lt10_cases) (auto simp: digit_val_def digit_char_def)

lemma parseInt10_two_digits: "n < 100 \<Longrightarrow> parseInt10 (two_digits n) = int n"
proof -
  assume "n < 100"
  then have "n div 10 < 10" by simp
  then have "parseInt10 (two_digits n) = 10 * int (n div 10) + int (n mod 10)"
    by (simp add: parseInt10_def two_digits_def digit_val_digit_char)
  also have "\<dots> = int n" by presburger
  finally show ?thesis .
qed

lemma opt_digit_alts_two:
  "c1 \<in> set cls \<Longrightarrow> is_digit c2 \<Longrightarrow>
   opt_digit_alts cls (c1 # c2 # r) = ([c1, c2], r) # (if is_digit c1 then [([c1], c2 # r)] else [])"
  by (simp add: opt_digit_alts_def)

lemma seconds_alts_none: "\<not> seconds_follow rest \<Longrightarrow> seconds_alts rest = [None]"
  by (auto simp: seconds_alts_def seconds_follow_def opt_digit_alts_def is_digit_def split: list.splits)

lemma time_match_hh_mm:
  assumes "h < 30" "mi < 60" "\<not> seconds_follow rest"
  shows "time_match (two_digits h @ '':'' @ two_digits mi @ rest) = Some (two_digits h, two_digits mi, None)"
proof -
  have a: "digit_char (h div 10) \<in> set ''012''" using assms(1) by (intro digit_char_012) simp
  have b: "is_digit (digit_char (h mod 10))" by (intro digit_char_is_digit) simp
  have c: "digit_char (mi div 10) \<in> set ''012345''" using assms(2) by (intro digit_char_012345) simp
  have d: "is_digit (digit_char (mi mod 10))" by (intro digit_char_is_digit) simp
  have "\<exists>xs. time_match_here (two_digits h @ '':'' @ two_digits mi @ rest)
        = (two_digits h, two_digits mi, None) # xs"
    by (simp add: time_match_here_def two_digits_def opt_digit_alts_two[OF a b] opt_digit_alts_two[OF c d]
        seconds_alts_none[OF assms(3)])
  then obtain xs where eq: "time_match_here (two_digits h @ '':'' @ two_digits mi @ rest)
        = (two_digits h, two_digits mi, None) # xs" by blast
  show ?thesis
    by (subst time_match.simps) (simp only: eq list.case)
qed

lemma seconds_alts_two:
  "c1 \<in> set ''012345'' \<Longrightarrow> is_digit c2 \<Longrightarrow>
   \<exists>xs. seconds_alts (CHR '':'' # c1 # c2 # r) = Some [c1, c2] # xs"
  by (simp add: seconds_alts_def opt_digit_alts_two)

lemma time_match_hh_mm_ss:
  assumes "h < 30" "mi < 60" "sec < 60"
  shows "time_match (two_digits h @ '':'' @ two_digits mi @ '':'' @ two_digits sec @ rest) =
         Some (two_digits h, two_digits mi, Some (two_digits sec))"
proof -
  have a: "digit_char (h div 10) \<in> set ''012''" using assms(1) by (intro digit_char_012) simp
  have b: "is_digit (digit_char (h mod 10))" by (intro digit_char_is_digit) simp
  have c: "digit_char (mi div 10) \<in> set ''012345''" using assms(2) by (intro digit_char_012345) simp
  have d: "is_digit (digit_char (mi mod 10))" by (intro digit_char_is_digit) simp
  have e: "digit_char (sec div 10) \<in> set ''012345''" using assms(3) by (intro digit_char_012345) simp
  have f: "is_digit (digit_char (sec mod 10))" by (intro digit_char_is_digit) simp
  obtain ys where ys: "seconds_alts (CHR '':'' # digit_char (sec div 10) # digit_char (sec mod 10) # rest)
      = Some (two_digits sec) # ys"
    using seconds_alts_two[OF e f, of rest] by (auto simp: two_digits_def)
  have "\<exists>xs. time_match_here (two_digits h @ '':'' @ two_digits mi @ '':'' @ two_digits sec @ rest)
        = (two_digits h, two_digits mi, Some (two_digits sec)) # xs"
    by (simp add: time_match_here_def two_digits_def opt_digit_alts_two[OF a b] opt_digit_alts_two[OF c d]
        ys[unfolded two_digits_def])
  then obtain xs where eq: "time_match_here (two_digits h @ '':'' @ two_digits mi @ '':'' @ two_digits sec @ rest)
        = (two_digits h, two_digits mi, Some (two_digits sec)) # xs" by blast
  show ?thesis
    by (subst time_match.simps) (simp only: eq list.case)
qed

section \<open>The time input (C8)\<close>

lemma parseTimeInput_no_seconds:
  "time_match (timeInput s) = Some (m1, m2, None) \<Longrightarrow>
   parseTimeInput s = (Inr (JNum (parseInt10 m1 * 3600 + parseInt10 m2 * 60)), s)"
  by (simp add: parseTimeInput_def Let_def)

lemma parseTimeInput_no_match:
  "time_match (timeInput s) = None \<Longrightarrow> fst (parseTimeInput s) = Inr (JStr [])"
  by (simp add: parseTimeInput_def Let_def)

lemma parseTimeInput_seconds:
  "time_match (timeInput s) = Some (m1, m2, Some m4) \<Longrightarrow> m4 \<noteq> [] \<Longrightarrow>
   parseTimeInput s = (Inl ReferenceError, s)"
  by (simp add: parseTimeInput_def Let_def)

text \<open>
  Without a seconds field the function returns what it has summed: for a text that starts
  with \<^verbatim>\<open>HH:MM\<close> (hours below 30, minutes below 60) not followed by a colon and a digit,
  hours times 3600 plus minutes times 60.
\<close>

lemma parseTimeInput_hh_mm:
  assumes "h < 30" "mi < 60" "\<not> seconds_follow rest"
    and "timeInput s = two_digits h @ '':'' @ two_digits mi @ rest"
  shows "parseTimeInput s = (Inr (JNum (int h * 3600 + int mi * 60)), s)"
proof -
  have "time_match (timeInput s) = Some (two_digits h, two_digits mi, None)"
    using time_match_hh_mm[OF assms(1-3)] assms(4) by simp
  then have "parseTimeInput s =
      (Inr (JNum (parseInt10 (two_digits h) * 3600 + parseInt10 (two_digits mi) * 60)), s)"
    by (rule parseTimeInput_no_seconds)
  moreover have "parseInt10 (two_digits h) = int h" "parseInt10 (two_digits mi) = int mi"
    using assms(1,2) by (simp_all add: parseInt10_two_digits)
  ultimately show ?thesis by simp
qed

text \<open>
  With a seconds field the statement that adds the seconds is reached, and it names
  \<^verbatim>\<open>second\<close>: every text that starts with \<^verbatim>\<open>HH:MM:SS\<close> (hours below 30, minutes and
  seconds below 60) ends \<open>parseTimeInput\<close> with the ReferenceError, whatever follows.
\<close>

lemma parseTimeInput_hh_mm_ss:
  assumes "h < 30" "mi < 60" "sec < 60"
    and "timeInput s = two_digits h @ '':'' @ two_digits mi @ '':'' @ two_digits sec @ rest"
  shows "parseTimeInput s = (Inl ReferenceError, s)"
proof -
  have "time_match (timeInput s) = Some (two_digits h, two_digits mi, Some (two_digits sec))"
    using time_match_hh_mm_ss[OF assms(1-3), of rest] assms(4) by simp
  moreover have "two_digits sec \<noteq> []" by (simp add: two_digits_def)
  ultimately show ?thesis by (rule parseTimeInput_seconds)
qed

text \<open>The inputs \<^verbatim>\<open>09:30\<close> and \<^verbatim>\<open>noon\<close>.\<close>

lemma time_match_0930: "time_match ''09:30'' = Some (''09'', ''30'', None)"
  by code_simp

lemma time_match_noon: "time_match ''noon'' = None"
  by code_simp

lemma parseTimeInput_0930_noon:
  "parseTimeInput (initial\<lparr>timeInput := ''09:30''\<rparr>) =
     (Inr (JNum 34200), initial\<lparr>timeInput := ''09:30''\<rparr>) \<and>
   fst (parseTimeInput (initial\<lparr>timeInput := ''noon''\<rparr>)) = Inr (JStr [])"
  by (simp add: parseTimeInput_def Let_def time_match_0930 time_match_noon parseInt10_def
      digit_val_def)

lemma time_match_123045: "time_match ''12:30:45'' = Some (''12'', ''30'', Some ''45'')"
  by code_simp

text \<open>
  Claim C8. The claim has \<open>parseTimeInput\<close> return hours times 3600 plus minutes times 60
  for a text of the form \<^verbatim>\<open>HH:MM:SS\<close>, the seconds being added to another variable. On
  \<^verbatim>\<open>12:30:45\<close> the pattern matches with the seconds field \<^verbatim>\<open>45\<close>; the sum of hours and
  minutes is in \<^verbatim>\<open>seconds\<close>, the statement that adds the seconds field reads \<^verbatim>\<open>second\<close>,
  which is declared nowhere, and \<open>parseTimeInput\<close> ends with a ReferenceError: it does not
  return 45000, it returns nothing.
\<close>

theorem parseTimeInput_seconds_ReferenceError:
  "time_match ''12:30:45'' = Some (''12'', ''30'', Some ''45'') \<and>
   parseTimeInput (initial\<lparr>timeInput := ''12:30:45''\<rparr>) =
     (Inl ReferenceError, initial\<lparr>timeInput := ''12:30:45''\<rparr>) \<and>
   fst (parseTimeInput (initial\<lparr>timeInput := ''12:30:45''\<rparr>)) \<noteq> Inr (JNum (12 * 3600 + 30 * 60))"
  by (simp add: parseTimeInput_def Let_def time_match_123045)

section \<open>The start date (C9)\<close>

lemma length_nat_to_str_step:
  "length (nat_to_str n) = (if n < 10 then 1 else Suc (length (nat_to_str (n div 10))))"
  by (subst nat_to_str.simps) simp

lemma length_nat_to_str_1: "n < 10 \<Longrightarrow> length (nat_to_str n) = 1"
  by (subst length_nat_to_str_step) simp

lemma length_nat_to_str_2: "10 \<le> n \<Longrightarrow> n < 100 \<Longrightarrow> length (nat_to_str n) = 2"
  by (subst length_nat_to_str_step) (simp add: length_nat_to_str_1)

lemma length_nat_to_str_3: "100 \<le> n \<Longrightarrow> n < 1000 \<Longrightarrow> length (nat_to_str n) = 3"
  by (subst length_nat_to_str_step) (simp add: length_nat_to_str_2)

lemma length_nat_to_str_4: "1000 \<le> n \<Longrightarrow> n < 10000 \<Longrightarrow> length (nat_to_str n) = 4"
  by (subst length_nat_to_str_step) (simp add: length_nat_to_str_3)

lemma length_nat_to_str_5: "10000 \<le> n \<Longrightarrow> n < 100000 \<Longrightarrow> length (nat_to_str n) = 5"
  by (subst length_nat_to_str_step) (simp add: length_nat_to_str_4)

lemma length_num_to_str_1: "0 \<le> i \<Longrightarrow> i < 10 \<Longrightarrow> length (num_to_str i) = 1"
  by (simp add: num_to_str_def length_nat_to_str_1)

lemma length_num_to_str_2: "10 \<le> i \<Longrightarrow> i < 100 \<Longrightarrow> length (num_to_str i) = 2"
  by (simp add: num_to_str_def length_nat_to_str_2)

lemma length_num_to_str_4: "1000 \<le> i \<Longrightarrow> i < 10000 \<Longrightarrow> length (num_to_str i) = 4"
  by (simp add: num_to_str_def length_nat_to_str_4)

lemma length_num_to_str_45: "1000 \<le> i \<Longrightarrow> i < 100000 \<Longrightarrow> length (num_to_str i) \<le> 5"
  by (cases "i < 10000") (simp_all add: num_to_str_def length_nat_to_str_4 length_nat_to_str_5)

lemma num_to_str_10: "num_to_str 10 = ''10''"
  by code_simp

text \<open>Written out, the result for a month or a day has two characters, and three for 10.\<close>

lemma length_padded:
  "1 \<le> n \<Longrightarrow> n \<le> 31 \<Longrightarrow>
   length (to_str (maybeAddLeadingZero n)) = (if n = 10 then 3 else 2)"
  by (cases "n < 10")
     (auto simp: maybeAddLeadingZero_def js_add_def to_str_def num_to_str_10
        length_num_to_str_1 length_num_to_str_2)

text \<open>Above 10 the result is the number, not its text.\<close>

lemma maybeAddLeadingZero_cases:
  "maybeAddLeadingZero n = (if n > 10 then JNum n else JStr (''0'' @ num_to_str n))"
  by (simp add: maybeAddLeadingZero_def js_add_def to_str_def)

text \<open>
  With the year as a text, and with the year as a number and a month up to 10, the three
  parts are concatenated.
\<close>

lemma startDateValue_string_year:
  "1 \<le> m \<Longrightarrow> m \<le> 31 \<Longrightarrow> 1 \<le> d \<Longrightarrow> d \<le> 31 \<Longrightarrow>
   length (startDateValue (JStr ys) m d) =
     length ys + (if m = 10 then 3 else 2) + (if d = 10 then 3 else 2)"
proof -
  assume a: "1 \<le> m" "m \<le> 31" "1 \<le> d" "d \<le> 31"
  have "startDateValue (JStr ys) m d = ys @ to_str (maybeAddLeadingZero m) @ to_str (maybeAddLeadingZero d)"
    by (simp add: startDateValue_def js_add_def to_str_def split: jsval.splits)
  then show ?thesis
    using length_padded[OF a(1,2)] length_padded[OF a(3,4)] by simp
qed

lemma startDateValue_number_year_low_month:
  "1000 \<le> y \<Longrightarrow> y \<le> 9999 \<Longrightarrow> 1 \<le> m \<Longrightarrow> m \<le> 10 \<Longrightarrow> 1 \<le> d \<Longrightarrow> d \<le> 31 \<Longrightarrow>
   length (startDateValue (JNum y) m d) = 4 + (if m = 10 then 3 else 2) + (if d = 10 then 3 else 2)"
proof -
  assume a: "1000 \<le> y" "y \<le> 9999" "1 \<le> m" "m \<le> 10" "1 \<le> d" "d \<le> 31"
  have "startDateValue (JNum y) m d =
        num_to_str y @ to_str (maybeAddLeadingZero m) @ to_str (maybeAddLeadingZero d)"
    using a(4) by (simp add: startDateValue_def js_add_def to_str_def maybeAddLeadingZero_cases split: jsval.splits)
  moreover have "m \<le> 31" using a(4) by simp
  ultimately show ?thesis
    using length_padded[OF a(3), of ] length_padded[OF a(5,6)] length_num_to_str_4[of y] a(1,2)
    by simp
qed

text \<open>
  With the year as a number and the month 11 or 12, year and month are added as numbers,
  and the day too when it is above 10: the text has no more than eight characters.
\<close>

lemma startDateValue_number_year_high_month:
  "1000 \<le> y \<Longrightarrow> y \<le> 9999 \<Longrightarrow> 10 < m \<Longrightarrow> m \<le> 12 \<Longrightarrow> 1 \<le> d \<Longrightarrow> d \<le> 31 \<Longrightarrow>
   length (startDateValue (JNum y) m d) \<le> 8"
proof -
  assume a: "1000 \<le> y" "y \<le> 9999" "10 < m" "m \<le> 12" "1 \<le> d" "d \<le> 31"
  show ?thesis
  proof (cases "d > 10")
    case True
    then have "startDateValue (JNum y) m d = num_to_str (y + m + d)"
      using a(3) by (simp add: startDateValue_def js_add_def to_str_def maybeAddLeadingZero_cases)
    moreover have "length (num_to_str (y + m + d)) \<le> 5"
      using a by (intro length_num_to_str_45) simp_all
    ultimately show ?thesis by simp
  next
    case False
    then have "startDateValue (JNum y) m d = num_to_str (y + m) @ to_str (maybeAddLeadingZero d)"
      using a(3) by (simp add: startDateValue_def js_add_def to_str_def maybeAddLeadingZero_cases)
    moreover have "length (num_to_str (y + m)) \<le> 5"
      using a by (intro length_num_to_str_45) simp_all
    ultimately show ?thesis
      using length_padded[OF a(5,6)] by (simp split: if_splits)
  qed
qed

text \<open>The dates 2024-10-05, 2024-11-10 and 2024-12-31, as the calendar passes them.\<close>

lemma startDateValue_2024_10_05: "startDateValue (JNum 2024) 10 5 = ''202401005''"
  by code_simp

lemma startDateValue_2024_11_10: "startDateValue (JNum 2024) 11 10 = ''2035010''"
  by code_simp

lemma startDateValue_2024_12_31: "startDateValue (JNum 2024) 12 31 = ''2067''"
  by code_simp

lemma date_match_2035010: "\<not> date_match ''2035010''"
  by code_simp

text \<open>
  Claim C9. The claim has \<open>maybeAddLeadingZero\<close> return a two-character text for every
  number above 10, and \<open>setStartDate\<close> store a text longer than eight characters whenever
  the month or the day is 10. For 11 the function returns the number 11. The calendar
  passes numbers, so for the year 2024, the month 11 and the day 10 the year and the month
  are added, 2035, before the text \<^verbatim>\<open>010\<close> of the day is appended: the text stored is
  \<^verbatim>\<open>2035010\<close>, seven characters, in which \<open>parseDateInput\<close> finds no date. For
  2024-12-31 all three are added and the text stored is \<^verbatim>\<open>2067\<close>.
\<close>

theorem setStartDate_adds_numbers:
  "maybeAddLeadingZero 11 = JNum 11 \<and>
   maybeAddLeadingZero 10 = JStr ''010'' \<and>
   startDateInput (setStartDate (JNum 2024) 11 10 initial) = ''2035010'' \<and>
   length (startDateInput (setStartDate (JNum 2024) 11 10 initial)) = 7 \<and>
   \<not> date_match (startDateInput (setStartDate (JNum 2024) 11 10 initial)) \<and>
   startDateInput (setStartDate (JNum 2024) 12 31 initial) = ''2067''"
  by (simp add: setStartDate_def startDateValue_2024_11_10 startDateValue_2024_12_31
      date_match_2035010 maybeAddLeadingZero_cases num_to_str_10)

section \<open>The labelled marker (C10)\<close>

text \<open>
  Claim C10. Whatever the options, the constructor sets \<^verbatim>\<open>clickable_\<close> to true, also when
  the option \<^verbatim>\<open>clickable\<close> is false, so \<open>initialize\<close> installs the pass-through
  listeners of the six events on the label; and it leaves the option \<^verbatim>\<open>draggable\<close> not
  true, in the options object and in what the marker of the library receives, so the marker
  is not draggable. Without an options object no marker is constructed.
\<close>

theorem LabeledMarker_clickable_not_draggable:
  "(case LabeledMarker latlng (Some opts) of
      Inl e \<Rightarrow> False
    | Inr (this, opts') \<Rightarrow>
        this_clickable this = True \<and>
        div_listeners (the (this_div (fst (initialize mp this pane)))) =
          [''click'', ''dblclick'', ''mousedown'', ''mouseup'', ''mouseover'', ''mouseout''] \<and>
        draggable opts' \<noteq> Some True \<and>
        draggable (lm_gmarker_opts this) \<noteq> Some True \<and>
        draggable (this_opts this) \<noteq> Some True) \<and>
   LabeledMarker latlng None = Inl TypeError"
  by (simp add: LabeledMarker_def initialize_def or_bool_def Let_def)

section \<open>The requests the script sends\<close>

lemma xhrs_downloadUrl: "xhrs (downloadUrl url cb s) = xhrs s @ [get_request url cb]"
  by (simp add: downloadUrl_def get_request_def Let_def)

lemma xhrs_clearMap: "xhrs (clearMap s) = xhrs s"
  by (simp add: clearMap_def Let_def)

lemma xhrs_addStopMarker: "addStopMarker a b c d e f g s = (r, s') \<Longrightarrow> xhrs s' = xhrs s"
  by (auto simp: addStopMarker_def addStopMarker_new_def Let_def split: option.splits if_splits)

lemma xhrs_addStopMarkerFromList: "addStopMarkerFromList l f g s = (r, s') \<Longrightarrow> xhrs s' = xhrs s"
  by (auto simp: addStopMarkerFromList_def split: prod.splits dest: xhrs_addStopMarker)

lemma xhrs_addStopMarkers_selected: "addStopMarkers_selected stops s = (r, s') \<Longrightarrow> xhrs s' = xhrs s"
proof (induction stops arbitrary: s)
  case Nil
  then show ?case by simp
next
  case (Cons stop stops)
  then show ?case
    by (auto split: prod.splits sum.splits dest: xhrs_addStopMarkerFromList)
qed

lemma xhrs_addStopMarkers_background:
  "addStopMarkers_background stops old s = (r, s') \<Longrightarrow> xhrs s' = xhrs s"
proof (induction stops arbitrary: old s)
  case Nil
  then show ?case by simp
next
  case (Cons stop stops)
  then show ?case
    by (auto split: prod.splits sum.splits if_splits dest: xhrs_addStopMarkerFromList)
qed

lemma xhrs_expandBoundingBox: "xhrs (expandBoundingBox ll s) = xhrs s"
  by (simp add: expandBoundingBox_def split: option.splits)

lemma xhrs_displayTripStopTimes_loop:
  "displayTripStopTimes_loop stops i arr dep s = (r, s') \<Longrightarrow> xhrs s' = xhrs s"
proof (induction stops arbitrary: i s)
  case Nil
  then show ?case by simp
next
  case (Cons stop stops)
  then show ?case
    by (auto simp: Let_def xhrs_expandBoundingBox split: prod.splits sum.splits
        dest!: xhrs_addStopMarkerFromList)
qed

lemma xhrs_fitBoundsOfPolyLine: "fitBoundsOfPolyLine s = (r, s') \<Longrightarrow> xhrs s' = xhrs s"
  by (auto simp: fitBoundsOfPolyLine_def split: option.splits)

lemma xhrs_foldl_expandBoundingBox: "xhrs (foldl (\<lambda>s ll. expandBoundingBox ll s) s pts) = xhrs s"
  by (induction pts arbitrary: s) (simp_all add: xhrs_expandBoundingBox)

lemma xhrs_displayPolyLine: "displayPolyLine pd s = (r, s') \<Longrightarrow> xhrs s' = xhrs s"
  by (auto simp: displayPolyLine_def Let_def xhrs_foldl_expandBoundingBox
      split: prod.splits sum.splits dest!: xhrs_fitBoundsOfPolyLine)

lemma xhrs_displayTripStopTimes: "displayTripStopTimes stops arr dep s = (r, s') \<Longrightarrow> xhrs s' = xhrs s"
  by (auto simp: displayTripStopTimes_def split: prod.splits sum.splits
      dest!: xhrs_fitBoundsOfPolyLine xhrs_displayTripStopTimes_loop)

lemma xhrs_parseTimeInput: "parseTimeInput s = (r, s') \<Longrightarrow> xhrs s' = xhrs s"
  by (auto simp: parseTimeInput_def Let_def split: option.splits if_splits)

lemma xhrs_parseDateInput: "parseDateInput s = (r, s') \<Longrightarrow> xhrs s' = xhrs s"
  by (auto simp: parseDateInput_def Let_def split: if_splits)

lemma url_path_query: "CHR ''?'' \<notin> set p \<Longrightarrow> url_path (p @ CHR ''?'' # q) = p"
  by (induction p) (auto simp: url_path_def)

lemma request_ok_get_request:
  "url_path u \<in> set (listed_endpoints @ [''/json/stoptrips'']) \<Longrightarrow> request_ok (get_request u cb)"
  by (simp add: request_ok_def get_request_def)

lemma ok_boundboxstops: "request_ok (get_request (''/json/boundboxstops?n='' @ q) cb)"
  using url_path_query[of "''/json/boundboxstops''" "''n='' @ q"]
  by (intro request_ok_get_request) (simp add: listed_endpoints_def)

lemma ok_stopsearch: "request_ok (get_request (''/json/stopsearch?q='' @ q) cb)"
  using url_path_query[of "''/json/stopsearch''" "''q='' @ q"]
  by (intro request_ok_get_request) (simp add: listed_endpoints_def)

lemma ok_routes: "request_ok (get_request ''/json/routes'' cb)"
  by (intro request_ok_get_request) (simp add: listed_endpoints_def url_path_def)

lemma ok_routepatterns: "request_ok (get_request (''/json/routepatterns?route='' @ q) cb)"
  using url_path_query[of "''/json/routepatterns''" "''route='' @ q"]
  by (intro request_ok_get_request) (simp add: listed_endpoints_def)

lemma ok_tripstoptimes: "request_ok (get_request (''/json/tripstoptimes?trip='' @ q) cb)"
  using url_path_query[of "''/json/tripstoptimes''" "''trip='' @ q"]
  by (intro request_ok_get_request) (simp add: listed_endpoints_def)

lemma ok_tripshape: "request_ok (get_request (''/json/tripshape?trip='' @ q) cb)"
  using url_path_query[of "''/json/tripshape''" "''trip='' @ q"]
  by (intro request_ok_get_request) (simp add: listed_endpoints_def)

lemma ok_triprows: "request_ok (get_request (''/json/triprows?trip='' @ q) cb)"
  using url_path_query[of "''/json/triprows''" "''trip='' @ q"]
  by (intro request_ok_get_request) (simp add: listed_endpoints_def)

lemma ok_setstoplocation: "request_ok (get_request (''/json/setstoplocation?id='' @ q) cb)"
  using url_path_query[of "''/json/setstoplocation''" "''id='' @ q"]
  by (intro request_ok_get_request) (simp add: listed_endpoints_def)

lemma ok_savedata: "request_ok (get_request ''/json/savedata'' cb)"
  by (intro request_ok_get_request) (simp add: listed_endpoints_def url_path_def)

lemma ok_stoptrips: "request_ok (get_request (''/json/stoptrips?stop='' @ q) cb)"
  using url_path_query[of "''/json/stoptrips''" "''stop='' @ q"]
  by (intro request_ok_get_request) (simp add: listed_endpoints_def)

lemmas request_oks = ok_boundboxstops[simplified] ok_stopsearch[simplified] ok_routes
  ok_routepatterns[simplified] ok_tripstoptimes[simplified] ok_tripshape[simplified]
  ok_triprows[simplified] ok_setstoplocation[simplified] ok_savedata ok_stoptrips[simplified]

text \<open>The handlers: what each sends.\<close>

lemma xhrs_fetchStopsInBounds:
  "xhrs (fetchStopsInBounds b s) =
     xhrs s @ [get_request (''/json/boundboxstops?n='' @ fst (northEast b)
                  @ ''&e='' @ snd (northEast b)
                  @ ''&s='' @ fst (southWest b)
                  @ ''&w='' @ snd (southWest b)
                  @ ''&limit=50'') CallbackDisplayStopsBackground]"
  by (simp add: fetchStopsInBounds_def xhrs_downloadUrl)

lemma xhrs_stopTextSearchSubmit:
  "xhrs (stopTextSearchSubmit s) =
     xhrs s @ [get_request (''/json/stopsearch?q='' @ stopTextSearchInput s) CallbackDisplayStops]"
  by (simp add: stopTextSearchSubmit_def xhrs_downloadUrl)

lemma xhrs_changeStopLocation:
  "xhrs (changeStopLocation m s) =
     xhrs s @ [get_request (''/json/setstoplocation?id='' @
                  encodeURIComponent (mk_stopId (markers s ! m)) @
                  ''&lat='' @ encodeURIComponent (fst (mk_position (markers s ! m))) @
                  ''&lng='' @ encodeURIComponent (snd (mk_position (markers s ! m))))
                CallbackStopLocationChanged]"
  by (simp add: changeStopLocation_def xhrs_downloadUrl)

lemma xhrs_marker_dragend:
  "xhrs (marker_dragend m s) =
     xhrs s @ [get_request (''/json/setstoplocation?id='' @
                  encodeURIComponent (mk_stopId (markers s ! m)) @
                  ''&lat='' @ encodeURIComponent (fst (mk_position (markers s ! m))) @
                  ''&lng='' @ encodeURIComponent (snd (mk_position (markers s ! m))))
                CallbackStopLocationChanged]"
  by (simp add: marker_dragend_def xhrs_changeStopLocation)

lemma xhrs_saveData: "xhrs (saveData s) = xhrs s @ [get_request ''/json/savedata'' CallbackDataSaved]"
  by (simp add: saveData_def xhrs_downloadUrl)

lemma xhrs_fetchRoutes: "xhrs (fetchRoutes s) = xhrs s @ [get_request ''/json/routes'' CallbackDisplayRoutes]"
  by (simp add: fetchRoutes_def xhrs_downloadUrl)

lemma xhrs_fetchStopInfoWindow:
  "fetchStopInfoWindow m s = (r, s') \<Longrightarrow>
   (r \<noteq> Inr () \<and> xhrs s' = xhrs s) \<or>
   (r = Inr () \<and> (\<exists>q. xhrs s' = xhrs s @ [get_request (''/json/stoptrips?stop='' @ q)
                                             (CallbackDisplayStopInfoWindow m)]))"
  by (auto simp: fetchStopInfoWindow_def Let_def xhrs_downloadUrl
      split: prod.splits sum.splits dest!: xhrs_parseTimeInput xhrs_parseDateInput)

lemma xhrs_fetchPatterns:
  "fetchPatterns routeId s = (r, s') \<Longrightarrow>
   (r \<noteq> Inr () \<and> xhrs s' = xhrs s) \<or>
   (r = Inr () \<and> (\<exists>q. xhrs s' = xhrs s @ [get_request (''/json/routepatterns?route='' @ q)
                                             CallbackDisplayPatterns]))"
  by (auto simp: fetchPatterns_def Let_def xhrs_downloadUrl
      split: prod.splits sum.splits dest!: xhrs_parseTimeInput xhrs_parseDateInput)

lemma xhrs_selectRoute:
  "selectRoute routeId s = (r, s') \<Longrightarrow>
   (r \<noteq> Inr () \<and> xhrs s' = xhrs s) \<or>
   (r = Inr () \<and> (\<exists>q. xhrs s' = xhrs s @ [get_request (''/json/routepatterns?route='' @ q)
                                             CallbackDisplayPatterns]))"
  by (auto simp: selectRoute_def Let_def split: option.splits dest!: xhrs_fetchPatterns)

lemma xhrs_selectTrip:
  "xhrs (selectTrip tripId s) =
     xhrs s @ [get_request (''/json/tripstoptimes?trip='' @ encodeURIComponent tripId) CallbackDisplayTripStopTimes,
               get_request (''/json/tripshape?trip='' @ encodeURIComponent tripId) CallbackDisplayTripPolyLine,
               get_request (''/json/triprows?trip='' @ encodeURIComponent tripId) (CallbackDisplayTripRows tripId)]"
  by (simp add: selectTrip_def Let_def fetchTripRows_def fetchTripPolyLine_def xhrs_downloadUrl xhrs_clearMap
      split: option.splits)

lemma xhrs_load:
  "xhrs (load config s) =
     xhrs s @ [get_request (''/json/boundboxstops?n='' @ fst (northEast (cfg_bounds config))
                  @ ''&e='' @ snd (northEast (cfg_bounds config))
                  @ ''&s='' @ fst (southWest (cfg_bounds config))
                  @ ''&w='' @ snd (southWest (cfg_bounds config))
                  @ ''&limit=50'') CallbackDisplayStopsBackground,
               get_request ''/json/routes'' CallbackDisplayRoutes]"
  by (simp add: load_def Let_def xhrs_fetchRoutes xhrs_fetchStopsInBounds sizeRouteList_def initIcons_def)

lemma sends_ok_same: "xhrs s' = xhrs s \<Longrightarrow> sends_ok s s'"
  by (simp add: sends_ok_def)

lemma sends_ok_one: "xhrs s' = xhrs s @ [x] \<Longrightarrow> request_ok x \<Longrightarrow> sends_ok s s'"
  by (simp add: sends_ok_def)

lemma sends_ok_three:
  "xhrs s' = xhrs s @ [x, y, z] \<Longrightarrow> request_ok x \<Longrightarrow> request_ok y \<Longrightarrow> request_ok z \<Longrightarrow> sends_ok s s'"
  by (simp add: sends_ok_def)

lemma sends_ok_selectTrip: "xhrs s0 = xhrs s \<Longrightarrow> sends_ok s (selectTrip t s0)"
  by (simp add: sends_ok_def xhrs_selectTrip request_oks)

lemma sends_ok_fetchStopInfoWindow:
  "fetchStopInfoWindow m s0 = (r, s') \<Longrightarrow> xhrs s0 = xhrs s \<Longrightarrow> sends_ok s s'"
  by (drule xhrs_fetchStopInfoWindow) (auto intro: sends_ok_same sends_ok_one simp: request_oks)

text \<open>The callbacks: what each sends.\<close>

lemma sends_callbackDisplayStops:
  "callbackDisplayStops data code s = (r, s') \<Longrightarrow> sends_ok s s'"
  by (auto simp: callbackDisplayStops_def Let_def xhrs_clearMap
      split: if_splits response_data.splits prod.splits sum.splits
      dest!: xhrs_addStopMarkers_selected xhrs_addStopMarkerFromList
      intro: sends_ok_same sends_ok_fetchStopInfoWindow)

lemma xhrs_callbackDisplayStopsBackground:
  "callbackDisplayStopsBackground data code s = (r, s') \<Longrightarrow> xhrs s' = xhrs s"
  by (auto simp: callbackDisplayStopsBackground_def
      split: if_splits response_data.splits prod.splits sum.splits
      dest!: xhrs_addStopMarkers_background)

lemma xhrs_callbackDisplayStopInfoWindow:
  "callbackDisplayStopInfoWindow m data code s = (r, s') \<Longrightarrow> xhrs s' = xhrs s"
  by (auto simp: callbackDisplayStopInfoWindow_def Let_def split: if_splits response_data.splits)

lemma xhrs_callbackDisplayRoutes:
  "callbackDisplayRoutes data code s = (r, s') \<Longrightarrow> xhrs s' = xhrs s"
  by (auto simp: callbackDisplayRoutes_def split: if_splits response_data.splits)

lemma sends_callbackDisplayPatterns:
  "callbackDisplayPatterns data code s = (r, s') \<Longrightarrow> sends_ok s s'"
  by (auto simp: callbackDisplayPatterns_def Let_def xhrs_clearMap
      split: if_splits response_data.splits option.splits
      intro: sends_ok_same sends_ok_selectTrip)

lemma xhrs_callbackDisplayTripStopTimes:
  "callbackDisplayTripStopTimes data code s = (r, s') \<Longrightarrow> xhrs s' = xhrs s"
  by (auto simp: callbackDisplayTripStopTimes_def
      split: if_splits response_data.splits option.splits dest!: xhrs_displayTripStopTimes)

lemma xhrs_callbackDisplayTripPolyLine:
  "callbackDisplayTripPolyLine data code s = (r, s') \<Longrightarrow> xhrs s' = xhrs s"
  by (auto simp: callbackDisplayTripPolyLine_def
      split: if_splits response_data.splits option.splits dest!: xhrs_displayPolyLine)

lemma xhrs_callbackDisplayTripRows:
  "callbackDisplayTripRows data code t s = (r, s') \<Longrightarrow> xhrs s' = xhrs s"
  by (auto simp: callbackDisplayTripRows_def Let_def sizeRouteList_def
      split: if_splits response_data.splits option.splits)

lemma sends_run_callback:
  "run_callback cb data code s = (r, s') \<Longrightarrow> sends_ok s s'"
  by (cases cb)
     (auto simp: run_callback_def callbackStopLocationChanged_def callbackDataSaved_def
       intro: sends_ok_same
       dest: sends_callbackDisplayStops xhrs_callbackDisplayStopsBackground
         xhrs_callbackDisplayStopInfoWindow xhrs_callbackDisplayRoutes sends_callbackDisplayPatterns
         xhrs_callbackDisplayTripStopTimes xhrs_callbackDisplayTripPolyLine xhrs_callbackDisplayTripRows)

lemma sends_selectRoute: "selectRoute routeId s = (r, s') \<Longrightarrow> sends_ok s s'"
  by (drule xhrs_selectRoute) (auto intro: sends_ok_same sends_ok_one simp: request_oks)

lemma sends_step: "step e s = (r, s') \<Longrightarrow> sends_ok s s'"
proof (cases e)
  case (Click h)
  assume "step e s = (r, s')"
  then show ?thesis
    using Click
    by (cases h) (auto simp: step_def intro!: sends_ok_selectTrip dest: sends_selectRoute)
next
  case (XhrLoad i data code)
  assume "step e s = (r, s')"
  then show ?thesis
    using XhrLoad by (auto simp: step_def xhr_onload_def dest: sends_run_callback)
next
  case (MarkerClick m)
  assume "step e s = (r, s')"
  then show ?thesis
    using MarkerClick by (auto simp: step_def marker_click_def intro: sends_ok_fetchStopInfoWindow)
next
  case (Load config)
  assume "step e s = (r, s')"
  then show ?thesis
    using Load by (auto simp: step_def sends_ok_def xhrs_load request_oks)
next
  case (MoveEnd b)
  assume "step e s = (r, s')"
  then show ?thesis
    using MoveEnd by (auto simp: step_def callbackMoveEnd_def xhrs_fetchStopsInBounds request_oks intro!: sends_ok_one)
next
  case StopTextSearchSubmit
  assume "step e s = (r, s')"
  then show ?thesis
    using StopTextSearchSubmit by (auto simp: step_def xhrs_stopTextSearchSubmit request_oks intro!: sends_ok_one)
next
  case TripTextSearchSubmit
  assume "step e s = (r, s')"
  then show ?thesis
    using TripTextSearchSubmit by (auto simp: step_def tripTextSearchSubmit_def intro!: sends_ok_selectTrip)
next
  case (MarkerDragEnd m pos)
  assume "step e s = (r, s')"
  then show ?thesis
    using MarkerDragEnd by (auto simp: step_def xhrs_marker_dragend request_oks intro!: sends_ok_one)
next
  case SaveData
  assume "step e s = (r, s')"
  then show ?thesis
    using SaveData by (auto simp: step_def xhrs_saveData request_oks intro!: sends_ok_one)
qed (auto simp: step_def callbackZoomEnd_def setStartDate_def xhr_onerror_def intro!: sends_ok_same)

section \<open>Requests: endpoints, numbers, no retry (C3, C5, C6)\<close>

lemma run_requests_ok: "list_all request_ok (xhrs s) \<Longrightarrow> list_all request_ok (xhrs (run es s))"
proof (induction es arbitrary: s)
  case Nil
  then show ?case by simp
next
  case (Cons e es)
  obtain r s' where st: "step e s = (r, s')" by (cases "step e s")
  from sends_step[OF st] Cons.prems have "list_all request_ok (xhrs s')"
    by (auto simp: sends_ok_def)
  then show ?case using Cons.IH[of s'] st by simp
qed

lemma request_ok_get_path:
  "request_ok x \<Longrightarrow>
   xhr_method x = ''GET'' \<and> url_path (xhr_url x) \<in> set (listed_endpoints @ [''/json/stoptrips''])"
  by (simp add: request_ok_def)

lemma request_ok_plain: "request_ok x \<Longrightarrow> xhr_sent x \<and> xhr_timeout x = 0 \<and> \<not> xhr_aborted x"
  by (simp add: request_ok_def)

lemma list_all_weaken: "list_all P xs \<Longrightarrow> (\<And>x. P x \<Longrightarrow> Q x) \<Longrightarrow> list_all Q xs"
  by (induction xs) auto

text \<open>
  Claim C3, as amended. Every request the script sends is a GET whose path is one of ten
  endpoints: the nine listed and \<^verbatim>\<open>/json/stoptrips\<close>. This holds for the requests any
  event adds, and so for all requests of any run from the initial state.
\<close>

theorem requests_get_ten_endpoints:
  "(\<exists>new. xhrs (snd (step e s)) = xhrs s @ new \<and>
      list_all (\<lambda>x. xhr_method x = ''GET'' \<and>
                     url_path (xhr_url x) \<in> set (listed_endpoints @ [''/json/stoptrips''])) new) \<and>
   list_all (\<lambda>x. xhr_method x = ''GET'' \<and>
                  url_path (xhr_url x) \<in> set (listed_endpoints @ [''/json/stoptrips'']))
     (xhrs (run es initial))"
proof
  obtain r s' where st: "step e s = (r, s')" by (cases "step e s")
  from sends_step[OF st] obtain new where n: "xhrs s' = xhrs s @ new" "list_all request_ok new"
    by (auto simp: sends_ok_def)
  from n(2) have "list_all (\<lambda>x. xhr_method x = ''GET'' \<and>
                     url_path (xhr_url x) \<in> set (listed_endpoints @ [''/json/stoptrips''])) new"
    by (rule list_all_weaken) (rule request_ok_get_path)
  with n(1) st show "\<exists>new. xhrs (snd (step e s)) = xhrs s @ new \<and>
      list_all (\<lambda>x. xhr_method x = ''GET'' \<and>
                     url_path (xhr_url x) \<in> set (listed_endpoints @ [''/json/stoptrips''])) new"
    by auto
next
  have "list_all request_ok (xhrs (run es initial))"
    by (rule run_requests_ok) (simp add: initial_def)
  then show "list_all (\<lambda>x. xhr_method x = ''GET'' \<and>
                  url_path (xhr_url x) \<in> set (listed_endpoints @ [''/json/stoptrips'']))
     (xhrs (run es initial))"
    by (rule list_all_weaken) (rule request_ok_get_path)
qed

text \<open>
  Claim C3 as stated fails: after the page is loaded and one stop is shown, a click on its
  marker sends a GET to \<^verbatim>\<open>/json/stoptrips\<close>, which is not among the nine endpoints.
\<close>

theorem stoptrips_counterexample:
  "map (\<lambda>x. (xhr_method x, url_path (xhr_url x)))
     (xhrs (run [Load example_config, XhrLoad 0 (Stops [stop_A]) 200, MarkerClick 0] initial)) =
     [(''GET'', ''/json/boundboxstops''), (''GET'', ''/json/routes''), (''GET'', ''/json/stoptrips'')] \<and>
   ''/json/stoptrips'' \<notin> set listed_endpoints"
  by code_simp

text \<open>
  Claim C5, as amended. A handler the user triggers that runs to its end sends exactly one
  GET through \<open>downloadUrl\<close>, except the selection of a trip (a click on a trip, or the
  trip search), which sends exactly three: for the stop times, the shape and the rows of
  the trip.
\<close>

theorem user_action_requests:
  "user_action e \<Longrightarrow> fst (step e s) = Inr () \<Longrightarrow>
   \<exists>new. xhrs (snd (step e s)) = xhrs s @ new \<and>
         length new = (if selects_trip e then 3 else 1) \<and>
         list_all (\<lambda>x. xhr_method x = ''GET'' \<and> xhr_sent x) new \<and>
         (selects_trip e \<longrightarrow>
            map (\<lambda>x. url_path (xhr_url x)) new =
              [''/json/tripstoptimes'', ''/json/tripshape'', ''/json/triprows''])"
proof (cases e)
  case (Click h)
  assume "fst (step e s) = Inr ()"
  then show ?thesis
  proof (cases h)
    case (SelectRoute routeId)
    obtain r s' where st: "selectRoute routeId s = (r, s')" by (cases "selectRoute routeId s")
    assume "fst (step e s) = Inr ()"
    then have "r = Inr ()" using Click SelectRoute st by (simp add: step_def)
    with xhrs_selectRoute[OF st] show ?thesis
      using Click SelectRoute st by (auto simp: step_def selects_trip_def get_request_def)
  next
    case (SelectTrip tripId)
    then show ?thesis
      using Click by (simp add: step_def selects_trip_def xhrs_selectTrip get_request_def url_path_def)
  qed
next
  case (MarkerClick m)
  obtain r s' where st: "fetchStopInfoWindow m s = (r, s')" by (cases "fetchStopInfoWindow m s")
  assume "fst (step e s) = Inr ()"
  then have "r = Inr ()" using MarkerClick st by (simp add: step_def marker_click_def)
  with xhrs_fetchStopInfoWindow[OF st] show ?thesis
    using MarkerClick st by (auto simp: step_def marker_click_def selects_trip_def get_request_def)
qed (simp_all add: user_action_def selects_trip_def step_def callbackMoveEnd_def xhrs_fetchStopsInBounds
       xhrs_stopTextSearchSubmit tripTextSearchSubmit_def xhrs_selectTrip xhrs_marker_dragend
       xhrs_saveData get_request_def url_path_def)

text \<open>C5 at the stop search in the initial state, and the trip search, which sends three
  requests where the claim as stated has one.\<close>

lemma trip_search_example:
  "fst (step TripTextSearchSubmit initial) = Inr () \<and>
   map xhr_url (xhrs (snd (step TripTextSearchSubmit initial))) =
     [''/json/tripstoptimes?trip='', ''/json/tripshape?trip='', ''/json/triprows?trip='']"
  by code_simp

lemma stop_search_example:
  "fst (step StopTextSearchSubmit initial) = Inr () \<and>
   map xhr_url (xhrs (snd (step StopTextSearchSubmit initial))) = [''/json/stopsearch?q='']"
  by code_simp

theorem user_action_requests_witness:
  "user_action StopTextSearchSubmit \<and> fst (step StopTextSearchSubmit initial) = Inr () \<and>
   (\<exists>new. xhrs (snd (step StopTextSearchSubmit initial)) = xhrs initial @ new \<and> length new = 1 \<and>
          list_all (\<lambda>x. xhr_method x = ''GET'' \<and> xhr_sent x) new) \<and>
   user_action TripTextSearchSubmit \<and> selects_trip TripTextSearchSubmit \<and>
   fst (step TripTextSearchSubmit initial) = Inr () \<and>
   (\<exists>new. xhrs (snd (step TripTextSearchSubmit initial)) = xhrs initial @ new \<and> length new = 3 \<and>
          map (\<lambda>x. url_path (xhr_url x)) new =
            [''/json/tripstoptimes'', ''/json/tripshape'', ''/json/triprows''])"
proof -
  have a: "user_action StopTextSearchSubmit" "fst (step StopTextSearchSubmit initial) = Inr ()"
    using stop_search_example by (simp_all add: user_action_def)
  have b: "user_action TripTextSearchSubmit" "selects_trip TripTextSearchSubmit"
    "fst (step TripTextSearchSubmit initial) = Inr ()"
    using trip_search_example by (simp_all add: user_action_def selects_trip_def)
  have c: "\<not> selects_trip StopTextSearchSubmit" by (simp add: selects_trip_def)
  show ?thesis
    using user_action_requests[OF a] user_action_requests[OF b(1,3)] a b c by auto
qed

theorem trip_selection_counterexample:
  "user_action TripTextSearchSubmit \<and> xhrs initial = [] \<and>
   length (xhrs (snd (step TripTextSearchSubmit initial))) = 3"
  using arg_cong[OF conjunct2[OF trip_search_example], of length]
  by (simp add: user_action_def initial_def)

text \<open>
  Claim C6. A call of \<open>downloadUrl\<close> adds exactly one request, a GET to the URL that is
  sent, has no timeout and is not aborted. The error handler only writes to the console and
  leaves the requests as they are. No event changes a request sent before, and every
  request an event adds is sent, without timeout and not aborted; so it is for every
  request of every run.
\<close>

theorem no_cancel_retry_timeout:
  "(\<exists>x. xhrs (downloadUrl url callback s) = xhrs s @ [x] \<and>
        xhr_method x = ''GET'' \<and> xhr_url x = url \<and> xhr_callback x = callback \<and>
        xhr_sent x \<and> xhr_timeout x = 0 \<and> \<not> xhr_aborted x) \<and>
   xhr_onerror i status s = s\<lparr>console := console s @ [ConsoleError status]\<rparr> \<and>
   xhrs (xhr_onerror i status s) = xhrs s \<and>
   (\<exists>new. xhrs (snd (step e s)) = xhrs s @ new \<and>
          list_all (\<lambda>x. xhr_sent x \<and> xhr_timeout x = 0 \<and> \<not> xhr_aborted x) new) \<and>
   list_all (\<lambda>x. xhr_sent x \<and> xhr_timeout x = 0 \<and> \<not> xhr_aborted x) (xhrs (run es initial))"
proof (intro conjI)
  show "\<exists>x. xhrs (downloadUrl url callback s) = xhrs s @ [x] \<and>
        xhr_method x = ''GET'' \<and> xhr_url x = url \<and> xhr_callback x = callback \<and>
        xhr_sent x \<and> xhr_timeout x = 0 \<and> \<not> xhr_aborted x"
    by (simp add: xhrs_downloadUrl get_request_def)
  show "xhr_onerror i status s = s\<lparr>console := console s @ [ConsoleError status]\<rparr>"
    by (simp add: xhr_onerror_def)
  show "xhrs (xhr_onerror i status s) = xhrs s"
    by (simp add: xhr_onerror_def)
  obtain r s' where st: "step e s = (r, s')" by (cases "step e s")
  from sends_step[OF st] obtain new where n: "xhrs s' = xhrs s @ new" "list_all request_ok new"
    by (auto simp: sends_ok_def)
  from n(2) have "list_all (\<lambda>x. xhr_sent x \<and> xhr_timeout x = 0 \<and> \<not> xhr_aborted x) new"
    by (rule list_all_weaken) (rule request_ok_plain)
  with n(1) st show "\<exists>new. xhrs (snd (step e s)) = xhrs s @ new \<and>
          list_all (\<lambda>x. xhr_sent x \<and> xhr_timeout x = 0 \<and> \<not> xhr_aborted x) new"
    by auto
  have "list_all request_ok (xhrs (run es initial))"
    by (rule run_requests_ok) (simp add: initial_def)
  then show "list_all (\<lambda>x. xhr_sent x \<and> xhr_timeout x = 0 \<and> \<not> xhr_aborted x) (xhrs (run es initial))"
    by (rule list_all_weaken) (rule request_ok_plain)
qed

section \<open>Responses with a code other than 200 (C1)\<close>

text \<open>
  Claim C1, as amended. With a response code other than 200, every callback that checks the
  code returns with the state as it was: no overlay, table, polyline or element is changed,
  no error is raised and no request is sent. The callbacks of \<open>changeStopLocation\<close> and
  \<open>saveData\<close> do not look at the code: whatever the code, they assign the response text
  to the status element and change nothing else. Nothing is stated for
  \<open>callbackDisplayRoutes\<close>.
\<close>

theorem non_200_response:
  "(responseCode \<noteq> 200 \<and> checks_responseCode cb \<longrightarrow>
      run_callback cb data responseCode s = (Inr (), s)) \<and>
   run_callback CallbackStopLocationChanged data responseCode s =
     (Inr (), s\<lparr>edit_status := StatusUnescaped data\<rparr>) \<and>
   run_callback CallbackDataSaved data responseCode s = (Inr (), s\<lparr>edit_status := StatusData data\<rparr>)"
  by (cases cb)
     (simp_all add: checks_responseCode_def run_callback_def callbackDisplayStops_def
       callbackDisplayStopsBackground_def callbackDisplayStopInfoWindow_def
       callbackDisplayPatterns_def callbackDisplayTripStopTimes_def
       callbackDisplayTripPolyLine_def callbackDisplayTripRows_def
       callbackStopLocationChanged_def callbackDataSaved_def)

theorem non_200_response_witness:
  "(404::int) \<noteq> 200 \<and> checks_responseCode CallbackDisplayStops \<and>
   run_callback CallbackDisplayStops (Text ''Not Found'') 404 initial = (Inr (), initial) \<and>
   run_callback CallbackDataSaved (Text ''Not Found'') 404 initial =
     (Inr (), initial\<lparr>edit_status := StatusData (Text ''Not Found'')\<rparr>) \<and>
   run_callback CallbackDataSaved (Text ''Saved'') 200 initial =
     (Inr (), initial\<lparr>edit_status := StatusData (Text ''Saved'')\<rparr>)"
  using non_200_response[of 404 CallbackDisplayStops "Text ''Not Found''" initial]
    non_200_response[of 200 CallbackDisplayStops "Text ''Saved''" initial]
  by (simp add: checks_responseCode_def)

text \<open>
  Claim C1 as stated fails: the callback of \<open>saveData\<close> has no check, and a response with
  code 500 changes the status element.
\<close>

theorem saveData_500_counterexample:
  "xhr_callback (xhrs (snd (step SaveData initial)) ! 0) = CallbackDataSaved \<and>
   edit_status (snd (step SaveData initial)) = StatusLit [] \<and>
   edit_status (snd (step (XhrLoad 0 (Text ''Internal Server Error'') 500) (snd (step SaveData initial)))) =
     StatusData (Text ''Internal Server Error'')"
  by (simp add: step_def saveData_def downloadUrl_def initial_def xhr_onload_def run_callback_def
      callbackDataSaved_def)

text \<open>With a response code other than 200 \<open>callbackDisplayRoutes\<close> ends with the
  ReferenceError, before it reads the response.\<close>

lemma callbackDisplayRoutes_non_200:
  "responseCode \<noteq> 200 \<Longrightarrow> callbackDisplayRoutes data responseCode s = (Inl ReferenceError, s)"
  by (simp add: callbackDisplayRoutes_def)

section \<open>The marker tables\<close>

lemma list_all_map_of:
  "distinct (map fst al) \<Longrightarrow> list_all (\<lambda>(k, r). P k r) al = (\<forall>k r. map_of al k = Some r \<longrightarrow> P k r)"
  by (auto simp: list_all_iff)

lemma list_all_upt: "list_all P [0..<n] = (\<forall>r<n. P r)"
  by (auto simp: list_all_iff)

lemma tables_inv_abs:
  "tables_inv sel bg ms \<longleftrightarrow>
     distinct (map fst sel) \<and> distinct (map fst bg) \<and> tables_abs (map_of sel) (map_of bg) ms"
proof (cases "distinct (map fst sel) \<and> distinct (map fst bg)")
  case True
  then have d: "distinct (map fst sel)" "distinct (map fst bg)" by simp_all
  show ?thesis
    unfolding tables_inv_def tables_abs_def list_all_map_of[OF d(1)] list_all_map_of[OF d(2)] list_all_upt
    using d by auto
next
  case False
  then show ?thesis by (auto simp: tables_inv_def)
qed

lemma length_hide_markers [simp]: "length (hide_markers rs ms) = length ms"
  unfolding hide_markers_def by (induction rs arbitrary: ms) simp_all

lemma nth_hide_markers:
  "i < length ms \<Longrightarrow>
   hide_markers rs ms ! i = (if i \<in> set rs then (ms ! i)\<lparr>mk_onMap := False\<rparr> else ms ! i)"
  unfolding hide_markers_def
proof (induction rs arbitrary: ms)
  case Nil
  then show ?case by simp
next
  case (Cons r rs)
  then show ?case by (cases "i = r") auto
qed

lemma length_hide_polylines [simp]: "length (hide_polylines rs ps) = length ps"
  unfolding hide_polylines_def by (induction rs arbitrary: ps) simp_all

lemma nth_hide_polylines:
  "i < length ps \<Longrightarrow>
   hide_polylines rs ps ! i = (if i \<in> set rs then (ps ! i)\<lparr>pl_onMap := False\<rparr> else ps ! i)"
  unfolding hide_polylines_def
proof (induction rs arbitrary: ps)
  case Nil
  then show ?case by simp
next
  case (Cons r rs)
  then show ?case by (cases "i = r") auto
qed

text \<open>Changes of the markers that keep stop ids and put no marker on the map.\<close>

lemma tables_abs_markers:
  assumes "tables_abs sm bm ms" "length ms' = length ms"
    "\<And>r. r < length ms \<Longrightarrow> mk_stopId (ms' ! r) = mk_stopId (ms ! r)"
    "\<And>r. r < length ms \<Longrightarrow> mk_onMap (ms' ! r) \<Longrightarrow> mk_onMap (ms ! r)"
  shows "tables_abs sm bm ms'"
  using assms unfolding tables_abs_def by auto

lemma tables_inv_markers:
  assumes "tables_inv sel bg ms" "length ms' = length ms"
    "\<And>r. r < length ms \<Longrightarrow> mk_stopId (ms' ! r) = mk_stopId (ms ! r)"
    "\<And>r. r < length ms \<Longrightarrow> mk_onMap (ms' ! r) \<Longrightarrow> mk_onMap (ms ! r)"
  shows "tables_inv sel bg ms'"
  using assms tables_abs_markers[of "map_of sel" "map_of bg" ms ms'] unfolding tables_inv_abs by blast

lemma tables_inv_hide: "tables_inv sel bg ms \<Longrightarrow> tables_inv sel bg (hide_markers rs ms)"
  by (erule tables_inv_markers) (auto simp: nth_hide_markers split: if_splits)

lemma tables_inv_update_marker:
  assumes "tables_inv sel bg ms" "mk_stopId m = mk_stopId (ms ! r)" "mk_onMap m \<Longrightarrow> mk_onMap (ms ! r)"
  shows "tables_inv sel bg (ms[r := m])"
proof (rule tables_inv_markers[OF assms(1)])
  show "length (ms[r := m]) = length ms" by simp
  fix i assume "i < length ms"
  then show "mk_stopId (ms[r := m] ! i) = mk_stopId (ms ! i)"
    using assms(2) by (cases "i = r") simp_all
  assume "mk_onMap (ms[r := m] ! i)"
  then show "mk_onMap (ms ! i)"
    using assms(3) \<open>i < length ms\<close> by (cases "i = r") simp_all
qed

lemma tables_abs_new_selected:
  assumes "tables_abs sm bm ms" "sm k = None" "bm k = None" "mk_stopId m = k"
  shows "tables_abs (sm(k \<mapsto> length ms)) bm (ms @ [m])"
  unfolding tables_abs_def
proof (intro conjI allI impI)
  fix k' r assume a: "(sm(k \<mapsto> length ms)) k' = Some r"
  show "bm k' = None"
    using a assms unfolding tables_abs_def by (cases "k' = k") auto
  show "r < length (ms @ [m])"
    using a assms unfolding tables_abs_def by (cases "k' = k") (auto simp: less_Suc_eq)
  show "mk_stopId ((ms @ [m]) ! r) = k'"
    using a assms unfolding tables_abs_def by (cases "k' = k") (auto simp: nth_append)
next
  fix k' r assume a: "bm k' = Some r"
  then have "r < length ms" "mk_stopId (ms ! r) = k'"
    using assms(1) unfolding tables_abs_def by auto
  then show "r < length (ms @ [m])" "mk_stopId ((ms @ [m]) ! r) = k'"
    by (simp_all add: nth_append)
next
  fix r assume a: "r < length (ms @ [m])" "mk_onMap ((ms @ [m]) ! r)"
  show "(sm(k \<mapsto> length ms)) (mk_stopId ((ms @ [m]) ! r)) = Some r \<or>
        bm (mk_stopId ((ms @ [m]) ! r)) = Some r"
  proof (cases "r < length ms")
    case True
    then have o: "sm (mk_stopId (ms ! r)) = Some r \<or> bm (mk_stopId (ms ! r)) = Some r"
      using a(2) assms(1) unfolding tables_abs_def by (auto simp: nth_append)
    then have "mk_stopId (ms ! r) \<noteq> k" using assms(2,3) by auto
    then show ?thesis using o True by (simp add: nth_append)
  next
    case False
    then have "r = length ms" using a(1) by simp
    then show ?thesis using assms(4) by simp
  qed
qed

lemma tables_abs_new_background:
  assumes "tables_abs sm bm ms" "sm k = None" "bm k = None" "mk_stopId m = k"
  shows "tables_abs sm (bm(k \<mapsto> length ms)) (ms @ [m])"
  unfolding tables_abs_def
proof (intro conjI allI impI)
  fix k' r assume a: "sm k' = Some r"
  then have "bm k' = None" "r < length ms" "mk_stopId (ms ! r) = k'"
    using assms(1) unfolding tables_abs_def by auto
  moreover have "k' \<noteq> k" using a assms(2) by auto
  ultimately show "(bm(k \<mapsto> length ms)) k' = None" "r < length (ms @ [m])"
    "mk_stopId ((ms @ [m]) ! r) = k'"
    by (simp_all add: nth_append)
next
  fix k' r assume a: "(bm(k \<mapsto> length ms)) k' = Some r"
  show "r < length (ms @ [m])"
    using a assms unfolding tables_abs_def by (cases "k' = k") (auto simp: less_Suc_eq)
  show "mk_stopId ((ms @ [m]) ! r) = k'"
    using a assms unfolding tables_abs_def by (cases "k' = k") (auto simp: nth_append)
next
  fix r assume a: "r < length (ms @ [m])" "mk_onMap ((ms @ [m]) ! r)"
  show "sm (mk_stopId ((ms @ [m]) ! r)) = Some r \<or>
        (bm(k \<mapsto> length ms)) (mk_stopId ((ms @ [m]) ! r)) = Some r"
  proof (cases "r < length ms")
    case True
    then have o: "sm (mk_stopId (ms ! r)) = Some r \<or> bm (mk_stopId (ms ! r)) = Some r"
      using a(2) assms(1) unfolding tables_abs_def by (auto simp: nth_append)
    then have "mk_stopId (ms ! r) \<noteq> k" using assms(2,3) by auto
    then show ?thesis using o True by (simp add: nth_append)
  next
    case False
    then have "r = length ms" using a(1) by simp
    then show ?thesis using assms(4) by simp
  qed
qed

lemma tables_abs_remove_background:
  assumes "tables_abs sm bm ms" "bm k = Some b"
  shows "tables_abs sm (bm(k := None)) (ms[b := (ms ! b)\<lparr>mk_onMap := False\<rparr>])"
proof -
  let ?ms = "ms[b := (ms ! b)\<lparr>mk_onMap := False\<rparr>]"
  have b: "b < length ms" "mk_stopId (ms ! b) = k"
    using assms unfolding tables_abs_def by auto
  have n: "mk_stopId (?ms ! r) = mk_stopId (ms ! r)" if "r < length ms" for r
    using that by (cases "r = b") simp_all
  have o: "mk_onMap (?ms ! r) = (r \<noteq> b \<and> mk_onMap (ms ! r))" if "r < length ms" for r
    using that by (cases "r = b") simp_all
  show ?thesis
    unfolding tables_abs_def
  proof (intro conjI allI impI)
    fix k' r assume a: "sm k' = Some r"
    then have "bm k' = None" "r < length ms" "mk_stopId (ms ! r) = k'"
      using assms(1) unfolding tables_abs_def by auto
    then show "(bm(k := None)) k' = None" "r < length ?ms" "mk_stopId (?ms ! r) = k'"
      by (simp_all add: n)
  next
    fix k' r assume a: "(bm(k := None)) k' = Some r"
    then have "bm k' = Some r" by (cases "k' = k") simp_all
    then have "r < length ms" "mk_stopId (ms ! r) = k'"
      using assms(1) unfolding tables_abs_def by auto
    then show "r < length ?ms" "mk_stopId (?ms ! r) = k'"
      by (simp_all add: n)
  next
    fix r assume a: "r < length ?ms" "mk_onMap (?ms ! r)"
    then have r: "r < length ms" "r \<noteq> b" "mk_onMap (ms ! r)" by (simp_all add: o)
    then have d: "sm (mk_stopId (ms ! r)) = Some r \<or> bm (mk_stopId (ms ! r)) = Some r"
      using assms(1) unfolding tables_abs_def by auto
    have "bm (mk_stopId (ms ! r)) = Some r \<Longrightarrow> mk_stopId (ms ! r) \<noteq> k"
      using assms(2) r(2) by auto
    then show "sm (mk_stopId (?ms ! r)) = Some r \<or> (bm(k := None)) (mk_stopId (?ms ! r)) = Some r"
      using d r(1) by (auto simp: n)
  qed
qed

lemma tables_inv_new_selected:
  assumes "tables_inv sel bg ms" "map_of sel k = None" "map_of bg k = None" "mk_stopId m = k"
  shows "tables_inv (AList.update k (length ms) sel) bg (ms @ [m])"
  using assms tables_abs_new_selected[of "map_of sel" "map_of bg" ms k m]
  unfolding tables_inv_abs by (simp add: distinct_update update_conv')

lemma tables_inv_new_background:
  assumes "tables_inv sel bg ms" "map_of sel k = None" "map_of bg k = None" "mk_stopId m = k"
  shows "tables_inv sel (AList.update k (length ms) bg) (ms @ [m])"
  using assms tables_abs_new_background[of "map_of sel" "map_of bg" ms k m]
  unfolding tables_inv_abs by (simp add: distinct_update update_conv')

lemma tables_inv_remove_background:
  assumes "tables_inv sel bg ms" "map_of bg k = Some b"
  shows "tables_inv sel (AList.delete k bg) (ms[b := (ms ! b)\<lparr>mk_onMap := False\<rparr>])"
  using assms tables_abs_remove_background[of "map_of sel" "map_of bg" ms k b]
  unfolding tables_inv_abs by (simp add: distinct_delete delete_conv')

lemma tables_inv_listed:
  assumes "tables_inv sel bg ms" "r < length ms" "mk_onMap (ms ! r)"
  shows "r \<in> snd ` set sel \<or> r \<in> snd ` set bg"
proof -
  have "map_of sel (mk_stopId (ms ! r)) = Some r \<or> map_of bg (mk_stopId (ms ! r)) = Some r"
    using assms unfolding tables_inv_abs tables_abs_def by blast
  then show ?thesis by (force dest: map_of_SomeD)
qed

lemma tables_inv_clear:
  assumes "tables_inv sel bg ms"
  shows "tables_inv [] [] (hide_markers (map snd bg) (hide_markers (map snd sel) ms))"
proof -
  have "\<not> mk_onMap (hide_markers (map snd bg) (hide_markers (map snd sel) ms) ! r)"
    if "r < length ms" for r
    using tables_inv_listed[OF assms that] that
    by (cases "mk_onMap (ms ! r)") (auto simp: nth_hide_markers)
  then show ?thesis
    by (simp add: tables_inv_def list_all_upt)
qed

lemma addStopMarker_new_fields:
  assumes "addStopMarker_new k n la lo ty f t s = (r, s')"
  shows "r = length (markers s)"
    and "\<exists>m. markers s' = markers s @ [m] \<and> mk_stopId m = k \<and> mk_onMap m = (map_obj s \<noteq> None)"
    and "stopMarkersSelected s' =
           (if f then AList.update k r (stopMarkersSelected s) else stopMarkersSelected s)"
    and "stopMarkersBackground s' =
           (if f then stopMarkersBackground s else AList.update k r (stopMarkersBackground s))"
    and "polylines s' = polylines s" and "existingPolylines s' = existingPolylines s"
    and "xhrs s' = xhrs s"
  using assms by (auto simp: addStopMarker_new_def Let_def)

lemma tables_ok_new_marker:
  assumes "tables_ok s" "map_of (stopMarkersSelected s) k = None" "map_of (stopMarkersBackground s) k = None"
    "addStopMarker_new k n la lo ty f t s = (r, s')"
  shows "tables_ok s'"
proof -
  note f = addStopMarker_new_fields[OF assms(4)]
  from f(2) obtain m where m: "markers s' = markers s @ [m]" "mk_stopId m = k" by blast
  show ?thesis
  proof (cases f)
    case True
    then show ?thesis
      using tables_inv_new_selected[OF assms(1)[unfolded tables_ok_def] assms(2,3) m(2)] f(1,3,4) m(1)
      by (simp add: tables_ok_def)
  next
    case False
    then show ?thesis
      using tables_inv_new_background[OF assms(1)[unfolded tables_ok_def] assms(2,3) m(2)] f(1,3,4) m(1)
      by (simp add: tables_ok_def)
  qed
qed

text \<open>The three ways through \<open>addStopMarker\<close>.\<close>

lemma addStopMarker_selected_case:
  assumes "map_of (stopMarkersSelected s) k = Some m"
    "addStopMarker k n la lo ty f t s = (r, s')"
  shows "stopMarkersSelected s' = stopMarkersSelected s"
    and "stopMarkersBackground s' = stopMarkersBackground s"
    and "length (markers s') = length (markers s)"
    and "\<And>i. i < length (markers s) \<Longrightarrow> mk_stopId (markers s' ! i) = mk_stopId (markers s ! i)"
    and "\<And>i. i < length (markers s) \<Longrightarrow> mk_onMap (markers s' ! i) = mk_onMap (markers s ! i)"
    and "r = Inr m \<or> (r = Inl TypeError \<and> s' = s)"
    and "\<not> truthy_text t \<Longrightarrow> s' = s \<and> r = Inr m"
proof -
  have *: "s' = s \<or> (\<exists>l. s' = s\<lparr>markers := (markers s)[m := (markers s ! m)\<lparr>mk_label := l\<rparr>]\<rparr>)"
    using assms by (auto simp: addStopMarker_def Let_def split: option.splits if_splits)
  show "stopMarkersSelected s' = stopMarkersSelected s" using * by auto
  show "stopMarkersBackground s' = stopMarkersBackground s" using * by auto
  show "length (markers s') = length (markers s)" using * by auto
  show "mk_stopId (markers s' ! i) = mk_stopId (markers s ! i)" if "i < length (markers s)" for i
    using * that by (cases "i = m") auto
  show "mk_onMap (markers s' ! i) = mk_onMap (markers s ! i)" if "i < length (markers s)" for i
    using * that by (cases "i = m") auto
  show "r = Inr m \<or> (r = Inl TypeError \<and> s' = s)"
    using assms by (auto simp: addStopMarker_def Let_def split: option.splits if_splits)
  show "\<not> truthy_text t \<Longrightarrow> s' = s \<and> r = Inr m"
    using assms by (auto simp: addStopMarker_def Let_def split: option.splits if_splits)
qed

lemma addStopMarker_background_case:
  assumes "map_of (stopMarkersSelected s) k = None" "map_of (stopMarkersBackground s) k = Some b"
    "addStopMarker k n la lo ty f t s = (r, s')"
  shows "\<not> f \<Longrightarrow> s' = s \<and> r = Inr b"
    and "f \<Longrightarrow> r = Inr (length (markers s)) \<and>
           addStopMarker_new k n la lo ty f t
             (s\<lparr>markers := (markers s)[b := (markers s ! b)\<lparr>mk_onMap := False\<rparr>],
                stopMarkersBackground := AList.delete k (stopMarkersBackground s)\<rparr>) = (length (markers s), s')"
proof -
  show "\<not> f \<Longrightarrow> s' = s \<and> r = Inr b"
    using assms by (auto simp: addStopMarker_def)
  let ?s = "s\<lparr>markers := (markers s)[b := (markers s ! b)\<lparr>mk_onMap := False\<rparr>],
                stopMarkersBackground := AList.delete k (stopMarkersBackground s)\<rparr>"
  assume f
  obtain x s'' where n: "addStopMarker_new k n la lo ty f t ?s = (x, s'')"
    by (cases "addStopMarker_new k n la lo ty f t ?s")
  then have "r = Inr x" "s' = s''"
    using assms \<open>f\<close> by (auto simp: addStopMarker_def Let_def)
  moreover have "x = length (markers s)"
    using addStopMarker_new_fields(1)[OF n] by simp
  ultimately show "r = Inr (length (markers s)) \<and>
      addStopMarker_new k n la lo ty f t ?s = (length (markers s), s')"
    using n by simp
qed

lemma addStopMarker_new_case:
  assumes "map_of (stopMarkersSelected s) k = None" "map_of (stopMarkersBackground s) k = None"
    "addStopMarker k n la lo ty f t s = (r, s')"
  shows "r = Inr (length (markers s)) \<and> addStopMarker_new k n la lo ty f t s = (length (markers s), s')"
proof -
  obtain x s'' where n: "addStopMarker_new k n la lo ty f t s = (x, s'')"
    by (cases "addStopMarker_new k n la lo ty f t s")
  then have "r = Inr x" "s' = s''"
    using assms by (auto simp: addStopMarker_def Let_def)
  then show ?thesis
    using addStopMarker_new_fields(1)[OF n] n by simp
qed

lemma tables_ok_addStopMarker:
  assumes "tables_ok s" "addStopMarker k n la lo ty f t s = (r, s')"
  shows "tables_ok s'"
proof (cases "map_of (stopMarkersSelected s) k")
  case (Some m)
  note c = addStopMarker_selected_case[OF Some assms(2)]
  show ?thesis
    unfolding tables_ok_def c(1,2)
    by (rule tables_inv_markers[OF assms(1)[unfolded tables_ok_def]]) (simp_all add: c)
next
  case None
  show ?thesis
  proof (cases "map_of (stopMarkersBackground s) k")
    case (Some b)
    note c = addStopMarker_background_case[OF None Some assms(2)]
    show ?thesis
    proof (cases f)
      case True
      let ?s = "s\<lparr>markers := (markers s)[b := (markers s ! b)\<lparr>mk_onMap := False\<rparr>],
                stopMarkersBackground := AList.delete k (stopMarkersBackground s)\<rparr>"
      have "tables_ok ?s"
        using tables_inv_remove_background[OF assms(1)[unfolded tables_ok_def] Some]
        by (simp add: tables_ok_def)
      moreover have "map_of (stopMarkersSelected ?s) k = None" using None by simp
      moreover have "map_of (stopMarkersBackground ?s) k = None" by (simp add: delete_conv')
      ultimately show ?thesis
        using c(2)[OF True] by (blast intro: tables_ok_new_marker)
    next
      case False
      then show ?thesis using c(1) assms(1) by simp
    qed
  next
    case None2: None
    show ?thesis
      using addStopMarker_new_case[OF None None2 assms(2)] assms(1) None None2
      by (blast intro: tables_ok_new_marker)
  qed
qed

text \<open>The marker \<open>addStopMarker\<close> returns is a marker of the stop.\<close>

lemma addStopMarker_returns:
  assumes "tables_ok s" "addStopMarker k n la lo ty f t s = (Inr m, s')"
  shows "m < length (markers s') \<and> mk_stopId (markers s' ! m) = k"
proof (cases "map_of (stopMarkersSelected s) k")
  case (Some m')
  note c = addStopMarker_selected_case[OF Some assms(2)]
  have "m' < length (markers s)" "mk_stopId (markers s ! m') = k"
    using assms(1) Some unfolding tables_ok_def tables_inv_abs tables_abs_def by auto
  then show ?thesis using c by auto
next
  case None
  show ?thesis
  proof (cases "map_of (stopMarkersBackground s) k")
    case (Some b)
    note c = addStopMarker_background_case[OF None Some assms(2)]
    have b: "b < length (markers s)" "mk_stopId (markers s ! b) = k"
      using assms(1) Some unfolding tables_ok_def tables_inv_abs tables_abs_def by auto
    show ?thesis
    proof (cases f)
      case True
      from c(2)[OF True] have m: "m = length (markers s)" and
        n: "addStopMarker_new k n la lo ty f t
             (s\<lparr>markers := (markers s)[b := (markers s ! b)\<lparr>mk_onMap := False\<rparr>],
                stopMarkersBackground := AList.delete k (stopMarkersBackground s)\<rparr>) = (length (markers s), s')"
        by simp_all
      from addStopMarker_new_fields(2)[OF n] m show ?thesis by (auto simp: nth_append)
    next
      case False
      then show ?thesis using c(1) b by auto
    qed
  next
    case None2: None
    from addStopMarker_new_case[OF None None2 assms(2)] have m: "m = length (markers s)" and
      n: "addStopMarker_new k n la lo ty f t s = (length (markers s), s')" by simp_all
    from addStopMarker_new_fields(2)[OF n] m show ?thesis by (auto simp: nth_append)
  qed
qed

lemma tables_ok_addStopMarkerFromList:
  "tables_ok s \<Longrightarrow> addStopMarkerFromList l f t s = (r, s') \<Longrightarrow> tables_ok s'"
  by (auto simp: addStopMarkerFromList_def split: prod.splits intro: tables_ok_addStopMarker)

lemma addStopMarkerFromList_returns:
  "tables_ok s \<Longrightarrow> addStopMarkerFromList l f t s = (Inr m, s') \<Longrightarrow>
   m < length (markers s') \<and> mk_stopId (markers s' ! m) = fst l"
  by (auto simp: addStopMarkerFromList_def split: prod.splits dest: addStopMarker_returns)

lemma tables_ok_clearMap: "tables_ok s \<Longrightarrow> tables_ok (clearMap s)"
  using tables_inv_clear[of "stopMarkersSelected s" "stopMarkersBackground s" "markers s"]
  by (simp add: tables_ok_def clearMap_def Let_def)

lemma tables_ok_addStopMarkers_background:
  "tables_ok s \<Longrightarrow> addStopMarkers_background stops old s = (r, s') \<Longrightarrow> tables_ok s'"
proof (induction stops arbitrary: old s)
  case Nil
  then show ?case by simp
next
  case (Cons stop stops)
  obtain r1 s1 where a: "addStopMarkerFromList stop False None s = (r1, s1)"
    by (cases "addStopMarkerFromList stop False None s")
  have ok: "tables_ok s1" using tables_ok_addStopMarkerFromList[OF Cons.prems(1) a] .
  show ?case
  proof (cases r1)
    case (Inl e)
    then show ?thesis using Cons.prems(2) a ok by simp
  next
    case (Inr m)
    then show ?thesis using Cons.prems(2) a Cons.IH[OF ok] by (simp split: if_splits)
  qed
qed

lemma tables_ok_hide: "tables_ok s \<Longrightarrow> tables_ok (s\<lparr>markers := hide_markers rs (markers s)\<rparr>)"
  using tables_inv_hide[of "stopMarkersSelected s" "stopMarkersBackground s" "markers s" rs]
  by (simp add: tables_ok_def)

lemma tables_ok_callbackDisplayStopsBackground:
  "tables_ok s \<Longrightarrow> callbackDisplayStopsBackground data code s = (r, s') \<Longrightarrow> tables_ok s'"
  by (auto simp: callbackDisplayStopsBackground_def
      split: if_splits response_data.splits prod.splits sum.splits
      intro: tables_ok_hide dest: tables_ok_addStopMarkers_background)

lemma tables_ok_apply_op: "tables_ok s \<Longrightarrow> tables_ok (apply_op op s)"
proof (cases op)
  case (OpAddStopMarker k n la lo ty f t)
  assume "tables_ok s"
  then show ?thesis
    using OpAddStopMarker tables_ok_addStopMarker[of s k n la lo ty f t]
    by (cases "addStopMarker k n la lo ty f t s") (simp add: apply_op_def)
next
  case (OpAddStopMarkerFromList l f t)
  assume "tables_ok s"
  then show ?thesis
    using OpAddStopMarkerFromList tables_ok_addStopMarkerFromList[of s l f t]
    by (cases "addStopMarkerFromList l f t s") (simp add: apply_op_def)
next
  case (OpCallbackDisplayStopsBackground data code)
  assume "tables_ok s"
  then show ?thesis
    using OpCallbackDisplayStopsBackground tables_ok_callbackDisplayStopsBackground[of s data code]
    by (cases "callbackDisplayStopsBackground data code s") (simp add: apply_op_def)
next
  case OpClearMap
  assume "tables_ok s"
  then show ?thesis using OpClearMap by (simp add: apply_op_def tables_ok_clearMap)
qed

lemma tables_ok_apply_ops: "tables_ok s \<Longrightarrow> tables_ok (apply_ops ops s)"
  by (induction ops arbitrary: s) (simp_all add: tables_ok_apply_op)

lemma tables_ok_disjoint:
  assumes "tables_ok s"
  shows "set (map fst (stopMarkersSelected s)) \<inter> set (map fst (stopMarkersBackground s)) = {}"
proof -
  have "map_of (stopMarkersBackground s) k = None" if "k \<in> fst ` set (stopMarkersSelected s)" for k
  proof -
    from that obtain r where "map_of (stopMarkersSelected s) k = Some r"
      by (cases "map_of (stopMarkersSelected s) k") (auto simp: map_of_eq_None_iff)
    then show ?thesis
      using assms unfolding tables_ok_def tables_inv_abs tables_abs_def by blast
  qed
  then show ?thesis by (auto simp: map_of_eq_None_iff)
qed

lemma tables_ok_distinct:
  "tables_ok s \<Longrightarrow> distinct (map fst (stopMarkersSelected s)) \<and> distinct (map fst (stopMarkersBackground s))"
  by (simp add: tables_ok_def tables_inv_def)

lemma tables_ok_displayed:
  assumes "tables_ok s"
  shows "distinct (map (\<lambda>r. mk_stopId (markers s ! r)) (displayed_markers s))"
proof -
  have "inj_on (\<lambda>r. mk_stopId (markers s ! r)) (set (displayed_markers s))"
  proof (rule inj_onI)
    fix x y
    assume x: "x \<in> set (displayed_markers s)" and y: "y \<in> set (displayed_markers s)"
      and e: "mk_stopId (markers s ! x) = mk_stopId (markers s ! y)"
    let ?k = "mk_stopId (markers s ! x)"
    have ta: "tables_abs (map_of (stopMarkersSelected s)) (map_of (stopMarkersBackground s)) (markers s)"
      using assms by (simp add: tables_ok_def tables_inv_abs)
    have "x < length (markers s)" "mk_onMap (markers s ! x)" using x by (simp_all add: displayed_markers_def)
    then have lx: "map_of (stopMarkersSelected s) ?k = Some x \<or> map_of (stopMarkersBackground s) ?k = Some x"
      using ta unfolding tables_abs_def by blast
    have "y < length (markers s)" "mk_onMap (markers s ! y)" using y by (simp_all add: displayed_markers_def)
    then have ly: "map_of (stopMarkersSelected s) ?k = Some y \<or> map_of (stopMarkersBackground s) ?k = Some y"
      using ta e unfolding tables_abs_def by metis
    have "map_of (stopMarkersSelected s) ?k = Some r \<Longrightarrow> map_of (stopMarkersBackground s) ?k = None" for r
      using ta unfolding tables_abs_def by blast
    with lx ly show "x = y" by auto
  qed
  moreover have "distinct (displayed_markers s)" by (simp add: displayed_markers_def)
  ultimately show ?thesis by (simp add: distinct_map)
qed

section \<open>One marker for a stop (C2)\<close>

text \<open>
  Claim C2. From a state that meets the condition on the tables, as the initial state
  does, every sequence of \<open>addStopMarker\<close>, \<open>addStopMarkerFromList\<close>,
  \<open>callbackDisplayStopsBackground\<close> and \<open>clearMap\<close> leads to a state in which no stop id is
  a key of both tables, each table has a stop id at most once, and the markers on the map
  have different stop ids. When a stop of the background table is added as selected, the
  marker is recorded, by the second half of \<open>addStopMarker\<close>, in a state in which the
  background marker is off the map and out of its table.
\<close>

theorem one_marker_per_stop:
  "tables_ok s \<Longrightarrow>
   (set (map fst (stopMarkersSelected (apply_ops ops s))) \<inter>
      set (map fst (stopMarkersBackground (apply_ops ops s))) = {} \<and>
    distinct (map fst (stopMarkersSelected (apply_ops ops s))) \<and>
    distinct (map fst (stopMarkersBackground (apply_ops ops s))) \<and>
    distinct (map (\<lambda>r. mk_stopId (markers (apply_ops ops s) ! r)) (displayed_markers (apply_ops ops s)))) \<and>
   (map_of (stopMarkersSelected s) k = None \<and> map_of (stopMarkersBackground s) k = Some b \<longrightarrow>
      addStopMarker k n la lo ty True t s =
        (Inr (length (markers s)),
         snd (addStopMarker_new k n la lo ty True t
                (s\<lparr>markers := (markers s)[b := (markers s ! b)\<lparr>mk_onMap := False\<rparr>],
                   stopMarkersBackground := AList.delete k (stopMarkersBackground s)\<rparr>))) \<and>
      \<not> mk_onMap ((markers s)[b := (markers s ! b)\<lparr>mk_onMap := False\<rparr>] ! b) \<and>
      map_of (AList.delete k (stopMarkersBackground s)) k = None \<and>
      map_of (stopMarkersSelected (snd (addStopMarker k n la lo ty True t s))) k = Some (length (markers s)) \<and>
      map_of (stopMarkersBackground (snd (addStopMarker k n la lo ty True t s))) k = None \<and>
      \<not> mk_onMap (markers (snd (addStopMarker k n la lo ty True t s)) ! b))"
proof (intro conjI impI)
  assume ok: "tables_ok s"
  have ok': "tables_ok (apply_ops ops s)" using ok by (rule tables_ok_apply_ops)
  show "set (map fst (stopMarkersSelected (apply_ops ops s))) \<inter>
      set (map fst (stopMarkersBackground (apply_ops ops s))) = {}"
    using ok' by (rule tables_ok_disjoint)
  show "distinct (map fst (stopMarkersSelected (apply_ops ops s)))"
    "distinct (map fst (stopMarkersBackground (apply_ops ops s)))"
    using tables_ok_distinct[OF ok'] by simp_all
  show "distinct (map (\<lambda>r. mk_stopId (markers (apply_ops ops s) ! r)) (displayed_markers (apply_ops ops s)))"
    using ok' by (rule tables_ok_displayed)
next
  assume ok: "tables_ok s"
    and a: "map_of (stopMarkersSelected s) k = None \<and> map_of (stopMarkersBackground s) k = Some b"
  let ?s1 = "s\<lparr>markers := (markers s)[b := (markers s ! b)\<lparr>mk_onMap := False\<rparr>],
                   stopMarkersBackground := AList.delete k (stopMarkersBackground s)\<rparr>"
  obtain r s' where r: "addStopMarker k n la lo ty True t s = (r, s')"
    by (cases "addStopMarker k n la lo ty True t s")
  from addStopMarker_background_case(2)[OF conjunct1[OF a] conjunct2[OF a] r]
  have r1: "r = Inr (length (markers s))"
    and n: "addStopMarker_new k n la lo ty True t ?s1 = (length (markers s), s')" by simp_all
  have b: "b < length (markers s)"
    using ok a unfolding tables_ok_def tables_inv_abs tables_abs_def by blast
  note f = addStopMarker_new_fields[OF n]
  show "addStopMarker k n la lo ty True t s =
        (Inr (length (markers s)), snd (addStopMarker_new k n la lo ty True t ?s1))"
    using r r1 n by simp
  show "\<not> mk_onMap ((markers s)[b := (markers s ! b)\<lparr>mk_onMap := False\<rparr>] ! b)"
    using b by simp
  show "map_of (AList.delete k (stopMarkersBackground s)) k = None"
    by (simp add: delete_conv')
  show "map_of (stopMarkersSelected (snd (addStopMarker k n la lo ty True t s))) k = Some (length (markers s))"
    using r f(3) by (simp add: update_conv')
  show "map_of (stopMarkersBackground (snd (addStopMarker k n la lo ty True t s))) k = None"
    using r f(4) by (simp add: delete_conv')
  from f(2) obtain m where "markers s' = markers ?s1 @ [m]" by blast
  then show "\<not> mk_onMap (markers (snd (addStopMarker k n la lo ty True t s)) ! b)"
    using r b by (simp add: nth_append)
qed

text \<open>C2 after the page is loaded: the stops A and B come in as background stops, A is
  then selected.\<close>

lemma tables_ok_loaded: "tables_ok (load example_config initial)"
  by code_simp

lemma background_A:
  "map_of (stopMarkersSelected (apply_ops [OpAddStopMarkerFromList stop_A False None]
      (load example_config initial))) ''A'' = None \<and>
   map_of (stopMarkersBackground (apply_ops [OpAddStopMarkerFromList stop_A False None]
      (load example_config initial))) ''A'' = Some 0 \<and>
   tables_ok (apply_ops [OpAddStopMarkerFromList stop_A False None] (load example_config initial))"
  by code_simp

lemma two_background_one_selected:
  "stopMarkersSelected (apply_ops [OpCallbackDisplayStopsBackground (Stops [stop_A, stop_B]) 200,
      OpAddStopMarkerFromList stop_A True None] (load example_config initial)) = [(''A'', 2)] \<and>
   stopMarkersBackground (apply_ops [OpCallbackDisplayStopsBackground (Stops [stop_A, stop_B]) 200,
      OpAddStopMarkerFromList stop_A True None] (load example_config initial)) = [(''B'', 1)] \<and>
   displayed_markers (apply_ops [OpCallbackDisplayStopsBackground (Stops [stop_A, stop_B]) 200,
      OpAddStopMarkerFromList stop_A True None] (load example_config initial)) = [1, 2]"
  by code_simp

theorem one_marker_per_stop_witness:
  "tables_ok (load example_config initial) \<and>
   displayed_markers (apply_ops [OpCallbackDisplayStopsBackground (Stops [stop_A, stop_B]) 200,
      OpAddStopMarkerFromList stop_A True None] (load example_config initial)) = [1, 2] \<and>
   distinct (map (\<lambda>r. mk_stopId (markers (apply_ops [OpCallbackDisplayStopsBackground (Stops [stop_A, stop_B]) 200,
      OpAddStopMarkerFromList stop_A True None] (load example_config initial)) ! r))
      (displayed_markers (apply_ops [OpCallbackDisplayStopsBackground (Stops [stop_A, stop_B]) 200,
      OpAddStopMarkerFromList stop_A True None] (load example_config initial)))) \<and>
   tables_ok (apply_ops [OpAddStopMarkerFromList stop_A False None] (load example_config initial)) \<and>
   map_of (stopMarkersSelected (apply_ops [OpAddStopMarkerFromList stop_A False None]
      (load example_config initial))) ''A'' = None \<and>
   map_of (stopMarkersBackground (apply_ops [OpAddStopMarkerFromList stop_A False None]
      (load example_config initial))) ''A'' = Some 0 \<and>
   map_of (stopMarkersSelected (snd (addStopMarker ''A'' ''Main St'' ''37.5'' ''-122.5'' 0 True None
      (apply_ops [OpAddStopMarkerFromList stop_A False None] (load example_config initial))))) ''A''
     = Some (length (markers (apply_ops [OpAddStopMarkerFromList stop_A False None] (load example_config initial)))) \<and>
   \<not> mk_onMap (markers (snd (addStopMarker ''A'' ''Main St'' ''37.5'' ''-122.5'' 0 True None
      (apply_ops [OpAddStopMarkerFromList stop_A False None] (load example_config initial)))) ! 0)"
proof -
  let ?S = "apply_ops [OpCallbackDisplayStopsBackground (Stops [stop_A, stop_B]) 200,
      OpAddStopMarkerFromList stop_A True None] (load example_config initial)"
  let ?W = "apply_ops [OpAddStopMarkerFromList stop_A False None] (load example_config initial)"
  have 1: "tables_ok (load example_config initial)" by (rule tables_ok_loaded)
  have 2: "distinct (map (\<lambda>r. mk_stopId (markers ?S ! r)) (displayed_markers ?S))"
    using one_marker_per_stop[OF 1, of "[OpCallbackDisplayStopsBackground (Stops [stop_A, stop_B]) 200,
      OpAddStopMarkerFromList stop_A True None]"] by blast
  have 3: "displayed_markers ?S = [1, 2]" using two_background_one_selected by blast
  have 4: "tables_ok ?W" "map_of (stopMarkersSelected ?W) ''A'' = None"
    "map_of (stopMarkersBackground ?W) ''A'' = Some 0"
    using background_A by blast+
  have 5: "map_of (stopMarkersSelected (snd (addStopMarker ''A'' ''Main St'' ''37.5'' ''-122.5'' 0 True None ?W))) ''A''
      = Some (length (markers ?W)) \<and>
    \<not> mk_onMap (markers (snd (addStopMarker ''A'' ''Main St'' ''37.5'' ''-122.5'' 0 True None ?W)) ! 0)"
    using one_marker_per_stop[OF 4(1), of "[]" "''A''" 0 "''Main St''" "''37.5''" "''-122.5''" 0 None] 4(2,3)
    by blast
  show ?thesis using 1 2 3 4 5 by blast
qed

section \<open>What is on the map\<close>

lemma tables_ok_cong:
  "stopMarkersSelected s' = stopMarkersSelected s \<Longrightarrow> stopMarkersBackground s' = stopMarkersBackground s \<Longrightarrow>
   markers s' = markers s \<Longrightarrow> tables_ok s' = tables_ok s"
  by (simp add: tables_ok_def)

lemma polylines_ok_cong:
  "polylines s' = polylines s \<Longrightarrow> existingPolylines s' = existingPolylines s \<Longrightarrow>
   polylines_ok s' = polylines_ok s"
  by (simp add: polylines_ok_def)

lemma polylines_addStopMarker:
  "addStopMarker k n la lo ty f t s = (r, s') \<Longrightarrow>
   polylines s' = polylines s \<and> existingPolylines s' = existingPolylines s"
  by (auto simp: addStopMarker_def addStopMarker_new_def Let_def split: option.splits if_splits)

lemma page_ok_addStopMarker:
  "page_ok s \<Longrightarrow> addStopMarker k n la lo ty f t s = (r, s') \<Longrightarrow> page_ok s'"
  using polylines_ok_cong[of s' s] tables_ok_addStopMarker[of s k n la lo ty f t r s']
  by (auto simp: page_ok_def dest: polylines_addStopMarker)

lemma page_ok_addStopMarkerFromList:
  "page_ok s \<Longrightarrow> addStopMarkerFromList l f t s = (r, s') \<Longrightarrow> page_ok s'"
  by (auto simp: addStopMarkerFromList_def split: prod.splits intro: page_ok_addStopMarker)

lemma polylines_ok_clearMap: "polylines_ok s \<Longrightarrow> polylines_ok (clearMap s)"
  by (auto simp: polylines_ok_def clearMap_def Let_def list_all_upt nth_hide_polylines)

lemma page_ok_clearMap: "page_ok s \<Longrightarrow> page_ok (clearMap s)"
  by (simp add: page_ok_def tables_ok_clearMap polylines_ok_clearMap)

text \<open>After \<open>clearMap\<close> nothing is on the map.\<close>

lemma clearMap_markers_hidden:
  assumes "tables_ok s" "r < length (markers s)"
  shows "\<not> mk_onMap (markers (clearMap s) ! r)"
  using tables_inv_listed[OF assms(1)[unfolded tables_ok_def] assms(2)] assms(2)
  by (cases "mk_onMap (markers s ! r)") (auto simp: clearMap_def Let_def nth_hide_markers)

lemma clearMap_polylines_hidden:
  assumes "polylines_ok s" "r < length (polylines s)"
  shows "\<not> pl_onMap (polylines (clearMap s) ! r)"
  using assms
  by (cases "pl_onMap (polylines s ! r)") (auto simp: polylines_ok_def list_all_upt clearMap_def Let_def nth_hide_polylines)

lemma length_clearMap [simp]:
  "length (markers (clearMap s)) = length (markers s)" "length (polylines (clearMap s)) = length (polylines s)"
  by (simp_all add: clearMap_def Let_def)

lemma displayed_clearMap:
  "page_ok s \<Longrightarrow> displayed_markers (clearMap s) = [] \<and> displayed_polylines (clearMap s) = []"
  by (auto simp: page_ok_def displayed_markers_def displayed_polylines_def filter_empty_conv
      clearMap_markers_hidden clearMap_polylines_hidden)

lemma tables_clearMap [simp]:
  "stopMarkersSelected (clearMap s) = []" "stopMarkersBackground (clearMap s) = []"
  "existingPolylines (clearMap s) = []"
  by (simp_all add: clearMap_def Let_def)

lemma same_overlays_refl [simp]: "same_overlays s s"
  by (simp add: same_overlays_def)

lemma same_overlays_trans: "same_overlays s s1 \<Longrightarrow> same_overlays s1 s2 \<Longrightarrow> same_overlays s s2"
  by (simp add: same_overlays_def)

lemma same_overlays_page_ok: "same_overlays s s' \<Longrightarrow> page_ok s' = page_ok s"
  by (simp add: same_overlays_def page_ok_def tables_ok_def polylines_ok_def)

lemma same_overlays_displayed:
  "same_overlays s s' \<Longrightarrow>
   displayed_markers s' = displayed_markers s \<and> displayed_polylines s' = displayed_polylines s"
  by (simp add: same_overlays_def displayed_markers_def displayed_polylines_def)

lemma same_downloadUrl [simp]: "same_overlays s (downloadUrl u c s)"
  by (simp add: same_overlays_def downloadUrl_def Let_def)

lemma same_downloadUrl': "same_overlays s s1 \<Longrightarrow> same_overlays s (downloadUrl u c s1)"
  by (simp add: same_overlays_def downloadUrl_def Let_def)

lemma same_parseTimeInput: "parseTimeInput s = (r, s') \<Longrightarrow> same_overlays s s'"
  by (auto simp: same_overlays_def parseTimeInput_def Let_def split: option.splits if_splits)

lemma same_parseDateInput: "parseDateInput s = (r, s') \<Longrightarrow> same_overlays s s'"
  by (auto simp: same_overlays_def parseDateInput_def Let_def split: if_splits)

lemma same_fetchStopInfoWindow: "fetchStopInfoWindow m s = (r, s') \<Longrightarrow> same_overlays s s'"
  by (auto simp: fetchStopInfoWindow_def Let_def split: prod.splits sum.splits
      dest!: same_parseTimeInput same_parseDateInput intro: same_overlays_trans same_downloadUrl')

lemma same_fetchPatterns: "fetchPatterns k s = (r, s') \<Longrightarrow> same_overlays s s'"
  by (auto simp: fetchPatterns_def Let_def split: prod.splits sum.splits
      dest!: same_parseTimeInput same_parseDateInput intro: same_overlays_trans same_downloadUrl')

lemma same_selectRoute: "selectRoute k s = (r, s') \<Longrightarrow> same_overlays s s'"
  by (auto simp: selectRoute_def Let_def same_overlays_def split: option.splits
      dest!: same_fetchPatterns)

lemma same_fetchStopsInBounds [simp]: "same_overlays s (fetchStopsInBounds b s)"
  by (simp add: fetchStopsInBounds_def)

lemma same_load: "same_overlays s (load c s)"
  by (simp add: same_overlays_def load_def Let_def sizeRouteList_def initIcons_def fetchStopsInBounds_def
      fetchRoutes_def downloadUrl_def)

lemma same_stopTextSearchSubmit [simp]: "same_overlays s (stopTextSearchSubmit s)"
  by (simp add: stopTextSearchSubmit_def Let_def)

lemma same_saveData [simp]: "same_overlays s (saveData s)"
  by (simp add: saveData_def)

lemma same_callbackDisplayStopInfoWindow:
  "callbackDisplayStopInfoWindow m data code s = (r, s') \<Longrightarrow> same_overlays s s'"
  by (auto simp: callbackDisplayStopInfoWindow_def Let_def same_overlays_def
      split: if_splits response_data.splits)

lemma same_callbackDisplayRoutes:
  "callbackDisplayRoutes data code s = (r, s') \<Longrightarrow> same_overlays s s'"
  by (auto simp: callbackDisplayRoutes_def same_overlays_def split: if_splits response_data.splits)

lemma same_callbackDisplayTripRows:
  "callbackDisplayTripRows data code t s = (r, s') \<Longrightarrow> same_overlays s s'"
  by (auto simp: callbackDisplayTripRows_def Let_def sizeRouteList_def same_overlays_def
      split: if_splits response_data.splits option.splits)

text \<open>\<open>selectTrip\<close> is \<open>clearMap\<close> as far as the map goes.\<close>

lemma selectTrip_overlays:
  "\<exists>s0. same_overlays s s0 \<and> same_overlays (clearMap s0) (selectTrip t s)"
proof -
  let ?s1 = "(case update_by_id_list ''tripInfo''
                       (set_class_descendants ''span'' (\<lambda>c. True) ''tripChoice'') (routeList s) of
                  Some ns \<Rightarrow> s\<lparr>routeList := ns\<rparr>
                | None \<Rightarrow> s)"
  let ?s2 = "(case update_by_id_list (''trip_'' @ t) (set_className ''tripChoiceSelected'')
                       (routeList ?s1) of
                  Some ns \<Rightarrow> ?s1\<lparr>routeList := ns\<rparr>
                | None \<Rightarrow> ?s1)"
  have "same_overlays s ?s2"
    by (simp add: same_overlays_def split: option.splits)
  moreover have "same_overlays (clearMap ?s2) (selectTrip t s)"
    by (simp add: selectTrip_def Let_def fetchTripRows_def fetchTripPolyLine_def same_overlays_def downloadUrl_def)
  ultimately show ?thesis by blast
qed

lemma page_ok_selectTrip: "page_ok s \<Longrightarrow> page_ok (selectTrip t s)"
proof -
  assume ok: "page_ok s"
  obtain s0 where s0: "same_overlays s s0" "same_overlays (clearMap s0) (selectTrip t s)"
    using selectTrip_overlays by blast
  have "page_ok s0" using ok s0(1) by (simp add: same_overlays_page_ok)
  then have "page_ok (clearMap s0)" by (rule page_ok_clearMap)
  then show ?thesis using s0(2) by (simp add: same_overlays_page_ok)
qed

lemma displayed_selectTrip:
  "page_ok s \<Longrightarrow> displayed_markers (selectTrip t s) = [] \<and> displayed_polylines (selectTrip t s) = []"
proof -
  assume ok: "page_ok s"
  obtain s0 where s0: "same_overlays s s0" "same_overlays (clearMap s0) (selectTrip t s)"
    using selectTrip_overlays by blast
  have "page_ok s0" using ok s0(1) by (simp add: same_overlays_page_ok)
  then show ?thesis
    using displayed_clearMap[of s0] same_overlays_displayed[OF s0(2)] by simp
qed

lemma page_ok_addStopMarkers_selected:
  "page_ok s \<Longrightarrow> addStopMarkers_selected stops s = (r, s') \<Longrightarrow> page_ok s'"
proof (induction stops arbitrary: s)
  case Nil
  then show ?case by simp
next
  case (Cons stop stops)
  obtain r1 s1 where a: "addStopMarkerFromList stop True None s = (r1, s1)"
    by (cases "addStopMarkerFromList stop True None s")
  have ok: "page_ok s1" using page_ok_addStopMarkerFromList[OF Cons.prems(1) a] .
  show ?case
  proof (cases r1)
    case (Inl e)
    then show ?thesis using Cons.prems(2) a ok by simp
  next
    case (Inr m)
    then show ?thesis using Cons.prems(2) a Cons.IH[OF ok] by simp
  qed
qed

lemma page_ok_callbackDisplayStops:
  assumes "page_ok s" "callbackDisplayStops data code s = (r, s')"
  shows "page_ok s'"
proof (cases "code \<noteq> 200")
  case True
  then show ?thesis using assms by (simp add: callbackDisplayStops_def)
next
  case False
  have c: "page_ok (clearMap s)" using assms(1) by (rule page_ok_clearMap)
  show ?thesis
  proof (cases data)
    case (Stops stops)
    show ?thesis
    proof (cases "length stops = 1")
      case True
      obtain r1 s1 where a: "addStopMarkerFromList (stops ! 0) True None (clearMap s) = (r1, s1)"
        by (cases "addStopMarkerFromList (stops ! 0) True None (clearMap s)")
      have ok: "page_ok s1" using page_ok_addStopMarkerFromList[OF c a] .
      show ?thesis
      proof (cases r1)
        case (Inl e)
        then show ?thesis
          using assms(2) False Stops True a ok by (simp add: callbackDisplayStops_def Let_def)
      next
        case (Inr m)
        then have "fetchStopInfoWindow m s1 = (r, s')"
          using assms(2) False Stops True a by (simp add: callbackDisplayStops_def Let_def)
        then show ?thesis using same_fetchStopInfoWindow ok same_overlays_page_ok by blast
      qed
    next
      case f: False
      then have "addStopMarkers_selected stops (clearMap s) = (r, s')"
        using assms(2) False Stops by (simp add: callbackDisplayStops_def Let_def)
      then show ?thesis using c by (blast intro: page_ok_addStopMarkers_selected)
    qed
  qed (use assms(2) False c in \<open>simp_all add: callbackDisplayStops_def Let_def\<close>)
qed

lemma page_ok_addStopMarkers_background:
  "page_ok s \<Longrightarrow> addStopMarkers_background stops old s = (r, s') \<Longrightarrow> page_ok s'"
proof (induction stops arbitrary: old s)
  case Nil
  then show ?case by simp
next
  case (Cons stop stops)
  obtain r1 s1 where a: "addStopMarkerFromList stop False None s = (r1, s1)"
    by (cases "addStopMarkerFromList stop False None s")
  have ok: "page_ok s1" using page_ok_addStopMarkerFromList[OF Cons.prems(1) a] .
  show ?case
  proof (cases r1)
    case (Inl e)
    then show ?thesis using Cons.prems(2) a ok by simp
  next
    case (Inr m)
    then show ?thesis using Cons.prems(2) a Cons.IH[OF ok] by (simp split: if_splits)
  qed
qed

lemma page_ok_hide: "page_ok s \<Longrightarrow> page_ok (s\<lparr>markers := hide_markers rs (markers s)\<rparr>)"
  using tables_ok_hide[of s rs] polylines_ok_cong[of "s\<lparr>markers := hide_markers rs (markers s)\<rparr>" s]
  by (simp add: page_ok_def)

lemma page_ok_callbackDisplayStopsBackground:
  "page_ok s \<Longrightarrow> callbackDisplayStopsBackground data code s = (r, s') \<Longrightarrow> page_ok s'"
  by (auto simp: callbackDisplayStopsBackground_def
      split: if_splits response_data.splits prod.splits sum.splits
      intro: page_ok_hide dest: page_ok_addStopMarkers_background)

lemma same_expandBoundingBox [simp]: "same_overlays s (expandBoundingBox ll s)"
  by (simp add: same_overlays_def expandBoundingBox_def split: option.splits)

lemma page_ok_expandBoundingBox [simp]: "page_ok (expandBoundingBox ll s) = page_ok s"
  by (rule same_overlays_page_ok) simp

lemma same_fitBoundsOfPolyLine: "fitBoundsOfPolyLine s = (r, s') \<Longrightarrow> same_overlays s s'"
  by (auto simp: fitBoundsOfPolyLine_def same_overlays_def split: option.splits)

lemma page_ok_displayTripStopTimes_loop:
  "page_ok s \<Longrightarrow> displayTripStopTimes_loop stops i arr dep s = (r, s') \<Longrightarrow> page_ok s'"
proof (induction stops arbitrary: i s)
  case Nil
  then show ?case by simp
next
  case (Cons stop stops)
  let ?t = "(case time_at arr i of
           Some a \<Rightarrow>
             Some (formatTime (twelveHourTime s) a @
                   (case time_at dep i of
                      Some d \<Rightarrow> if a \<noteq> d then ''-'' @ formatTime (twelveHourTime s) d else []
                    | None \<Rightarrow> []))
         | None \<Rightarrow> None)"
  obtain r1 s1 where a: "addStopMarkerFromList stop True ?t s = (r1, s1)"
    by (cases "addStopMarkerFromList stop True ?t s")
  have ok: "page_ok s1" using page_ok_addStopMarkerFromList[OF Cons.prems(1) a] .
  show ?case
  proof (cases r1)
    case (Inl e)
    then show ?thesis using Cons.prems(2) a ok by (simp add: Let_def)
  next
    case (Inr m)
    then have "displayTripStopTimes_loop stops (Suc i) arr dep
        (expandBoundingBox (mk_position (markers s1 ! m)) s1) = (r, s')"
      using Cons.prems(2) a by (simp add: Let_def)
    then show ?thesis
      using Cons.IH[of "expandBoundingBox (mk_position (markers s1 ! m)) s1" "Suc i"] ok by simp
  qed
qed

lemma page_ok_displayTripStopTimes:
  assumes "page_ok s" "displayTripStopTimes stops arr dep s = (r, s')"
  shows "page_ok s'"
proof -
  obtain r1 s1 where a: "displayTripStopTimes_loop stops 0 arr dep s = (r1, s1)"
    by (cases "displayTripStopTimes_loop stops 0 arr dep s")
  have ok: "page_ok s1" using page_ok_displayTripStopTimes_loop[OF assms(1) a] .
  show ?thesis
  proof (cases r1)
    case (Inl e)
    then show ?thesis using assms(2) a ok by (simp add: displayTripStopTimes_def)
  next
    case (Inr u)
    then have "fitBoundsOfPolyLine s1 = (r, s')"
      using assms(2) a by (simp add: displayTripStopTimes_def)
    then show ?thesis using same_fitBoundsOfPolyLine ok same_overlays_page_ok by blast
  qed
qed

lemma page_ok_callbackDisplayTripStopTimes:
  "page_ok s \<Longrightarrow> callbackDisplayTripStopTimes data code s = (r, s') \<Longrightarrow> page_ok s'"
  by (auto simp: callbackDisplayTripStopTimes_def
      split: if_splits response_data.splits option.splits dest: page_ok_displayTripStopTimes)

lemma same_foldl_expandBoundingBox: "same_overlays s (foldl (\<lambda>s ll. expandBoundingBox ll s) s pts)"
proof (induction pts arbitrary: s)
  case Nil
  show ?case by simp
next
  case (Cons p pts)
  have "same_overlays s (foldl (\<lambda>s ll. expandBoundingBox ll s) (expandBoundingBox p s) pts)"
    by (rule same_overlays_trans[OF same_expandBoundingBox Cons])
  then show ?case by simp
qed

lemma polylines_ok_push:
  assumes "polylines_ok s"
  shows "polylines_ok (s\<lparr>polylines := polylines s @ [p],
                         existingPolylines := existingPolylines s @ [length (polylines s)]\<rparr>)"
  using assms
  by (auto simp: polylines_ok_def list_all_iff nth_append)

lemma polylines_ok_hidden:
  assumes "polylines_ok s" "\<not> pl_onMap p"
  shows "polylines_ok (s\<lparr>polylines := polylines s @ [p]\<rparr>)"
  using assms
  by (auto simp: polylines_ok_def list_all_iff nth_append)

lemma page_ok_displayPolyLine:
  assumes "page_ok s" "displayPolyLine pd s = (r, s')"
  shows "page_ok s'"
proof -
  obtain points colorOpt where pd: "pd = (points, colorOpt)" by (cases pd)
  let ?s1 = "foldl (\<lambda>s ll. expandBoundingBox ll s) s points"
  let ?p = "\<lparr>pl_path = points,
             pl_strokeColor = (if truthy_text colorOpt then the colorOpt else ''#003399''),
             pl_onMap = (map_obj ?s1 \<noteq> None)\<rparr>"
  have s1: "same_overlays s ?s1" by (rule same_foldl_expandBoundingBox)
  then have ok1: "page_ok ?s1" using assms(1) by (simp add: same_overlays_page_ok)
  have t: "tables_ok ?s1" and p: "polylines_ok ?s1" using ok1 by (simp_all add: page_ok_def)
  show ?thesis
  proof (cases "map_obj ?s1")
    case None
    then have e: "s' = ?s1\<lparr>polylines := polylines ?s1 @ [?p]\<rparr>"
      using assms(2) pd by (simp add: displayPolyLine_def Let_def fitBoundsOfPolyLine_def)
    have "\<not> pl_onMap ?p" using None by simp
    then have "polylines_ok (?s1\<lparr>polylines := polylines ?s1 @ [?p]\<rparr>)"
      by (rule polylines_ok_hidden[OF p])
    then have "polylines_ok s'" by (simp only: e)
    moreover have "tables_ok s'" using t tables_ok_cong[of s' ?s1] by (simp add: e)
    ultimately show ?thesis by (simp add: page_ok_def)
  next
    case (Some v)
    let ?s2 = "?s1\<lparr>polylines := polylines ?s1 @ [?p],
                    existingPolylines := existingPolylines ?s1 @ [length (polylines ?s1)]\<rparr>"
    have e: "s' = ?s1\<lparr>polylines := polylines ?s1 @ [?p],
                       map_obj := Some (FitPoints (boundsOfPolyLine ?s1)),
                       existingPolylines := existingPolylines ?s1 @ [length (polylines ?s1)]\<rparr>"
      using Some assms(2) pd by (simp add: displayPolyLine_def Let_def fitBoundsOfPolyLine_def)
    have "polylines_ok ?s2" by (rule polylines_ok_push[OF p])
    then have "polylines_ok s'" using polylines_ok_cong[of s' ?s2] by (simp add: e)
    moreover have "tables_ok s'" using t tables_ok_cong[of s' ?s1] by (simp add: e)
    ultimately show ?thesis by (simp add: page_ok_def)
  qed
qed

lemma page_ok_callbackDisplayTripPolyLine:
  "page_ok s \<Longrightarrow> callbackDisplayTripPolyLine data code s = (r, s') \<Longrightarrow> page_ok s'"
  by (auto simp: callbackDisplayTripPolyLine_def
      split: if_splits response_data.splits option.splits dest: page_ok_displayPolyLine)

lemma page_ok_routeList [simp]: "page_ok (s\<lparr>routeList := ns\<rparr>) = page_ok s"
  by (rule same_overlays_page_ok) (simp add: same_overlays_def)

lemma page_ok_callbackDisplayPatterns:
  assumes "page_ok s" "callbackDisplayPatterns data code s = (r, s')"
  shows "page_ok s'"
proof (cases "code \<noteq> 200")
  case True
  then show ?thesis using assms by (simp add: callbackDisplayPatterns_def)
next
  case False
  have c: "page_ok (clearMap s)" using assms(1) by (rule page_ok_clearMap)
  show ?thesis
  proof (cases data)
    case (Patterns ps)
    then show ?thesis
      using assms(2) False c
      by (auto simp: callbackDisplayPatterns_def Let_def page_ok_selectTrip split: option.splits if_splits)
  qed (use assms False in \<open>simp_all add: callbackDisplayPatterns_def\<close>)
qed

lemma page_ok_run_callback:
  "page_ok s \<Longrightarrow> run_callback cb data code s = (r, s') \<Longrightarrow> page_ok s'"
proof (cases cb)
  case CallbackStopLocationChanged
  assume "page_ok s" "run_callback cb data code s = (r, s')"
  then show ?thesis
    using CallbackStopLocationChanged same_overlays_page_ok[of s s']
    by (auto simp: run_callback_def callbackStopLocationChanged_def same_overlays_def)
next
  case CallbackDataSaved
  assume "page_ok s" "run_callback cb data code s = (r, s')"
  then show ?thesis
    using CallbackDataSaved same_overlays_page_ok[of s s']
    by (auto simp: run_callback_def callbackDataSaved_def same_overlays_def)
qed (auto simp: run_callback_def same_overlays_page_ok
      dest: page_ok_callbackDisplayStops page_ok_callbackDisplayStopsBackground
        same_callbackDisplayStopInfoWindow same_callbackDisplayRoutes page_ok_callbackDisplayPatterns
        page_ok_callbackDisplayTripStopTimes page_ok_callbackDisplayTripPolyLine
        same_callbackDisplayTripRows)

lemma page_ok_drag:
  assumes "page_ok s"
  shows "page_ok (s\<lparr>markers := (markers s)[m := (markers s ! m)\<lparr>mk_position := pos\<rparr>]\<rparr>)"
proof -
  have "tables_inv (stopMarkersSelected s) (stopMarkersBackground s)
          ((markers s)[m := (markers s ! m)\<lparr>mk_position := pos\<rparr>])"
    using assms by (intro tables_inv_update_marker) (simp_all add: page_ok_def tables_ok_def)
  then show ?thesis
    using assms polylines_ok_cong[of "s\<lparr>markers := (markers s)[m := (markers s ! m)\<lparr>mk_position := pos\<rparr>]\<rparr>" s]
    by (simp add: page_ok_def tables_ok_def)
qed

lemma same_marker_dragend: "same_overlays s (marker_dragend m s)"
  by (simp add: marker_dragend_def changeStopLocation_def downloadUrl_def Let_def same_overlays_def)

lemma page_ok_step:
  assumes "page_ok s" "step e s = (r, s')"
  shows "page_ok s'"
proof (cases e)
  case (Load c)
  then show ?thesis using assms same_overlays_page_ok[OF same_load, of c s] by (auto simp: step_def)
next
  case (MoveEnd b)
  then show ?thesis
    using assms same_overlays_page_ok[OF same_fetchStopsInBounds, of b s]
    by (auto simp: step_def callbackMoveEnd_def)
next
  case ZoomEnd
  then show ?thesis using assms by (auto simp: step_def callbackZoomEnd_def)
next
  case StopTextSearchSubmit
  then show ?thesis
    using assms same_overlays_page_ok[OF same_stopTextSearchSubmit, of s] by (auto simp: step_def)
next
  case TripTextSearchSubmit
  then show ?thesis using assms by (auto simp: step_def tripTextSearchSubmit_def page_ok_selectTrip)
next
  case (Click h)
  then show ?thesis
    using assms
    by (cases h) (auto simp: step_def page_ok_selectTrip same_overlays_page_ok dest: same_selectRoute)
next
  case (MarkerClick m)
  then show ?thesis
    using assms by (auto simp: step_def marker_click_def same_overlays_page_ok dest: same_fetchStopInfoWindow)
next
  case (MarkerDragEnd m pos)
  then show ?thesis
    using assms page_ok_drag[OF assms(1), of m pos]
      same_overlays_page_ok[OF same_marker_dragend,
        of m "s\<lparr>markers := (markers s)[m := (markers s ! m)\<lparr>mk_position := pos\<rparr>]\<rparr>"]
    by (auto simp: step_def)
next
  case SaveData
  then show ?thesis using assms same_overlays_page_ok[OF same_saveData, of s] by (auto simp: step_def)
next
  case (SetStartDate y m d)
  then show ?thesis
    using assms same_overlays_page_ok[of s s'] by (auto simp: step_def setStartDate_def same_overlays_def)
next
  case (TypeStopText t)
  then show ?thesis using assms same_overlays_page_ok[of s s'] by (auto simp: step_def same_overlays_def)
next
  case (TypeTripText t)
  then show ?thesis using assms same_overlays_page_ok[of s s'] by (auto simp: step_def same_overlays_def)
next
  case (TypeTime t)
  then show ?thesis using assms same_overlays_page_ok[of s s'] by (auto simp: step_def same_overlays_def)
next
  case (TypeDate t)
  then show ?thesis using assms same_overlays_page_ok[of s s'] by (auto simp: step_def same_overlays_def)
next
  case (XhrLoad i data code)
  then show ?thesis using assms by (auto simp: step_def xhr_onload_def dest: page_ok_run_callback)
next
  case (XhrError i code)
  then show ?thesis
    using assms same_overlays_page_ok[of s s'] by (auto simp: step_def xhr_onerror_def same_overlays_def)
qed

lemma page_ok_run: "page_ok s \<Longrightarrow> page_ok (run es s)"
proof (induction es arbitrary: s)
  case Nil
  then show ?case by simp
next
  case (Cons e es)
  obtain r s' where st: "step e s = (r, s')" by (cases "step e s")
  then show ?case using Cons.IH[OF page_ok_step[OF Cons.prems st]] by simp
qed

lemma page_ok_initial: "page_ok initial"
  by (simp add: page_ok_def tables_ok_def tables_inv_def polylines_ok_def initial_def)

text \<open>A stop added as a background stop without a text: markers are only added.\<close>

lemma addStopMarker_background_step:
  assumes "addStopMarker k n la lo ty False None s = (r, s')"
  shows "\<exists>m. r = Inr m" and "\<exists>extra. markers s' = markers s @ extra"
    and "stopMarkersSelected s' = stopMarkersSelected s"
    and "polylines s' = polylines s" and "existingPolylines s' = existingPolylines s"
proof -
  have "(\<exists>m. r = Inr m) \<and> (\<exists>extra. markers s' = markers s @ extra) \<and>
        stopMarkersSelected s' = stopMarkersSelected s"
  proof (cases "map_of (stopMarkersSelected s) k")
    case (Some m)
    from addStopMarker_selected_case(7)[OF Some assms] show ?thesis by (simp add: truthy_text_def)
  next
    case None
    show ?thesis
    proof (cases "map_of (stopMarkersBackground s) k")
      case (Some b)
      from addStopMarker_background_case(1)[OF None Some assms] show ?thesis by simp
    next
      case None2: None
      from addStopMarker_new_case[OF None None2 assms]
      have r: "r = Inr (length (markers s))"
        and n: "addStopMarker_new k n la lo ty False None s = (length (markers s), s')" by simp_all
      from addStopMarker_new_fields(2,3)[OF n] r show ?thesis by auto
    qed
  qed
  then show "\<exists>m. r = Inr m" "\<exists>extra. markers s' = markers s @ extra"
    "stopMarkersSelected s' = stopMarkersSelected s" by blast+
  show "polylines s' = polylines s" "existingPolylines s' = existingPolylines s"
    using polylines_addStopMarker[OF assms] by simp_all
qed

lemma delete_filter: "AList.delete k al = filter (\<lambda>(k', r). k' \<noteq> k) al"
  by (induction al) auto

lemma addStopMarkers_background_effect:
  assumes "tables_ok s" "addStopMarkers_background stops old s = (r, s')"
  shows "r = Inr (filter (\<lambda>(k, m). k \<notin> fst ` set stops) old) \<and>
         (\<exists>extra. markers s' = markers s @ extra) \<and>
         stopMarkersSelected s' = stopMarkersSelected s \<and>
         polylines s' = polylines s \<and> existingPolylines s' = existingPolylines s"
  using assms
proof (induction stops arbitrary: old s)
  case Nil
  then show ?case by simp
next
  case (Cons stop stops)
  obtain r1 s1 where a: "addStopMarkerFromList stop False None s = (r1, s1)"
    by (cases "addStopMarkerFromList stop False None s")
  obtain k n la lo ty where stop: "stop = (k, n, la, lo, ty)" by (cases stop)
  have a': "addStopMarker k n la lo ty False None s = (r1, s1)"
    using a stop by (simp add: addStopMarkerFromList_def)
  note st = addStopMarker_background_step[OF a']
  from st(1) obtain m where m: "r1 = Inr m" by blast
  have ok1: "tables_ok s1" using tables_ok_addStopMarker[OF Cons.prems(1) a'] .
  have sid: "mk_stopId (markers s1 ! m) = k"
    using addStopMarker_returns[OF Cons.prems(1)] a' m by blast
  let ?old = "AList.delete k old"
  have rest0: "addStopMarkers_background stops
      (if map_of old (mk_stopId (markers s1 ! m)) \<noteq> None
       then AList.delete (mk_stopId (markers s1 ! m)) old else old) s1 = (r, s')"
    using Cons.prems(2) a m by simp
  have "(if map_of old k \<noteq> None then AList.delete k old else old) = ?old"
    by (auto simp: map_of_eq_None_iff)
  then have rest: "addStopMarkers_background stops ?old s1 = (r, s')"
    using rest0 by (simp only: sid)
  from Cons.IH[OF ok1 rest]
  have ih: "r = Inr (filter (\<lambda>(k, m). k \<notin> fst ` set stops) ?old)"
    "\<exists>extra. markers s' = markers s1 @ extra"
    "stopMarkersSelected s' = stopMarkersSelected s1"
    "polylines s' = polylines s1" "existingPolylines s' = existingPolylines s1"
    by blast+
  have "filter (\<lambda>(k, m). k \<notin> fst ` set stops) ?old =
        filter (\<lambda>(k', m). k' \<notin> fst ` set (stop # stops)) old"
    by (auto simp: delete_filter stop intro!: filter_cong)
  moreover have "\<exists>extra. markers s' = markers s @ extra"
    using ih(2) st(2) by auto
  ultimately show ?case using ih st by simp
qed

section \<open>What a map interaction or a selection clears (C4)\<close>

lemma callbackDisplayStopsBackground_effect:
  assumes "tables_ok s" "callbackDisplayStopsBackground (Stops stops) 200 s = (res, s')"
  shows "res = Inr ()"
    and "stopMarkersSelected s' = stopMarkersSelected s"
    and "polylines s' = polylines s" and "existingPolylines s' = existingPolylines s"
    and "\<And>r. r < length (markers s) \<Longrightarrow>
           markers s' ! r =
             (if r \<in> snd ` set (filter (\<lambda>(k, m). k \<notin> fst ` set stops) (stopMarkersBackground s))
              then (markers s ! r)\<lparr>mk_onMap := False\<rparr> else markers s ! r)"
proof -
  obtain r1 s1 where l: "addStopMarkers_background stops (stopMarkersBackground s) s = (r1, s1)"
    by (cases "addStopMarkers_background stops (stopMarkersBackground s) s")
  let ?old = "filter (\<lambda>(k, m). k \<notin> fst ` set stops) (stopMarkersBackground s)"
  from addStopMarkers_background_effect[OF assms(1) l]
  have e: "r1 = Inr ?old" "\<exists>extra. markers s1 = markers s @ extra"
    "stopMarkersSelected s1 = stopMarkersSelected s"
    "polylines s1 = polylines s" "existingPolylines s1 = existingPolylines s"
    by blast+
  have s': "res = Inr ()" "s' = s1\<lparr>markers := hide_markers (map snd ?old) (markers s1)\<rparr>"
    using assms(2) l e(1) by (simp_all add: callbackDisplayStopsBackground_def)
  show "res = Inr ()" by (rule s'(1))
  show "stopMarkersSelected s' = stopMarkersSelected s" using s'(2) e(3) by simp
  show "polylines s' = polylines s" using s'(2) e(4) by simp
  show "existingPolylines s' = existingPolylines s" using s'(2) e(5) by simp
  fix r assume r: "r < length (markers s)"
  from e(2) obtain extra where x: "markers s1 = markers s @ extra" by blast
  have "r < length (markers s1)" using r x by simp
  then have "markers s' ! r = (if r \<in> set (map snd ?old) then (markers s1 ! r)\<lparr>mk_onMap := False\<rparr>
      else markers s1 ! r)"
    using s'(2) by (simp add: nth_hide_markers)
  moreover have "markers s1 ! r = markers s ! r" using r x by (simp add: nth_append)
  ultimately show "markers s' ! r =
             (if r \<in> snd ` set ?old then (markers s ! r)\<lparr>mk_onMap := False\<rparr> else markers s ! r)"
    by simp
qed

lemma tables_ok_selected_entry:
  assumes "tables_ok s" "(k, r) \<in> set (stopMarkersSelected s)"
  shows "r < length (markers s)" "mk_stopId (markers s ! r) = k" "k \<notin> fst ` set (stopMarkersBackground s)"
  using assms by (auto simp: tables_ok_def tables_inv_def list_all_iff map_of_eq_None_iff)

lemma tables_ok_background_entry:
  assumes "tables_ok s" "(k, r) \<in> set (stopMarkersBackground s)"
  shows "r < length (markers s)" "mk_stopId (markers s ! r) = k"
  using assms by (auto simp: tables_ok_def tables_inv_def list_all_iff)

text \<open>
  Claim C4, as amended. In a state that meets the conditions on tables and polylines, as
  every state the page reaches does: after \<open>selectTrip\<close>, and after the patterns of a
  selected route have arrived with code 200, nothing is on the map. \<open>callbackZoomEnd\<close>
  changes nothing; \<open>callbackMoveEnd\<close> and \<open>selectRoute\<close> leave what is on the map as it
  is. When the stops for the moved map have arrived with code 200, the polylines and the
  selected markers are on the map as before, a background marker whose stop is in the
  response is on the map as before, and a background marker whose stop is not in the
  response is off the map.
\<close>

theorem displayed_entities_cleared:
  "page_ok s \<Longrightarrow>
   (displayed_markers (selectTrip tripId s) = [] \<and> displayed_polylines (selectTrip tripId s) = []) \<and>
   (displayed_markers (snd (callbackDisplayPatterns (Patterns pats) 200 s)) = [] \<and>
    displayed_polylines (snd (callbackDisplayPatterns (Patterns pats) 200 s)) = []) \<and>
   callbackZoomEnd s = s \<and>
   (displayed_markers (callbackMoveEnd mapBounds s) = displayed_markers s \<and>
    displayed_polylines (callbackMoveEnd mapBounds s) = displayed_polylines s) \<and>
   (displayed_markers (snd (selectRoute routeId s)) = displayed_markers s \<and>
    displayed_polylines (snd (selectRoute routeId s)) = displayed_polylines s) \<and>
   (displayed_polylines (snd (callbackDisplayStopsBackground (Stops stops) 200 s)) = displayed_polylines s \<and>
    list_all (\<lambda>(k, r). mk_onMap (markers (snd (callbackDisplayStopsBackground (Stops stops) 200 s)) ! r) =
                         mk_onMap (markers s ! r)) (stopMarkersSelected s) \<and>
    list_all (\<lambda>(k, r). mk_onMap (markers (snd (callbackDisplayStopsBackground (Stops stops) 200 s)) ! r) =
                         (k \<in> fst ` set stops \<and> mk_onMap (markers s ! r))) (stopMarkersBackground s))"
proof (intro conjI)
  assume ok: "page_ok s"
  then have t: "tables_ok s" by (simp add: page_ok_def)
  show "displayed_markers (selectTrip tripId s) = []" "displayed_polylines (selectTrip tripId s) = []"
    using displayed_selectTrip[OF ok] by simp_all
  show "callbackZoomEnd s = s" by (simp add: callbackZoomEnd_def)
  show "displayed_markers (callbackMoveEnd mapBounds s) = displayed_markers s"
    "displayed_polylines (callbackMoveEnd mapBounds s) = displayed_polylines s"
    using same_overlays_displayed[OF same_fetchStopsInBounds, of mapBounds s]
    by (simp_all add: callbackMoveEnd_def)
  obtain r1 s1 where sr: "selectRoute routeId s = (r1, s1)" by (cases "selectRoute routeId s")
  show "displayed_markers (snd (selectRoute routeId s)) = displayed_markers s"
    "displayed_polylines (snd (selectRoute routeId s)) = displayed_polylines s"
    using same_overlays_displayed[OF same_selectRoute[OF sr]] sr by simp_all
  have c: "displayed_markers (clearMap s) = []" "displayed_polylines (clearMap s) = []"
    using displayed_clearMap[OF ok] by simp_all
  have sc: "displayed_markers (clearMap s\<lparr>routeList := ns\<rparr>) = []"
    "displayed_polylines (clearMap s\<lparr>routeList := ns\<rparr>) = []" for ns
    using c by (simp_all add: displayed_markers_def displayed_polylines_def)
  have st: "displayed_markers (selectTrip tr (clearMap s\<lparr>routeList := ns\<rparr>)) = []"
    "displayed_polylines (selectTrip tr (clearMap s\<lparr>routeList := ns\<rparr>)) = []" for tr ns
    using displayed_selectTrip[of "clearMap s\<lparr>routeList := ns\<rparr>" tr] page_ok_clearMap[OF ok]
    by simp_all
  show "displayed_markers (snd (callbackDisplayPatterns (Patterns pats) 200 s)) = []"
    using c(1) sc(1) st(1)
    by (simp add: callbackDisplayPatterns_def Let_def split: option.splits)
  show "displayed_polylines (snd (callbackDisplayPatterns (Patterns pats) 200 s)) = []"
    using c(2) sc(2) st(2)
    by (simp add: callbackDisplayPatterns_def Let_def split: option.splits)
  obtain res s' where cb: "callbackDisplayStopsBackground (Stops stops) 200 s = (res, s')"
    by (cases "callbackDisplayStopsBackground (Stops stops) 200 s")
  note e = callbackDisplayStopsBackground_effect[OF t cb]
  let ?old = "filter (\<lambda>(k, m). k \<notin> fst ` set stops) (stopMarkersBackground s)"
  show "displayed_polylines (snd (callbackDisplayStopsBackground (Stops stops) 200 s)) = displayed_polylines s"
    using cb e(3) by (simp add: displayed_polylines_def)
  have "mk_onMap (markers s' ! r) = mk_onMap (markers s ! r)"
    if kr: "(k, r) \<in> set (stopMarkersSelected s)" for k r
  proof -
    note se = tables_ok_selected_entry[OF t kr]
    have "r \<notin> snd ` set ?old"
    proof
      assume "r \<in> snd ` set ?old"
      then obtain k' where k': "(k', r) \<in> set (stopMarkersBackground s)" by auto
      from tables_ok_background_entry[OF t k'] se(2) have "k' = k" by simp
      then show False using k' se(3) by force
    qed
    then show ?thesis using e(5)[OF se(1)] by simp
  qed
  then show "list_all (\<lambda>(k, r). mk_onMap (markers (snd (callbackDisplayStopsBackground (Stops stops) 200 s)) ! r) =
                         mk_onMap (markers s ! r)) (stopMarkersSelected s)"
    using cb by (auto simp: list_all_iff)
  have "mk_onMap (markers s' ! r) = (k \<in> fst ` set stops \<and> mk_onMap (markers s ! r))"
    if kr: "(k, r) \<in> set (stopMarkersBackground s)" for k r
  proof -
    note be = tables_ok_background_entry[OF t kr]
    show ?thesis
    proof (cases "k \<in> fst ` set stops")
      case True
      have "r \<notin> snd ` set ?old"
      proof
        assume "r \<in> snd ` set ?old"
        then obtain k' where k': "(k', r) \<in> set (stopMarkersBackground s)" "k' \<notin> fst ` set stops"
          by auto
        from tables_ok_background_entry[OF t k'(1)] be(2) have "k' = k" by simp
        then show False using k'(2) True by simp
      qed
      then show ?thesis using e(5)[OF be(1)] True by simp
    next
      case False
      then have "(k, r) \<in> set ?old" using kr by simp
      then have "r \<in> snd ` set ?old" by force
      then show ?thesis using e(5)[OF be(1)] False by simp
    qed
  qed
  then show "list_all (\<lambda>(k, r). mk_onMap (markers (snd (callbackDisplayStopsBackground (Stops stops) 200 s)) ! r) =
                         (k \<in> fst ` set stops \<and> mk_onMap (markers s ! r))) (stopMarkersBackground s)"
    using cb by (auto simp: list_all_iff)
qed

text \<open>C4 after the page is loaded and two background stops are shown: a trip selection
  clears the map.\<close>

lemma two_stops_shown:
  "displayed_markers (run [Load example_config, XhrLoad 0 (Stops [stop_A, stop_B]) 200] initial) = [0, 1]"
  by code_simp

theorem displayed_entities_cleared_witness:
  "page_ok (run [Load example_config, XhrLoad 0 (Stops [stop_A, stop_B]) 200] initial) \<and>
   displayed_markers (run [Load example_config, XhrLoad 0 (Stops [stop_A, stop_B]) 200] initial) = [0, 1] \<and>
   displayed_markers (selectTrip ''t1''
     (run [Load example_config, XhrLoad 0 (Stops [stop_A, stop_B]) 200] initial)) = []"
proof -
  have ok: "page_ok (run [Load example_config, XhrLoad 0 (Stops [stop_A, stop_B]) 200] initial)"
    by (rule page_ok_run[OF page_ok_initial])
  show ?thesis
    using displayed_entities_cleared[OF ok, of "''t1''"] ok two_stops_shown by blast
qed

text \<open>
  Claim C4 as stated fails: the marker of stop A, created when the stops of the first
  response arrived, is still on the map after a zoom, after the map was moved and the
  stops for the new bounds (A among them) have arrived, and after a route was selected.
\<close>

theorem zoom_move_counterexample:
  "displayed_markers (run [Load example_config, XhrLoad 0 (Stops [stop_A]) 200,
      XhrLoad 1 (Routes [(''r1'', ''1'', ''First'')]) 200] initial) = [0] \<and>
   displayed_markers (run [Load example_config, XhrLoad 0 (Stops [stop_A]) 200,
      XhrLoad 1 (Routes [(''r1'', ''1'', ''First'')]) 200, ZoomEnd] initial) = [0] \<and>
   displayed_markers (run [Load example_config, XhrLoad 0 (Stops [stop_A]) 200,
      XhrLoad 1 (Routes [(''r1'', ''1'', ''First'')]) 200,
      MoveEnd (cfg_bounds example_config), XhrLoad 2 (Stops [stop_A, stop_B]) 200] initial) = [0, 1] \<and>
   fst (step (Click (SelectRoute ''r1'')) (run [Load example_config, XhrLoad 0 (Stops [stop_A]) 200,
      XhrLoad 1 (Routes [(''r1'', ''1'', ''First'')]) 200] initial)) = Inr () \<and>
   displayed_markers (run [Load example_config, XhrLoad 0 (Stops [stop_A]) 200,
      XhrLoad 1 (Routes [(''r1'', ''1'', ''First'')]) 200, Click (SelectRoute ''r1'')] initial) = [0]"
  by code_simp

section \<open>Responses that arrive out of order (C7)\<close>








end
